theory Spec2Isabelle
  imports
    Complex_Main
    "HOL-Library.Word"
    "HOL-Library.Log_Nat"
    "HOL-Library.Multiset"
    "HOL-Library.Char_ord"
    "HOL-Library.List_Lexorder"
begin

unbundle bit_operations_syntax

section \<open>Numbers\<close>

text \<open>
  A JavaScript number is an IEEE 754 double.  A finite double is modelled by the real number it
  denotes, and the other values are constructors of their own: negative zero, the two
  infinities and NaN.  Every arithmetic operation of the source is the exact operation on the
  reals followed by \<open>rd\<close>, the rounding to the nearest double (ties to the even significand,
  53 bits of significand, least exponent \<open>-1074\<close>); a result beyond the largest double is
  an infinity, and a zero result keeps its sign.
\<close>

definition pow2 :: "int \<Rightarrow> real" where
  "pow2 e = (if 0 \<le> e then 2 ^ nat e else 1 / 2 ^ nat (- e))"

text \<open>The binary exponent of a real other than zero: \<open>2^e \<le> |x| < 2^(e+1)\<close>.\<close>

definition expo :: "real \<Rightarrow> int" where
  "expo x = (if 1 \<le> \<bar>x\<bar> then bitlen \<lfloor>\<bar>x\<bar>\<rfloor> - 1 else - bitlen (\<lceil>1 / \<bar>x\<bar>\<rceil> - 1))"

definition round_half_even :: "real \<Rightarrow> int" where
  "round_half_even v =
     (let f = \<lfloor>v\<rfloor>; d = v - of_int f
      in if d < 1 / 2 then f else if 1 / 2 < d then f + 1 else if even f then f else f + 1)"

text \<open>The distance between neighbouring doubles around \<open>x\<close>.\<close>

definition quantum :: "real \<Rightarrow> real" where
  "quantum x = pow2 (max (expo x) (- 1022) - 52)"

definition rd :: "real \<Rightarrow> real" where
  "rd x = (if x = 0 then 0 else of_int (round_half_even (x / quantum x)) * quantum x)"

definition MAX_VALUE :: real where
  "MAX_VALUE = (2 ^ 53 - 1) * 2 ^ 971"

text \<open>A real is a double: a multiple of its quantum within the range.\<close>

definition is_double :: "real \<Rightarrow> bool" where
  "is_double x = (\<bar>x\<bar> \<le> MAX_VALUE \<and> of_int \<lfloor>x / quantum x\<rfloor> = x / quantum x)"

datatype number = Finite real | NegZero | PosInfinity | NegInfinity | NotANumber

text \<open>
  The number an operation returns whose exact result is \<open>x\<close>; \<open>negative_zero\<close> is the sign of
  an exact zero.  \<open>lit\<close> is a numeric literal of the source.
\<close>

definition to_number :: "bool \<Rightarrow> real \<Rightarrow> number" where
  "to_number negative_zero x =
     (let v = rd x
      in if MAX_VALUE < v then PosInfinity
         else if v < - MAX_VALUE then NegInfinity
         else if v = 0 then (if x < 0 \<or> (x = 0 \<and> negative_zero) then NegZero else Finite 0)
         else Finite v)"

definition lit :: "real \<Rightarrow> number" where
  "lit x = to_number False x"

definition number_of_int :: "int \<Rightarrow> number" where
  "number_of_int i = lit (of_int i)"

definition number_of_nat :: "nat \<Rightarrow> number" where
  "number_of_nat n = lit (of_nat n)"

fun is_NaN :: "number \<Rightarrow> bool" where
  "is_NaN NotANumber = True"
| "is_NaN _ = False"

fun is_infinite :: "number \<Rightarrow> bool" where
  "is_infinite PosInfinity = True"
| "is_infinite NegInfinity = True"
| "is_infinite _ = False"

fun is_zero :: "number \<Rightarrow> bool" where
  "is_zero (Finite x) = (x = 0)"
| "is_zero NegZero = True"
| "is_zero _ = False"

fun sign_bit :: "number \<Rightarrow> bool" where
  "sign_bit (Finite x) = (x < 0)"
| "sign_bit NegZero = True"
| "sign_bit NegInfinity = True"
| "sign_bit _ = False"

text \<open>The real value of a finite number.\<close>

fun value_of :: "number \<Rightarrow> real" where
  "value_of (Finite x) = x"
| "value_of _ = 0"

definition signed_infinity :: "bool \<Rightarrow> number" where
  "signed_infinity negative = (if negative then NegInfinity else PosInfinity)"

definition signed_zero :: "bool \<Rightarrow> number" where
  "signed_zero negative = (if negative then NegZero else Finite 0)"

text \<open>The operators \<open>*\<close>, \<open>/\<close>, \<open>+\<close> and \<open>-\<close>.\<close>

definition js_mul :: "number \<Rightarrow> number \<Rightarrow> number" where
  "js_mul a b =
     (if is_NaN a \<or> is_NaN b then NotANumber
      else if is_infinite a \<or> is_infinite b
        then (if is_zero a \<or> is_zero b then NotANumber
              else signed_infinity (sign_bit a \<noteq> sign_bit b))
      else to_number (sign_bit a \<noteq> sign_bit b) (value_of a * value_of b))"

definition js_div :: "number \<Rightarrow> number \<Rightarrow> number" where
  "js_div a b =
     (if is_NaN a \<or> is_NaN b then NotANumber
      else if is_infinite a
        then (if is_infinite b then NotANumber else signed_infinity (sign_bit a \<noteq> sign_bit b))
      else if is_infinite b then signed_zero (sign_bit a \<noteq> sign_bit b)
      else if is_zero b
        then (if is_zero a then NotANumber else signed_infinity (sign_bit a \<noteq> sign_bit b))
      else to_number (sign_bit a \<noteq> sign_bit b) (value_of a / value_of b))"

definition js_add :: "number \<Rightarrow> number \<Rightarrow> number" where
  "js_add a b =
     (if is_NaN a \<or> is_NaN b then NotANumber
      else if is_infinite a
        then (if is_infinite b \<and> sign_bit a \<noteq> sign_bit b then NotANumber else a)
      else if is_infinite b then b
      else to_number (sign_bit a \<and> sign_bit b) (value_of a + value_of b))"

fun js_neg :: "number \<Rightarrow> number" where
  "js_neg (Finite x) = (if x = 0 then NegZero else Finite (- x))"
| "js_neg NegZero = Finite 0"
| "js_neg PosInfinity = NegInfinity"
| "js_neg NegInfinity = PosInfinity"
| "js_neg NotANumber = NotANumber"

definition js_sub :: "number \<Rightarrow> number \<Rightarrow> number" where
  "js_sub a b = js_add a (js_neg b)"

text \<open>The comparisons \<open><\<close> and \<open><=\<close>: false when an operand is NaN, the two zeros equal.\<close>

definition js_lt :: "number \<Rightarrow> number \<Rightarrow> bool" where
  "js_lt a b =
     (\<not> is_NaN a \<and> \<not> is_NaN b \<and> a \<noteq> PosInfinity \<and> b \<noteq> NegInfinity
      \<and> (a = NegInfinity \<or> b = PosInfinity \<or> value_of a < value_of b))"

definition js_le :: "number \<Rightarrow> number \<Rightarrow> bool" where
  "js_le a b =
     (\<not> is_NaN a \<and> \<not> is_NaN b
      \<and> (a = NegInfinity \<or> b = PosInfinity
           \<or> (\<not> is_infinite a \<and> \<not> is_infinite b \<and> value_of a \<le> value_of b)))"

text \<open>A number used as a condition: not a zero and not NaN.\<close>

definition truthy :: "number \<Rightarrow> bool" where
  "truthy a = (\<not> is_NaN a \<and> \<not> is_zero a)"

text \<open>\<open>a || b\<close> on numbers, the left operand optional: the right one when the left is
  \<open>undefined\<close> or not truthy.\<close>

definition or_number :: "number option \<Rightarrow> number \<Rightarrow> number" where
  "or_number a b = (case a of None \<Rightarrow> b | Some v \<Rightarrow> if truthy v then v else b)"

text \<open>
  \<open>Math.round\<close>: the nearest integer, a half rounded towards plus infinity; and \<open>Math.ceil\<close>.
  A result of zero from a negative argument is the negative zero.
\<close>

fun Math_round :: "number \<Rightarrow> number" where
  "Math_round (Finite x) =
     (if \<lfloor>x + 1 / 2\<rfloor> = 0 then signed_zero (x < 0) else Finite (of_int \<lfloor>x + 1 / 2\<rfloor>))"
| "Math_round a = a"

fun Math_ceil :: "number \<Rightarrow> number" where
  "Math_ceil (Finite x) = (if \<lceil>x\<rceil> = 0 then signed_zero (x < 0) else Finite (of_int \<lceil>x\<rceil>))"
| "Math_ceil a = a"

text \<open>A number that a listing or a request can hold: its finite value is a double, and the
  positive zero is the only \<open>Finite\<close> zero.\<close>

fun is_number :: "number \<Rightarrow> bool" where
  "is_number (Finite x) = is_double x"
| "is_number _ = True"

text \<open>A number that is not negative: a finite value of at least zero, or plus infinity.  The
  negative zero and NaN are not among them.\<close>

fun nonnegative :: "number \<Rightarrow> bool" where
  "nonnegative (Finite x) = (0 \<le> x)"
| "nonnegative PosInfinity = True"
| "nonnegative _ = False"

text \<open>
  \<open>Array.prototype.sort\<close> with a comparator: a stable insertion sort, in which an element
  moves behind another exactly when the comparator is positive on the pair.  For a
  comparator that orders the elements consistently every stable sort returns this list; for
  an inconsistent one (a NaN among the keys) the language leaves the order to the
  implementation.
\<close>

fun insert_by :: "('a \<Rightarrow> 'a \<Rightarrow> number) \<Rightarrow> 'a \<Rightarrow> 'a list \<Rightarrow> 'a list" where
  "insert_by cmp x [] = [x]"
| "insert_by cmp x (y # ys) =
     (if js_lt (Finite 0) (cmp x y) then y # insert_by cmp x ys else x # y # ys)"

definition sort_with :: "('a \<Rightarrow> 'a \<Rightarrow> number) \<Rightarrow> 'a list \<Rightarrow> 'a list" where
  "sort_with cmp xs = foldr (insert_by cmp) xs []"

section \<open>Enumerations\<close>

datatype ShopType = LOCAL | GLOBAL

datatype Currency = ILS | USD | EUR | GBP

datatype Country = IL | US | UK | DE | FR

datatype AvailabilityStatus = IN_STOCK | OUT_OF_STOCK | LOW_STOCK | PRE_ORDER | UNKNOWN

datatype SortBy = RELEVANCE | PRICE_ASC | PRICE_DESC | RATING | NEWEST

text \<open>The string value of each enumeration member, as the \<open>enum\<close> declarations give it.\<close>

fun Country_value :: "Country \<Rightarrow> string" where
  "Country_value IL = ''IL''"
| "Country_value US = ''US''"
| "Country_value UK = ''UK''"
| "Country_value DE = ''DE''"
| "Country_value FR = ''FR''"

fun SortBy_value :: "SortBy \<Rightarrow> string" where
  "SortBy_value RELEVANCE = ''relevance''"
| "SortBy_value PRICE_ASC = ''price_asc''"
| "SortBy_value PRICE_DESC = ''price_desc''"
| "SortBy_value RATING = ''rating''"
| "SortBy_value NEWEST = ''newest''"

fun ShopType_value :: "ShopType \<Rightarrow> string" where
  "ShopType_value LOCAL = ''local''"
| "ShopType_value GLOBAL = ''global''"

section \<open>Currency conversion (packages/utils, currency)\<close>

text \<open>\<open>EXCHANGE_RATES\<close>: the rate of each currency against the base currency USD.\<close>

fun EXCHANGE_RATES :: "Currency \<Rightarrow> number" where
  "EXCHANGE_RATES USD = lit 1"
| "EXCHANGE_RATES ILS = lit (373 / 100)"
| "EXCHANGE_RATES EUR = lit (92 / 100)"
| "EXCHANGE_RATES GBP = lit (79 / 100)"

definition convertCurrency :: "number \<Rightarrow> Currency \<Rightarrow> Currency \<Rightarrow> number" where
  "convertCurrency amount fromCurrency toCurrency =
     (if fromCurrency = toCurrency then amount
      else
        let amountInUSD = js_div amount (EXCHANGE_RATES fromCurrency);
            convertedAmount = js_mul amountInUSD (EXCHANGE_RATES toCurrency)
        in js_div (Math_round (js_mul convertedAmount (lit 100))) (lit 100))"

definition getExchangeRate :: "Currency \<Rightarrow> Currency \<Rightarrow> number" where
  "getExchangeRate fromCurrency toCurrency =
     (if fromCurrency = toCurrency then lit 1
      else js_div (EXCHANGE_RATES toCurrency) (EXCHANGE_RATES fromCurrency))"

section \<open>Listings (packages/types, product)\<close>

text \<open>
  The interfaces of the product types, field by field.  Fields that two interfaces share are
  told apart by a prefix: \<open>shop_name\<close>, \<open>shop_type\<close> and \<open>shop_country\<close> are \<open>name\<close>, \<open>type\<close>
  and \<open>country\<close> of \<open>ShopInfo\<close>; \<open>shipping_available\<close> is \<open>available\<close> of \<open>ShippingCost\<close>;
  \<open>product_id\<close> is \<open>_id\<close>.  An optional field is an \<open>option\<close>.  The image, URL, SKU and
  timestamp fields of \<open>Product\<close> and the factors of \<open>Recommendation\<close> are read by none of the
  functions below and are left out.
\<close>

record ShopInfo =
  shop_name :: string
  shop_type :: ShopType
  shop_country :: string
  ships_to :: "string list"
  is_marketplace :: bool
  global_reach :: bool

record BasePrice =
  amount :: number
  currency :: Currency
  includes_tax :: bool

record EstimatedDays =
  standard :: number
  express :: "number option"

record ShippingCost =
  shipping_available :: bool
  cost :: number
  express_cost :: "number option"
  free_threshold :: "number option"
  estimated_days :: EstimatedDays

record ImportFees =
  import_duty :: number
  vat :: number
  handling :: number
  customs_clearance :: number

record PurchaseRisks =
  customs_delay :: bool
  warranty_void :: bool
  return_difficult :: bool

record InternationalPricing =
  shipping :: ShippingCost
  fees :: ImportFees
  total_landed_cost :: number
  risks :: PurchaseRisks

record Pricing =
  base :: BasePrice
  local_total :: "number option"
  international :: "InternationalPricing option"

record Recommendation =
  score :: number

record Product =
  product_id :: string
  product_group_id :: string
  shop_info :: ShopInfo
  name :: string
  description :: "string option"
  brand :: "string option"
  category :: "string option"
  rating :: "number option"
  review_count :: "number option"
  availability :: AvailabilityStatus
  pricing :: Pricing
  recommendation :: "Recommendation option"

section \<open>Landed cost (SearchService)\<close>

text \<open>
  \<open>product.pricing.international?.total_landed_cost\<close> as a condition: the breakdown is
  there and its total is neither zero nor NaN.
\<close>

definition has_total_landed_cost :: "Product \<Rightarrow> bool" where
  "has_total_landed_cost p =
     (case international (pricing p) of
        None \<Rightarrow> False
      | Some i \<Rightarrow> truthy (total_landed_cost i))"

text \<open>\<open>SearchService.calculateTotalCost\<close>.  The destination country is not read.\<close>

definition calculateTotalCost :: "Product \<Rightarrow> Country \<Rightarrow> bool \<Rightarrow> Product" where
  "calculateTotalCost p userCountry includeAllFees =
     (if has_total_landed_cost p then p
      else
        let basePrice = amount (base (pricing p));
            estimatedShipping = js_mul basePrice (lit (1 / 10));
            estimatedDuties = (if includeAllFees then js_mul basePrice (lit (17 / 100)) else lit 0)
        in p\<lparr>pricing := (pricing p)\<lparr>international := Some
             \<lparr>shipping =
                \<lparr>shipping_available = True,
                 cost = estimatedShipping,
                 express_cost = None,
                 free_threshold = None,
                 estimated_days = \<lparr>standard = lit 14, express = None\<rparr>\<rparr>,
              fees =
                \<lparr>import_duty = js_mul estimatedDuties (lit (3 / 10)),
                 vat = js_mul estimatedDuties (lit (7 / 10)),
                 handling = lit 0,
                 customs_clearance = lit 0\<rparr>,
              total_landed_cost = js_add (js_add basePrice estimatedShipping) estimatedDuties,
              risks =
                \<lparr>customs_delay = True,
                 warranty_void = True,
                 return_difficult = True\<rparr>\<rparr>\<rparr>\<rparr>)"

text \<open>
  \<open>a.pricing.international?.total_landed_cost || a.pricing.base.amount\<close>: the cost by which
  listings are ordered and compared.
\<close>

definition landed_or_base :: "Product \<Rightarrow> number" where
  "landed_or_base p =
     or_number (map_option total_landed_cost (international (pricing p)))
       (amount (base (pricing p)))"

text \<open>\<open>SearchService.sortByTotalCost\<close>: the comparator is the difference of the two costs.\<close>

definition sortByTotalCost :: "Product list \<Rightarrow> bool \<Rightarrow> Product list" where
  "sortByTotalCost ps descending =
     sort_with (\<lambda>a b.
        let costA = landed_or_base a;
            costB = landed_or_base b
        in if descending then js_sub costB costA else js_sub costA costB) ps"

text \<open>The total landed cost a listing carries, if it carries a breakdown.\<close>

definition landed_total :: "Product \<Rightarrow> number option" where
  "landed_total p = map_option total_landed_cost (international (pricing p))"

text \<open>
  The ordering of the landed costs computed for a listing: with fees at least without fees,
  and without fees at least the base amount.
\<close>

definition landed_cost_monotone :: "Product \<Rightarrow> Country \<Rightarrow> bool" where
  "landed_cost_monotone p userCountry =
     (case (landed_total (calculateTotalCost p userCountry True),
            landed_total (calculateTotalCost p userCountry False)) of
        (Some withFees, Some withoutFees) \<Rightarrow>
          js_le withoutFees withFees \<and> js_le (amount (base (pricing p))) withoutFees
      | _ \<Rightarrow> False)"

text \<open>Listings used as concrete inputs.\<close>

definition plain_listing :: "string \<Rightarrow> string \<Rightarrow> ShopType \<Rightarrow> number \<Rightarrow> Product" where
  "plain_listing ident grp kind price =
     \<lparr>product_id = ident,
      product_group_id = grp,
      shop_info =
        \<lparr>shop_name = (if kind = LOCAL then ''ksp.co.il'' else ''amazon.com''),
         shop_type = kind,
         shop_country = (if kind = LOCAL then ''IL'' else ''US''),
         ships_to = (if kind = LOCAL then [''IL''] else [''IL'', ''US'']),
         is_marketplace = False,
         global_reach = (kind = GLOBAL)\<rparr>,
      name = ''Wireless Headphones'',
      description = None,
      brand = Some ''Sony'',
      category = Some ''audio'',
      rating = None,
      review_count = None,
      availability = IN_STOCK,
      pricing =
        \<lparr>base = \<lparr>amount = price, currency = USD, includes_tax = False\<rparr>,
         local_total = None,
         international = None\<rparr>,
      recommendation = None\<rparr>"

text \<open>A breakdown as an upstream stage attaches it: five days, no fees, no risk flags.\<close>

definition upstream_breakdown :: "number \<Rightarrow> number \<Rightarrow> InternationalPricing" where
  "upstream_breakdown shipCost landedCost =
     \<lparr>shipping =
        \<lparr>shipping_available = True,
         cost = shipCost,
         express_cost = None,
         free_threshold = None,
         estimated_days = \<lparr>standard = lit 5, express = None\<rparr>\<rparr>,
      fees = \<lparr>import_duty = lit 0, vat = lit 0, handling = lit 0, customs_clearance = lit 0\<rparr>,
      total_landed_cost = landedCost,
      risks = \<lparr>customs_delay = False, warranty_void = False, return_difficult = False\<rparr>\<rparr>"

definition with_breakdown :: "Product \<Rightarrow> InternationalPricing \<Rightarrow> Product" where
  "with_breakdown p i = p\<lparr>pricing := (pricing p)\<lparr>international := Some i\<rparr>\<rparr>"

section \<open>Strings\<close>

text \<open>
  A string is a list of 8-bit characters, the code units below 256.  \<open>toLowerCase\<close> maps
  the capital letters of that range (A to Z, and U+00C0 to U+00DE without the
  multiplication sign U+00D7) to their small letters, \<open>trim\<close>
  strips the white space of that range (tab, line feed, vertical tab, form feed, carriage
  return, space, no-break space) from both ends, \<open>includes_str\<close> is \<open>String.prototype.includes\<close>
  (the substring test) and
  \<open>join\<close> is \<open>Array.prototype.join\<close>.
\<close>

definition capital_letters :: string where
  "capital_letters = ''ABCDEFGHIJKLMNOPQRSTUVWXYZ'' @
      [CHR 0xC0, CHR 0xC1, CHR 0xC2, CHR 0xC3, CHR 0xC4, CHR 0xC5, CHR 0xC6, CHR 0xC7, CHR 0xC8, CHR 0xC9, CHR 0xCA, CHR 0xCB, CHR 0xCC, CHR 0xCD, CHR 0xCE, CHR 0xCF, CHR 0xD0,
      CHR 0xD1, CHR 0xD2, CHR 0xD3, CHR 0xD4, CHR 0xD5, CHR 0xD6, CHR 0xD8, CHR 0xD9, CHR 0xDA, CHR 0xDB, CHR 0xDC, CHR 0xDD, CHR 0xDE]"

definition small_letters :: string where
  "small_letters = ''abcdefghijklmnopqrstuvwxyz'' @
      [CHR 0xE0, CHR 0xE1, CHR 0xE2, CHR 0xE3, CHR 0xE4, CHR 0xE5, CHR 0xE6, CHR 0xE7, CHR 0xE8, CHR 0xE9, CHR 0xEA, CHR 0xEB, CHR 0xEC, CHR 0xED, CHR 0xEE, CHR 0xEF, CHR 0xF0,
      CHR 0xF1, CHR 0xF2, CHR 0xF3, CHR 0xF4, CHR 0xF5, CHR 0xF6, CHR 0xF8, CHR 0xF9, CHR 0xFA, CHR 0xFB, CHR 0xFC, CHR 0xFD, CHR 0xFE]"

definition lower_char :: "char \<Rightarrow> char" where
  "lower_char c =
     (case map_of (zip capital_letters small_letters) c of
        None \<Rightarrow> c
      | Some l \<Rightarrow> l)"

definition toLowerCase :: "string \<Rightarrow> string" where
  "toLowerCase s = map lower_char s"

definition is_white_space :: "char \<Rightarrow> bool" where
  "is_white_space c = ((of_char c :: nat) \<in> {9, 10, 11, 12, 13, 32, 160})"

definition trim :: "string \<Rightarrow> string" where
  "trim s = rev (dropWhile is_white_space (rev (dropWhile is_white_space s)))"

fun includes_str :: "string \<Rightarrow> string \<Rightarrow> bool" where
  "includes_str [] sub = (sub = [])"
| "includes_str (c # cs) sub = (take (length sub) (c # cs) = sub \<or> includes_str cs sub)"

fun join :: "string list \<Rightarrow> string \<Rightarrow> string" where
  "join [] sep = []"
| "join [x] sep = x"
| "join (x # y # ys) sep = x @ sep @ join (y # ys) sep"

text \<open>\<open>n.toString(16)\<close> and \<open>n.toString(10)\<close> for a natural number.\<close>

definition digit_char :: "nat \<Rightarrow> char" where
  "digit_char d = ''0123456789abcdef'' ! (d mod 16)"

function toString16 :: "nat \<Rightarrow> string" where
  "toString16 n = (if n < 16 then [digit_char n] else toString16 (n div 16) @ [digit_char (n mod 16)])"
  by pat_completeness auto
termination
  by (relation "measure (\<lambda>n. n)") auto

declare toString16.simps [simp del]

function toString10 :: "nat \<Rightarrow> string" where
  "toString10 n = (if n < 10 then [digit_char n] else toString10 (n div 10) @ [digit_char (n mod 10)])"
  by pat_completeness auto
termination
  by (relation "measure (\<lambda>n. n)") auto

declare toString10.simps [simp del]

text \<open>
  How the runtime writes a number: \<open>toString\<close> is the conversion of a template literal
  (\<open>Number.prototype.toString\<close>), \<open>toFixed0\<close> is \<open>toFixed(0)\<close>.  Both belong to the language,
  not to the repository, and are parameters of the functions that write numbers into a
  string.  \<open>integer_format\<close> is the instance used on concrete inputs; it is what JavaScript
  prints for numbers without a fraction below \<open>10^21\<close>.
\<close>

record NumberFormat =
  toString :: "number \<Rightarrow> string"
  toFixed0 :: "number \<Rightarrow> string"

fun integer_toString :: "number \<Rightarrow> string" where
  "integer_toString (Finite v) = (if v < 0 then ''-'' else []) @ toString10 (nat \<lfloor>\<bar>v\<bar>\<rfloor>)"
| "integer_toString NegZero = ''0''"
| "integer_toString PosInfinity = ''Infinity''"
| "integer_toString NegInfinity = ''-Infinity''"
| "integer_toString NotANumber = ''NaN''"

fun integer_toFixed0 :: "number \<Rightarrow> string" where
  "integer_toFixed0 (Finite v) =
     (if v < 0 \<and> \<lfloor>\<bar>v\<bar> + 1 / 2\<rfloor> \<noteq> 0 then ''-'' else [])
     @ toString10 (nat \<lfloor>\<bar>v\<bar> + 1 / 2\<rfloor>)"
| "integer_toFixed0 NegZero = ''0''"
| "integer_toFixed0 PosInfinity = ''Infinity''"
| "integer_toFixed0 NegInfinity = ''-Infinity''"
| "integer_toFixed0 NotANumber = ''NaN''"

definition integer_format :: NumberFormat where
  "integer_format = \<lparr>toString = integer_toString, toFixed0 = integer_toFixed0\<rparr>"

section \<open>Search requests (packages/types, search)\<close>

text \<open>
  \<open>availability_filter\<close> and \<open>filter_country\<close> are the fields \<open>availability\<close> and \<open>country\<close>
  of \<open>SearchFilters\<close>.  The fields the two request interfaces share are a common record that
  both extend.  Page numbers and page sizes are integers, as the route schemas demand.
\<close>

record SearchFilters =
  min_price :: "number option"
  max_price :: "number option"
  in_stock :: "bool option"
  shops :: "string list option"
  categories :: "string list option"
  brands :: "string list option"
  min_rating :: "number option"
  availability_filter :: "AvailabilityStatus list option"
  filter_country :: "Country option"

record SearchRequestFields =
  query :: string
  filters :: "SearchFilters option"
  sort_by :: "SortBy option"
  page :: "int option"
  per_page :: "int option"

record LocalSearchRequest = SearchRequestFields +
  country :: Country
  check_international :: "bool option"

record GlobalSearchRequest = SearchRequestFields +
  user_country :: Country
  include_shipping :: bool
  include_all_fees :: bool
  min_seller_rating :: "number option"

text \<open>The union \<open>LocalSearchRequest | GlobalSearchRequest\<close> and the literal type
  \<open>"local" | "global"\<close>.\<close>

datatype AnySearchRequest = OfLocal LocalSearchRequest | OfGlobal GlobalSearchRequest

datatype SearchKind = KindLocal | KindGlobal

text \<open>\<open>a || b\<close> on integers, the left operand optional.\<close>

definition or_int :: "int option \<Rightarrow> int \<Rightarrow> int" where
  "or_int a b = (case a of None \<Rightarrow> b | Some v \<Rightarrow> if v \<noteq> 0 then v else b)"

section \<open>Cache keys (CacheService)\<close>

definition SEARCH_LOCAL :: string where
  "SEARCH_LOCAL = ''search:local:''"

definition SEARCH_GLOBAL :: string where
  "SEARCH_GLOBAL = ''search:global:''"

text \<open>
  \<open>CacheService.simpleHash\<close>.  The product \<open>hash * 33\<close> is exact in a double, since \<open>hash\<close> is
  a 32-bit integer after the first round, and \<open>^\<close> reduces it to 32 bits: the loop is
  arithmetic on 32-bit words.  \<open>hash >>> 0\<close> reads the word as unsigned.
\<close>

definition simpleHash :: "string \<Rightarrow> string" where
  "simpleHash str =
     toString16 (unat (fold (\<lambda>c hash. (hash * 33) XOR of_nat (of_char c)) str (5381 :: 32 word)))"

text \<open>The tokens for the filters, in the order in which the source pushes them.\<close>

definition filter_keyParts :: "NumberFormat \<Rightarrow> SearchFilters \<Rightarrow> string list" where
  "filter_keyParts fmt f =
     (case min_price f of None \<Rightarrow> [] | Some v \<Rightarrow> [''min_price:'' @ toString fmt v])
   @ (case max_price f of None \<Rightarrow> [] | Some v \<Rightarrow> [''max_price:'' @ toString fmt v])
   @ (case in_stock f of None \<Rightarrow> []
      | Some b \<Rightarrow> [''in_stock:'' @ (if b then ''true'' else ''false'')])
   @ (case shops f of None \<Rightarrow> []
      | Some xs \<Rightarrow> if xs \<noteq> [] then [''shops:'' @ join (sort xs) '',''] else [])
   @ (case categories f of None \<Rightarrow> []
      | Some xs \<Rightarrow> if xs \<noteq> [] then [''categories:'' @ join (sort xs) '',''] else [])
   @ (case brands f of None \<Rightarrow> []
      | Some xs \<Rightarrow> if xs \<noteq> [] then [''brands:'' @ join (sort xs) '',''] else [])
   @ (case min_rating f of None \<Rightarrow> [] | Some v \<Rightarrow> [''min_rating:'' @ toString fmt v])"

text \<open>The tokens every request has: query, page, page size and sort key.\<close>

definition common_keyParts :: "NumberFormat \<Rightarrow> 'a SearchRequestFields_scheme \<Rightarrow> string list" where
  "common_keyParts fmt request =
     [trim (toLowerCase (query request)),
      ''page:'' @ toString fmt (number_of_int (or_int (page request) 1)),
      ''per_page:'' @ toString fmt (number_of_int (or_int (per_page request) 20)),
      ''sort:'' @ (case sort_by request of None \<Rightarrow> ''relevance'' | Some s \<Rightarrow> SortBy_value s)]"

fun request_filters :: "AnySearchRequest \<Rightarrow> SearchFilters option" where
  "request_filters (OfLocal r) = filters r"
| "request_filters (OfGlobal r) = filters r"

fun keyParts :: "NumberFormat \<Rightarrow> AnySearchRequest \<Rightarrow> string list" where
  "keyParts fmt (OfLocal r) =
     common_keyParts fmt r @ [''country:'' @ Country_value (country r)]
     @ (case filters r of None \<Rightarrow> [] | Some f \<Rightarrow> filter_keyParts fmt f)"
| "keyParts fmt (OfGlobal r) =
     common_keyParts fmt r @ [''country:'' @ Country_value (user_country r)]
     @ (case filters r of None \<Rightarrow> [] | Some f \<Rightarrow> filter_keyParts fmt f)"

text \<open>\<open>CacheService.buildSearchCacheKey\<close>: the key it returns.\<close>

definition buildSearchCacheKey :: "NumberFormat \<Rightarrow> SearchKind \<Rightarrow> AnySearchRequest \<Rightarrow> string" where
  "buildSearchCacheKey fmt kind request =
     (let prefix = (case kind of KindLocal \<Rightarrow> SEARCH_LOCAL | KindGlobal \<Rightarrow> SEARCH_GLOBAL);
          keyString = join (keyParts fmt request) ''|'';
          hash = simpleHash keyString
      in prefix @ hash)"

text \<open>
  \<open>Array.prototype.sort\<close> sorts in place: after the key is built, the non-empty filter
  arrays of the request are sorted.
\<close>

definition sorted_in_place :: "string list option \<Rightarrow> string list option" where
  "sorted_in_place xs = map_option sort xs"

definition filters_after_key :: "SearchFilters \<Rightarrow> SearchFilters" where
  "filters_after_key f =
     f\<lparr>shops := sorted_in_place (shops f),
       categories := sorted_in_place (categories f),
       brands := sorted_in_place (brands f)\<rparr>"

text \<open>Two requests that differ in the order of their multi-value filter arrays only.\<close>

definition same_up_to_order :: "string list option \<Rightarrow> string list option \<Rightarrow> bool" where
  "same_up_to_order a b =
     (case (a, b) of
        (None, None) \<Rightarrow> True
      | (Some xs, Some ys) \<Rightarrow> mset xs = mset ys
      | _ \<Rightarrow> False)"

definition permuted_filters :: "SearchFilters option \<Rightarrow> SearchFilters option \<Rightarrow> bool" where
  "permuted_filters a b =
     (case (a, b) of
        (None, None) \<Rightarrow> True
      | (Some f, Some g) \<Rightarrow>
          g = f\<lparr>shops := shops g, categories := categories g, brands := brands g\<rparr>
          \<and> same_up_to_order (shops f) (shops g)
          \<and> same_up_to_order (categories f) (categories g)
          \<and> same_up_to_order (brands f) (brands g)
      | _ \<Rightarrow> False)"

fun permuted_request :: "AnySearchRequest \<Rightarrow> AnySearchRequest \<Rightarrow> bool" where
  "permuted_request (OfLocal r) (OfLocal r') =
     (r' = r\<lparr>filters := filters r'\<rparr> \<and> permuted_filters (filters r) (filters r'))"
| "permuted_request (OfGlobal r) (OfGlobal r') =
     (r' = r\<lparr>filters := filters r'\<rparr> \<and> permuted_filters (filters r) (filters r'))"
| "permuted_request _ _ = False"

section \<open>Search responses (packages/types, search)\<close>

text \<open>
  \<open>pm_per_page\<close> is \<open>per_page\<close> of \<open>PaginationMeta\<close>; \<open>deal_shop\<close>, \<open>deal_country\<close> and
  \<open>deal_product\<close> are \<open>shop\<close> and \<open>country\<close> of the summary and \<open>product\<close> of \<open>SmartDeal\<close>;
  \<open>response_query\<close> and \<open>response_filters\<close> are \<open>query\<close> and \<open>filters\<close> of the responses.
\<close>

record PaginationMeta =
  current_page :: int
  total_pages :: number
  pm_per_page :: int
  total_results :: nat
  has_next :: bool
  has_prev :: bool

record DealSummary =
  best_local :: number
  best_international :: number
  savings :: number
  savings_percent :: number
  delivery_difference :: number
  deal_shop :: string
  deal_country :: string

record SmartDeal =
  available :: bool
  message :: "string option"
  summary :: "DealSummary option"
  deal_product :: "Product option"

record SearchResponseFields =
  results :: "Product list"
  pagination :: PaginationMeta
  response_query :: string
  response_filters :: SearchFilters
  took_ms :: number

record LocalSearchResponse = SearchResponseFields +
  smart_deal :: "SmartDeal option"

type_synonym GlobalSearchResponse = SearchResponseFields

text \<open>The object \<open>{}\<close> as a filter set.\<close>

definition no_filters :: SearchFilters where
  "no_filters =
     \<lparr>min_price = None, max_price = None, in_stock = None, shops = None, categories = None,
      brands = None, min_rating = None, availability_filter = None, filter_country = None\<rparr>"

text \<open>
  \<open>Array.prototype.slice\<close> with integer bounds: a negative bound counts from the end, and
  both bounds are clamped to the array.
\<close>

definition js_slice :: "'a list \<Rightarrow> int \<Rightarrow> int \<Rightarrow> 'a list" where
  "js_slice xs startIndex endIndex =
     (let len = int (length xs);
          lo = (if startIndex < 0 then max (len + startIndex) 0 else min startIndex len);
          hi = (if endIndex < 0 then max (len + endIndex) 0 else min endIndex len)
      in take (nat (hi - lo)) (drop (nat lo) xs))"

section \<open>The mock data service (MockDataService)\<close>

text \<open>
  The service holds a \<open>Map\<close> from product id to product; \<open>getAllProducts\<close> lists its values
  in insertion order.  The functions below take that list as \<open>allProducts\<close>.  The time a
  search took (\<open>Date.now() - startTime\<close>) is the parameter \<open>elapsed\<close>.
\<close>

definition matchesQuery :: "string \<Rightarrow> Product \<Rightarrow> bool" where
  "matchesQuery queryLower p =
     (includes_str (toLowerCase (name p)) queryLower
      \<or> (case brand p of None \<Rightarrow> False | Some b \<Rightarrow> includes_str (toLowerCase b) queryLower)
      \<or> (case category p of None \<Rightarrow> False | Some c \<Rightarrow> includes_str (toLowerCase c) queryLower)
      \<or> (case description p of None \<Rightarrow> False
          | Some d \<Rightarrow> includes_str (toLowerCase d) queryLower))"

text \<open>An optional number used as a condition: present and truthy.\<close>

definition present :: "number option \<Rightarrow> bool" where
  "present a = (case a of None \<Rightarrow> False | Some v \<Rightarrow> truthy v)"

text \<open>\<open>xs?.length\<close> as a condition: present and not empty.\<close>

definition has_length :: "'a list option \<Rightarrow> bool" where
  "has_length xs = (case xs of None \<Rightarrow> False | Some l \<Rightarrow> l \<noteq> [])"

definition or_string :: "string option \<Rightarrow> string \<Rightarrow> string" where
  "or_string a b = (case a of None \<Rightarrow> b | Some s \<Rightarrow> if s \<noteq> [] then s else b)"

text \<open>
  The block \<open>Apply filters\<close>, which the local and the global search of the mock service share
  word for word: price, stock, brands, shops and rating.  It has no test for categories.
\<close>

definition passes_filters :: "SearchFilters option \<Rightarrow> Product \<Rightarrow> bool" where
  "passes_filters fs p =
     (case fs of
        None \<Rightarrow> True
      | Some f \<Rightarrow>
          if present (min_price f) \<and> js_lt (amount (base (pricing p))) (the (min_price f))
            then False
          else if present (max_price f) \<and> js_lt (the (max_price f)) (amount (base (pricing p)))
            then False
          else if in_stock f = Some True \<and> availability p \<noteq> IN_STOCK then False
          else if has_length (brands f) \<and> or_string (brand p) [] \<notin> set (the (brands f))
            then False
          else if has_length (shops f) \<and> shop_name (shop_info p) \<notin> set (the (shops f))
            then False
          else if present (min_rating f)
                  \<and> js_lt (or_number (rating p) (lit 0)) (the (min_rating f))
            then False
          else True)"

text \<open>The local variables of \<open>findSmartDeal\<close>.\<close>

definition globalAlternatives :: "Product list \<Rightarrow> Product \<Rightarrow> Product list" where
  "globalAlternatives allProducts bestLocal =
     filter (\<lambda>p. shop_type (shop_info p) = GLOBAL
                 \<and> product_group_id p = product_group_id bestLocal
                 \<and> availability p = IN_STOCK) allProducts"

text \<open>\<open>reduce\<close> without an initial value: the first element starts as the best one.\<close>

definition cheaper :: "Product \<Rightarrow> Product \<Rightarrow> Product" where
  "cheaper current best =
     (let currentCost = landed_or_base current;
          bestCost = landed_or_base best
      in if js_lt currentCost bestCost then current else best)"

definition cheapestGlobal :: "Product \<Rightarrow> Product list \<Rightarrow> Product" where
  "cheapestGlobal first others = fold cheaper others first"

definition localPrice :: "Product \<Rightarrow> number" where
  "localPrice bestLocal = or_number (local_total (pricing bestLocal)) (amount (base (pricing bestLocal)))"

definition standard_days :: "Product \<Rightarrow> number option" where
  "standard_days p =
     map_option (\<lambda>i. standard (estimated_days (shipping i))) (international (pricing p))"

text \<open>\<open>MockDataService.findSmartDeal\<close>; \<open>None\<close> is \<open>undefined\<close>.\<close>

definition findSmartDeal ::
  "NumberFormat \<Rightarrow> Product list \<Rightarrow> string \<Rightarrow> Product option \<Rightarrow> SmartDeal option" where
  "findSmartDeal fmt allProducts queryText bestLocal =
     (case bestLocal of
        None \<Rightarrow> None
      | Some bestLocal \<Rightarrow>
          (case globalAlternatives allProducts bestLocal of
             [] \<Rightarrow> None
           | first # others \<Rightarrow>
               let cheapest = cheapestGlobal first others;
                   globalPrice = landed_or_base cheapest;
                   savingsAmount = js_sub (localPrice bestLocal) globalPrice;
                   savingsPercent = js_mul (js_div savingsAmount (localPrice bestLocal)) (lit 100)
               in if js_lt savingsPercent (lit 10) then None
                  else Some
                    \<lparr>available = True,
                     message = Some (''Save '' @ toFixed0 fmt savingsPercent
                                     @ ''% by ordering from '' @ shop_name (shop_info cheapest)),
                     summary = Some
                       \<lparr>best_local = localPrice bestLocal,
                        best_international = globalPrice,
                        savings = savingsAmount,
                        savings_percent = savingsPercent,
                        delivery_difference =
                          js_sub (or_number (standard_days cheapest) (lit 14)) (lit 3),
                        deal_shop = shop_name (shop_info cheapest),
                        deal_country = shop_country (shop_info cheapest)\<rparr>,
                     deal_product = Some cheapest\<rparr>))"

text \<open>\<open>results[0]\<close>: the first element, or \<open>undefined\<close>.\<close>

definition first_of :: "'a list \<Rightarrow> 'a option" where
  "first_of xs = (case xs of [] \<Rightarrow> None | x # _ \<Rightarrow> Some x)"

definition recommendation_score :: "Product \<Rightarrow> number" where
  "recommendation_score p = or_number (map_option score (recommendation p)) (lit 0)"

text \<open>
  \<open>MockDataService.searchLocal\<close>.  The comparator of the sort is the difference of the
  scores, second minus first.
\<close>

definition MockDataService_searchLocal ::
  "NumberFormat \<Rightarrow> Product list \<Rightarrow> number \<Rightarrow> string \<Rightarrow> string \<Rightarrow> SearchFilters option
     \<Rightarrow> int \<Rightarrow> int \<Rightarrow> LocalSearchResponse" where
  "MockDataService_searchLocal fmt allProducts elapsed queryText countryCode fs pageNo perPage =
     (let queryLower = toLowerCase queryText;
          matching = filter (\<lambda>p.
             if shop_type (shop_info p) \<noteq> LOCAL then False
             else if shop_country (shop_info p) \<noteq> countryCode then False
             else if \<not> matchesQuery queryLower p then False
             else passes_filters fs p) allProducts;
          ordered = sort_with (\<lambda>a b. js_sub (recommendation_score b) (recommendation_score a))
                      matching;
          totalResults = length ordered;
          totalPages = Math_ceil (js_div (number_of_nat totalResults) (number_of_int perPage));
          startIndex = (pageNo - 1) * perPage;
          pageItems = js_slice ordered startIndex (startIndex + perPage);
          smartDeal = findSmartDeal fmt allProducts queryText (first_of pageItems)
      in \<lparr>results = pageItems,
          pagination =
            \<lparr>current_page = pageNo,
             total_pages = totalPages,
             pm_per_page = perPage,
             total_results = totalResults,
             has_next = js_lt (number_of_int pageNo) totalPages,
             has_prev = (pageNo > 1)\<rparr>,
          response_query = queryText,
          response_filters = (case fs of None \<Rightarrow> no_filters | Some f \<Rightarrow> f),
          took_ms = elapsed,
          smart_deal = smartDeal\<rparr>)"

text \<open>\<open>MockDataService.searchGlobal\<close>: the comparator is the difference of the costs.\<close>

definition MockDataService_searchGlobal ::
  "Product list \<Rightarrow> number \<Rightarrow> string \<Rightarrow> string \<Rightarrow> SearchFilters option
     \<Rightarrow> int \<Rightarrow> int \<Rightarrow> GlobalSearchResponse" where
  "MockDataService_searchGlobal allProducts elapsed queryText userCountry fs pageNo perPage =
     (let queryLower = toLowerCase queryText;
          matching = filter (\<lambda>p.
             if shop_type (shop_info p) \<noteq> GLOBAL then False
             else if userCountry \<notin> set (ships_to (shop_info p)) then False
             else if \<not> matchesQuery queryLower p then False
             else passes_filters fs p) allProducts;
          ordered = sort_with (\<lambda>a b.
                      let costA = landed_or_base a;
                          costB = landed_or_base b
                      in js_sub costA costB) matching;
          totalResults = length ordered;
          totalPages = Math_ceil (js_div (number_of_nat totalResults) (number_of_int perPage));
          startIndex = (pageNo - 1) * perPage;
          pageItems = js_slice ordered startIndex (startIndex + perPage)
      in \<lparr>results = pageItems,
          pagination =
            \<lparr>current_page = pageNo,
             total_pages = totalPages,
             pm_per_page = perPage,
             total_results = totalResults,
             has_next = js_lt (number_of_int pageNo) totalPages,
             has_prev = (pageNo > 1)\<rparr>,
          response_query = queryText,
          response_filters = (case fs of None \<Rightarrow> no_filters | Some f \<Rightarrow> f),
          took_ms = elapsed\<rparr>)"

section \<open>The search service (SearchService)\<close>

text \<open>
  The search index is an external provider: a function from the query and the search
  parameters to the hits and the estimated total, or to \<open>None\<close> when the call fails (a
  timeout, a lost connection).  \<open>search_filter\<close> and \<open>search_sort\<close> are the parameters \<open>filter\<close>
  and \<open>sort\<close>.
\<close>

record SearchParams =
  search_filter :: "string list"
  search_sort :: "string list"
  limit :: int
  offset :: int

record MeiliResult =
  hits :: "Product list"
  estimatedTotalHits :: "nat option"

type_synonym MeiliIndex = "string \<Rightarrow> SearchParams \<Rightarrow> MeiliResult option"

text \<open>
  The fields of the service that the searches read: the mock flag, the products of the mock
  data service (\<open>None\<close> is \<open>null\<close>) and the product index (\<open>None\<close> is \<open>null\<close>).
\<close>

record SearchService =
  useMockData :: bool
  mockDataService :: "Product list option"
  productIndex :: "MeiliIndex option"

text \<open>The constructor: a mock data service in mock mode, the index otherwise.\<close>

definition new_SearchService :: "bool \<Rightarrow> Product list \<Rightarrow> MeiliIndex \<Rightarrow> SearchService" where
  "new_SearchService mock seed index =
     (if mock then \<lparr>useMockData = True, mockDataService = Some seed, productIndex = None\<rparr>
      else \<lparr>useMockData = False, mockDataService = None, productIndex = Some index\<rparr>)"

record SearchResult =
  products :: "Product list"
  result_pagination :: PaginationMeta
  smartDeal :: "SmartDeal option"

definition quoted :: "string \<Rightarrow> string" where
  "quoted s = [CHR 0x22] @ s @ [CHR 0x22]"

definition any_of :: "string \<Rightarrow> string list \<Rightarrow> string" where
  "any_of field vs = ''('' @ join (map (\<lambda>v. field @ '' = '' @ quoted v) vs) '' OR '' @ '')''"

text \<open>\<open>SearchService.buildLocalFilters\<close>.\<close>

definition buildLocalFilters :: "NumberFormat \<Rightarrow> SearchFilters \<Rightarrow> Country \<Rightarrow> string list" where
  "buildLocalFilters fmt f c =
     [''shop_info.type = '' @ quoted (ShopType_value LOCAL)]
   @ [''shop_info.country = '' @ quoted (Country_value c)]
   @ (case min_price f of None \<Rightarrow> []
      | Some v \<Rightarrow> [''pricing.base.amount >= '' @ toString fmt v])
   @ (case max_price f of None \<Rightarrow> []
      | Some v \<Rightarrow> [''pricing.base.amount <= '' @ toString fmt v])
   @ (if in_stock f = Some True then [''availability = '' @ quoted ''in_stock''] else [])
   @ (case shops f of None \<Rightarrow> []
      | Some xs \<Rightarrow> if length xs > 0 then [any_of ''shop_info.name'' xs] else [])
   @ (case categories f of None \<Rightarrow> []
      | Some xs \<Rightarrow> if length xs > 0 then [any_of ''category'' xs] else [])
   @ (case brands f of None \<Rightarrow> []
      | Some xs \<Rightarrow> if length xs > 0 then [any_of ''brand'' xs] else [])
   @ (case min_rating f of None \<Rightarrow> [] | Some v \<Rightarrow> [''rating >= '' @ toString fmt v])"

text \<open>\<open>SearchService.buildGlobalFilters\<close>.\<close>

definition buildGlobalFilters ::
  "NumberFormat \<Rightarrow> SearchFilters \<Rightarrow> number option \<Rightarrow> string list" where
  "buildGlobalFilters fmt f minSellerRating =
     [''shop_info.type = '' @ quoted (ShopType_value GLOBAL)]
   @ (case min_price f of None \<Rightarrow> []
      | Some v \<Rightarrow> [''pricing.base.amount >= '' @ toString fmt v])
   @ (case max_price f of None \<Rightarrow> []
      | Some v \<Rightarrow> [''pricing.base.amount <= '' @ toString fmt v])
   @ (if in_stock f = Some True then [''availability = '' @ quoted ''in_stock''] else [])
   @ (case shops f of None \<Rightarrow> []
      | Some xs \<Rightarrow> if length xs > 0 then [any_of ''shop_info.name'' xs] else [])
   @ (case min_rating f of None \<Rightarrow> [] | Some v \<Rightarrow> [''rating >= '' @ toString fmt v])
   @ (case minSellerRating of None \<Rightarrow> [] | Some v \<Rightarrow> [''rating >= '' @ toString fmt v])"

text \<open>\<open>SearchService.buildSortOrder\<close>.\<close>

fun buildSortOrder :: "SortBy \<Rightarrow> string list" where
  "buildSortOrder PRICE_ASC = [''pricing.base.amount:asc'']"
| "buildSortOrder PRICE_DESC = [''pricing.base.amount:desc'']"
| "buildSortOrder RATING = [''rating:desc'']"
| "buildSortOrder NEWEST = [''created_at:desc'']"
| "buildSortOrder RELEVANCE = []"

text \<open>\<open>SearchService.buildPagination\<close>.\<close>

definition buildPagination :: "int \<Rightarrow> int \<Rightarrow> nat \<Rightarrow> PaginationMeta" where
  "buildPagination pageNo perPage totalResults =
     (let totalPages = Math_ceil (js_div (number_of_nat totalResults) (number_of_int perPage))
      in \<lparr>current_page = pageNo,
          total_pages = totalPages,
          pm_per_page = perPage,
          total_results = totalResults,
          has_next = js_lt (number_of_int pageNo) totalPages,
          has_prev = (pageNo > 1)\<rparr>)"

text \<open>\<open>SearchService.checkSmartDeals\<close>: not implemented, it reports that there is no deal.\<close>

definition checkSmartDeals :: "string \<Rightarrow> Product \<Rightarrow> Country \<Rightarrow> SmartDeal option" where
  "checkSmartDeals queryText localProduct userCountry =
     Some \<lparr>available = False, message = None, summary = None, deal_product = None\<rparr>"

text \<open>\<open>SearchService.fallbackSearchLocal\<close> and \<open>fallbackSearchGlobal\<close>.\<close>

definition fallbackSearchLocal :: "LocalSearchRequest \<Rightarrow> SearchResult" where
  "fallbackSearchLocal request =
     \<lparr>products = [],
      result_pagination = buildPagination (or_int (page request) 1) (or_int (per_page request) 20) 0,
      smartDeal = None\<rparr>"

definition fallbackSearchGlobal :: "GlobalSearchRequest \<Rightarrow> SearchResult" where
  "fallbackSearchGlobal request =
     \<lparr>products = [],
      result_pagination = buildPagination (or_int (page request) 1) (or_int (per_page request) 20) 0,
      smartDeal = None\<rparr>"

text \<open>A destructuring default: the default replaces \<open>undefined\<close> only.\<close>

definition default_to :: "'a \<Rightarrow> 'a option \<Rightarrow> 'a" where
  "default_to d a = (case a of None \<Rightarrow> d | Some v \<Rightarrow> v)"

text \<open>
  \<open>SearchService.searchLocal\<close>.  \<open>elapsed\<close> is the time the mock data service measures for
  its own search.  In the \<open>try\<close> block a missing index and a failing query both throw, and
  the \<open>catch\<close> block answers with the fallback search.
\<close>

definition searchLocal ::
  "NumberFormat \<Rightarrow> SearchService \<Rightarrow> number \<Rightarrow> LocalSearchRequest \<Rightarrow> SearchResult" where
  "searchLocal fmt service elapsed request =
     (let fs = default_to no_filters (filters request);
          sortBy = default_to RELEVANCE (sort_by request);
          pageNo = default_to 1 (page request);
          perPage = default_to 20 (per_page request);
          checkInternational = default_to False (check_international request)
      in case (useMockData service, mockDataService service) of
           (True, Some allProducts) \<Rightarrow>
             (let mockResult = MockDataService_searchLocal fmt allProducts elapsed
                    (query request) (Country_value (country request)) (Some fs) pageNo perPage
              in \<lparr>products = results mockResult,
                  result_pagination = pagination mockResult,
                  smartDeal = smart_deal mockResult\<rparr>)
         | _ \<Rightarrow>
             (let meilisearchFilters = buildLocalFilters fmt fs (country request)
              in case productIndex service of
                   None \<Rightarrow> fallbackSearchLocal request
                 | Some index \<Rightarrow>
                     (case index (query request)
                             \<lparr>search_filter = meilisearchFilters,
                              search_sort = buildSortOrder sortBy,
                              limit = perPage,
                              offset = (pageNo - 1) * perPage\<rparr> of
                        None \<Rightarrow> fallbackSearchLocal request
                      | Some searchResult \<Rightarrow>
                          \<lparr>products = hits searchResult,
                           result_pagination = buildPagination pageNo perPage
                             (case estimatedTotalHits searchResult of
                                None \<Rightarrow> 0 | Some n \<Rightarrow> n),
                           smartDeal =
                             (case first_of (hits searchResult) of
                                None \<Rightarrow> None
                              | Some firstProduct \<Rightarrow>
                                  if checkInternational
                                  then checkSmartDeals (query request) firstProduct
                                         (country request)
                                  else None)\<rparr>)))"

text \<open>\<open>SearchService.searchGlobal\<close>.\<close>

definition searchGlobal ::
  "NumberFormat \<Rightarrow> SearchService \<Rightarrow> number \<Rightarrow> GlobalSearchRequest \<Rightarrow> SearchResult" where
  "searchGlobal fmt service elapsed request =
     (let fs = default_to no_filters (filters request);
          sortBy = default_to PRICE_ASC (sort_by request);
          pageNo = default_to 1 (page request);
          perPage = default_to 20 (per_page request)
      in case (useMockData service, mockDataService service) of
           (True, Some allProducts) \<Rightarrow>
             (let mockResult = MockDataService_searchGlobal allProducts elapsed
                    (query request) (Country_value (user_country request)) (Some fs) pageNo perPage
              in \<lparr>products = results mockResult,
                  result_pagination = pagination mockResult,
                  smartDeal = None\<rparr>)
         | _ \<Rightarrow>
             (let meilisearchFilters = buildGlobalFilters fmt fs (min_seller_rating request)
              in case productIndex service of
                   None \<Rightarrow> fallbackSearchGlobal request
                 | Some index \<Rightarrow>
                     (case index (query request)
                             \<lparr>search_filter = meilisearchFilters,
                              search_sort = buildSortOrder sortBy,
                              limit = perPage,
                              offset = (pageNo - 1) * perPage\<rparr> of
                        None \<Rightarrow> fallbackSearchGlobal request
                      | Some searchResult \<Rightarrow>
                          (let costed =
                                 (if include_shipping request \<or> include_all_fees request
                                  then map (\<lambda>p. calculateTotalCost p (user_country request)
                                                   (include_all_fees request)) (hits searchResult)
                                  else hits searchResult);
                               ranked =
                                 (if sortBy = PRICE_ASC \<or> sortBy = PRICE_DESC
                                  then sortByTotalCost costed (sortBy = PRICE_DESC)
                                  else costed)
                           in \<lparr>products = ranked,
                               result_pagination = buildPagination pageNo perPage
                                 (case estimatedTotalHits searchResult of
                                    None \<Rightarrow> 0 | Some n \<Rightarrow> n),
                               smartDeal = None\<rparr>))))"

section \<open>The cache service and the local search route\<close>

text \<open>
  The Redis store: the value and the expiry stored under each key, and whether the
  connection works.  A stored value is the response that was written (\<open>JSON.stringify\<close>
  followed by \<open>JSON.parse\<close>).  With a broken connection \<open>get\<close> and \<open>set\<close> catch the error:
  \<open>get\<close> answers \<open>null\<close> and \<open>set\<close> stores nothing.
\<close>

record Redis =
  store :: "string \<Rightarrow> (LocalSearchResponse \<times> number) option"
  ready :: bool

definition CacheService_get :: "Redis \<Rightarrow> string \<Rightarrow> LocalSearchResponse option" where
  "CacheService_get redis key =
     (if ready redis then map_option fst (store redis key) else None)"

definition CacheService_set ::
  "Redis \<Rightarrow> number \<Rightarrow> string \<Rightarrow> LocalSearchResponse \<Rightarrow> number option \<Rightarrow> Redis" where
  "CacheService_set redis defaultTTL key v ttlSeconds =
     (if ready redis
      then redis\<lparr>store := (store redis)(key \<mapsto> (v, or_number ttlSeconds defaultTTL))\<rparr>
      else redis)"

text \<open>The calls of the handler on the cache service, in order.\<close>

datatype CacheCall = CacheGet string | CacheSet string LocalSearchResponse number

fun is_set :: "CacheCall \<Rightarrow> bool" where
  "is_set (CacheSet key v ttl) = True"
| "is_set (CacheGet key) = False"

text \<open>
  \<open>localSearchSchema.parse\<close>: the constraints of the schema that the types do not already
  express, and its defaults.  \<open>None\<close> is a \<open>ZodError\<close>.
\<close>

definition valid_filters :: "SearchFilters \<Rightarrow> bool" where
  "valid_filters f =
     ((case min_price f of None \<Rightarrow> True | Some v \<Rightarrow> js_lt (lit 0) v)
      \<and> (case max_price f of None \<Rightarrow> True | Some v \<Rightarrow> js_lt (lit 0) v)
      \<and> (case min_rating f of None \<Rightarrow> True
          | Some v \<Rightarrow> js_le (lit 0) v \<and> js_le v (lit 5)))"

definition localSearchSchema_parse :: "LocalSearchRequest \<Rightarrow> LocalSearchRequest option" where
  "localSearchSchema_parse body =
     (if 1 \<le> length (query body) \<and> length (query body) \<le> 200
         \<and> (case filters body of None \<Rightarrow> True | Some f \<Rightarrow> valid_filters f)
         \<and> (case page body of None \<Rightarrow> True | Some n \<Rightarrow> 0 < n)
         \<and> (case per_page body of None \<Rightarrow> True | Some n \<Rightarrow> 0 < n \<and> n \<le> 100)
      then Some (body
        \<lparr>sort_by := Some (default_to RELEVANCE (sort_by body)),
         page := Some (default_to 1 (page body)),
         per_page := Some (default_to 20 (per_page body)),
         check_international := Some (default_to False (check_international body))\<rparr>)
      else None)"

datatype Reply = Sent LocalSearchResponse | BadRequest

record Outcome =
  reply :: Reply
  redis_after :: Redis
  cache_calls :: "CacheCall list"

text \<open>
  The handler of \<open>POST /local\<close>.  \<open>cacheTTL\<close> is \<open>fastify.config.cacheTTL.search\<close>, which is
  also the default expiry of the cache service; \<open>elapsed\<close> is \<open>Date.now() - startTime\<close>, and
  \<open>mockElapsed\<close> the time measured inside the mock data service.  The filter arrays of the
  request are those of the validated body, sorted in place when the key is built.
\<close>

definition localSearchHandler ::
  "NumberFormat \<Rightarrow> SearchService \<Rightarrow> number \<Rightarrow> number \<Rightarrow> number \<Rightarrow> Redis
     \<Rightarrow> LocalSearchRequest \<Rightarrow> Outcome" where
  "localSearchHandler fmt searchService cacheTTL elapsed mockElapsed redis body =
     (case localSearchSchema_parse body of
        None \<Rightarrow> \<lparr>reply = BadRequest, redis_after = redis, cache_calls = []\<rparr>
      | Some validatedBody \<Rightarrow>
          let cacheKey = buildSearchCacheKey fmt KindLocal (OfLocal validatedBody);
              searchRequest =
                validatedBody\<lparr>filters := map_option filters_after_key (filters validatedBody)\<rparr>
          in case CacheService_get redis cacheKey of
               Some cachedResult \<Rightarrow>
                 \<lparr>reply = Sent (cachedResult\<lparr>took_ms := elapsed\<rparr>),
                  redis_after = redis,
                  cache_calls = [CacheGet cacheKey]\<rparr>
             | None \<Rightarrow>
                 let searchResult = searchLocal fmt searchService mockElapsed searchRequest;
                     response =
                       \<lparr>results = products searchResult,
                        pagination = result_pagination searchResult,
                        response_query = query validatedBody,
                        response_filters = default_to no_filters (filters searchRequest),
                        took_ms = elapsed,
                        smart_deal = smartDeal searchResult\<rparr>
                 in \<lparr>reply = Sent response,
                     redis_after = CacheService_set redis cacheTTL cacheKey response (Some cacheTTL),
                     cache_calls = [CacheGet cacheKey, CacheSet cacheKey response cacheTTL]\<rparr>)"

text \<open>The primary query of a local search fails: the service is not in mock mode, and the
  index is missing or its search call fails for the request.\<close>

definition primary_fails :: "NumberFormat \<Rightarrow> SearchService \<Rightarrow> LocalSearchRequest \<Rightarrow> bool" where
  "primary_fails fmt service request =
     ((useMockData service \<longrightarrow> mockDataService service = None)
      \<and> (case productIndex service of
            None \<Rightarrow> True
          | Some index \<Rightarrow>
              index (query request)
                \<lparr>search_filter = buildLocalFilters fmt (default_to no_filters (filters request))
                                   (country request),
                 search_sort = buildSortOrder (default_to RELEVANCE (sort_by request)),
                 limit = default_to 20 (per_page request),
                 offset = (default_to 1 (page request) - 1) * default_to 20 (per_page request)\<rparr>
              = None))"

text \<open>Services, stores and requests used as concrete inputs.\<close>

definition failing_index :: MeiliIndex where
  "failing_index queryText params = None"

definition empty_redis :: Redis where
  "empty_redis = \<lparr>store = (\<lambda>key. None), ready = True\<rparr>"

definition local_request :: "string \<Rightarrow> SearchFilters option \<Rightarrow> bool option \<Rightarrow> LocalSearchRequest" where
  "local_request queryText fs flag =
     \<lparr>query = queryText, filters = fs, sort_by = None, page = None, per_page = None,
      country = IL, check_international = flag\<rparr>"

definition global_request :: "string \<Rightarrow> SearchFilters option \<Rightarrow> GlobalSearchRequest" where
  "global_request queryText fs =
     \<lparr>query = queryText, filters = fs, sort_by = None, page = None, per_page = None,
      user_country = IL, include_shipping = True, include_all_fees = True,
      min_seller_rating = None\<rparr>"

definition list_filters ::
  "string list option \<Rightarrow> string list option \<Rightarrow> string list option \<Rightarrow> SearchFilters" where
  "list_filters ss cs bs = no_filters\<lparr>shops := ss, categories := cs, brands := bs\<rparr>"

text \<open>
  Smart-deal detection as the specification words it.  The alternatives of a local listing
  are the in-stock listings of global shops in its product group; the landed total of an
  alternative is its total landed cost where it carries a breakdown and its base amount
  otherwise; the local price is the local total where the listing has one and its base amount
  otherwise; the savings percent against a landed total is the local price minus that total,
  divided by the local price, times 100, in the arithmetic of the program.
\<close>

definition in_stock_alternative :: "Product \<Rightarrow> Product \<Rightarrow> bool" where
  "in_stock_alternative bestLocal g =
     (shop_type (shop_info g) = GLOBAL \<and> availability g = IN_STOCK
      \<and> product_group_id g = product_group_id bestLocal)"

definition landed_total_or_base :: "Product \<Rightarrow> number" where
  "landed_total_or_base g =
     (case international (pricing g) of
        None \<Rightarrow> amount (base (pricing g))
      | Some i \<Rightarrow> total_landed_cost i)"

definition local_total_or_base :: "Product \<Rightarrow> number" where
  "local_total_or_base l =
     (case local_total (pricing l) of None \<Rightarrow> amount (base (pricing l)) | Some t \<Rightarrow> t)"

definition savings_percent_against :: "number \<Rightarrow> number \<Rightarrow> number" where
  "savings_percent_against localAmount landed =
     js_mul (js_div (js_sub localAmount landed) localAmount) (lit 100)"

text \<open>
  A listing is the cheapest alternative of a local listing in a store: it is an alternative
  held by the store, and no alternative held by the store has a smaller landed total.
\<close>

definition cheapest_alternative :: "Product list \<Rightarrow> Product \<Rightarrow> Product \<Rightarrow> bool" where
  "cheapest_alternative allProducts bestLocal g =
     (g \<in> set allProducts \<and> in_stock_alternative bestLocal g
      \<and> (\<forall>h \<in> set allProducts. in_stock_alternative bestLocal h \<longrightarrow>
             js_le (landed_total_or_base g) (landed_total_or_base h)))"

text \<open>
  The prices of a store are usable for a local listing: its local total, where it has one, and
  the landed totals of its alternatives are truthy numbers (neither zero nor NaN).
\<close>

definition usable_prices :: "Product list \<Rightarrow> Product \<Rightarrow> bool" where
  "usable_prices allProducts bestLocal =
     ((case local_total (pricing bestLocal) of None \<Rightarrow> True | Some t \<Rightarrow> truthy t)
      \<and> (\<forall>h \<in> set allProducts. in_stock_alternative bestLocal h \<longrightarrow>
             truthy (landed_total_or_base h)))"

text \<open>A global listing of the group that ships to the United States only.\<close>

definition us_only_listing :: "string \<Rightarrow> string \<Rightarrow> number \<Rightarrow> Product" where
  "us_only_listing ident grp price =
     (plain_listing ident grp GLOBAL price)
       \<lparr>shop_info := (shop_info (plain_listing ident grp GLOBAL price))\<lparr>ships_to := [''US'']\<rparr>\<rparr>"


section \<open>Properties of the rounding to doubles\<close>

lemma pow2_powr: "pow2 e = 2 powr (real_of_int e)"
proof (cases "0 \<le> e")
  case True
  then have "2 powr real_of_int e = 2 powr real (nat e)" by simp
  also have "\<dots> = 2 ^ nat e" by (simp add: powr_realpow)
  finally show ?thesis using True by (simp add: pow2_def)
next
  case False
  then have "2 powr real_of_int e = 2 powr (- real (nat (- e)))" by simp
  also have "\<dots> = 1 / 2 powr real (nat (- e))" by (simp only: powr_minus_divide)
  also have "\<dots> = 1 / 2 ^ nat (- e)" by (simp add: powr_realpow)
  finally show ?thesis using False by (simp add: pow2_def)
qed

lemma pow2_pos [simp]: "0 < pow2 e"
  by (simp add: pow2_powr)

lemma pow2_nonneg [simp]: "0 \<le> pow2 e"
  using pow2_pos [of e] by linarith

lemma pow2_neq_zero [simp]: "pow2 e \<noteq> 0"
  using pow2_pos [of e] by linarith

lemma pow2_add: "pow2 (a + b) = pow2 a * pow2 b"
  by (simp add: pow2_powr powr_add)

lemma pow2_mono: "a \<le> b \<Longrightarrow> pow2 a \<le> pow2 b"
  by (simp add: pow2_powr)

lemma pow2_strict_mono: "a < b \<Longrightarrow> pow2 a < pow2 b"
  by (simp add: pow2_powr)

lemma pow2_le_iff: "pow2 a \<le> pow2 b \<longleftrightarrow> a \<le> b"
  by (simp add: pow2_powr)

lemma pow2_less_iff: "pow2 a < pow2 b \<longleftrightarrow> a < b"
  by (simp add: pow2_powr)

lemma pow2_nat: "0 \<le> e \<Longrightarrow> pow2 e = of_int (2 ^ nat e)"
  by (simp add: pow2_def)

lemma expo_bounds:
  assumes "x \<noteq> 0"
  shows "pow2 (expo x) \<le> \<bar>x\<bar>" and "\<bar>x\<bar> < pow2 (expo x + 1)"
proof -
  show "pow2 (expo x) \<le> \<bar>x\<bar>"
  proof (cases "1 \<le> \<bar>x\<bar>")
    case True
    define n where "n = \<lfloor>\<bar>x\<bar>\<rfloor>"
    have n: "0 < n" using True by (simp add: n_def)
    from bitlen_bounds [OF n] have "2 ^ nat (bitlen n - 1) \<le> n" by simp
    then have "real_of_int (2 ^ nat (bitlen n - 1)) \<le> real_of_int n"
      by (simp only: of_int_le_iff)
    also have "\<dots> \<le> \<bar>x\<bar>" by (simp add: n_def)
    finally have "2 ^ nat (bitlen n - 1) \<le> \<bar>x\<bar>" by simp
    moreover have "0 \<le> bitlen n - 1" using n by (simp add: bitlen_alt_def)
    ultimately show ?thesis using True by (simp add: expo_def n_def pow2_def)
  next
    case False
    define y where "y = 1 / \<bar>x\<bar>"
    define N where "N = \<lceil>y\<rceil>"
    have y: "1 < y" using False assms by (simp add: y_def)
    then have N: "0 < N - 1" by (simp add: N_def)
    from bitlen_bounds [OF N] have "N - 1 < 2 ^ nat (bitlen (N - 1))" by simp
    then have "N \<le> 2 ^ nat (bitlen (N - 1))" by simp
    then have "real_of_int N \<le> real_of_int (2 ^ nat (bitlen (N - 1)))"
      by (simp only: of_int_le_iff)
    moreover have "y \<le> real_of_int N" by (simp add: N_def)
    ultimately have "y \<le> real_of_int (2 ^ nat (bitlen (N - 1)))" by linarith
    then have "y \<le> 2 ^ nat (bitlen (N - 1))" by simp
    then have "1 / 2 ^ nat (bitlen (N - 1)) \<le> \<bar>x\<bar>"
      using assms by (simp add: y_def field_simps)
    moreover have "0 < bitlen (N - 1)" using N by (simp add: bitlen_alt_def)
    ultimately show ?thesis using False
      by (simp add: expo_def N_def y_def pow2_def)
  qed
  show "\<bar>x\<bar> < pow2 (expo x + 1)"
  proof (cases "1 \<le> \<bar>x\<bar>")
    case True
    define n where "n = \<lfloor>\<bar>x\<bar>\<rfloor>"
    have n: "0 < n" using True by (simp add: n_def)
    from bitlen_bounds [OF n] have "n < 2 ^ nat (bitlen n)" by simp
    then have "n + 1 \<le> 2 ^ nat (bitlen n)" by simp
    then have "real_of_int (n + 1) \<le> real_of_int (2 ^ nat (bitlen n))"
      by (simp only: of_int_le_iff)
    moreover have "\<bar>x\<bar> < real_of_int (n + 1)" by (simp add: n_def)
    ultimately have "\<bar>x\<bar> < real_of_int (2 ^ nat (bitlen n))" by linarith
    then have "\<bar>x\<bar> < 2 ^ nat (bitlen n)" by simp
    moreover have "0 \<le> bitlen n" by (rule bitlen_nonneg)
    ultimately show ?thesis using True by (simp add: expo_def n_def pow2_def)
  next
    case False
    define y where "y = 1 / \<bar>x\<bar>"
    define N where "N = \<lceil>y\<rceil>"
    define k where "k = bitlen (N - 1)"
    have y: "1 < y" using False assms by (simp add: y_def)
    then have N: "0 < N - 1" by (simp add: N_def)
    have k: "0 < k" using N by (simp add: k_def bitlen_alt_def)
    from bitlen_bounds [OF N] have "2 ^ nat (k - 1) \<le> N - 1" by (simp add: k_def)
    then have "real_of_int (2 ^ nat (k - 1)) \<le> real_of_int (N - 1)"
      by (simp only: of_int_le_iff)
    moreover have "real_of_int (N - 1) < y" by (simp add: N_def) linarith
    ultimately have "real_of_int (2 ^ nat (k - 1)) < y" by linarith
    then have lt: "2 ^ nat (k - 1) < y" by simp
    have "\<bar>x\<bar> < 1 / 2 ^ nat (k - 1)"
    proof -
      have "0 < \<bar>x\<bar>" using assms by simp
      with lt show ?thesis by (simp add: y_def field_simps)
    qed
    moreover have "pow2 (- k + 1) = 1 / 2 ^ nat (k - 1)"
      using k by (cases "k = 1") (simp_all add: pow2_def)
    ultimately show ?thesis using False
      by (simp add: expo_def N_def [symmetric] y_def [symmetric] k_def [symmetric])
  qed
qed

lemma expo_unique:
  assumes "pow2 e \<le> \<bar>x\<bar>" and "\<bar>x\<bar> < pow2 (e + 1)"
  shows "expo x = e"
proof -
  have "0 < \<bar>x\<bar>" using assms(1) pow2_pos [of e] by linarith
  then have nz: "x \<noteq> 0" by simp
  note b = expo_bounds [OF nz]
  have "pow2 e < pow2 (expo x + 1)" using assms(1) b(2) by linarith
  then have "e < expo x + 1" by (simp add: pow2_less_iff)
  moreover have "pow2 (expo x) < pow2 (e + 1)" using assms(2) b(1) by linarith
  then have "expo x < e + 1" by (simp add: pow2_less_iff)
  ultimately show ?thesis by simp
qed


lemma round_half_even_near: "\<bar>real_of_int (round_half_even v) - v\<bar> \<le> 1 / 2"
proof -
  have "real_of_int \<lfloor>v\<rfloor> \<le> v" "v < real_of_int \<lfloor>v\<rfloor> + 1" by linarith+
  then show ?thesis by (auto simp: round_half_even_def Let_def)
qed

lemma round_half_even_of_int [simp]: "round_half_even (real_of_int n) = n"
  by (simp add: round_half_even_def)

lemma round_half_even_mono:
  assumes "v \<le> w"
  shows "round_half_even v \<le> round_half_even w"
proof (rule ccontr)
  assume "\<not> round_half_even v \<le> round_half_even w"
  then have "round_half_even w + 1 \<le> round_half_even v" by simp
  then have less: "real_of_int (round_half_even w) + 1 \<le> real_of_int (round_half_even v)"
    by linarith
  from round_half_even_near [of v] round_half_even_near [of w] less assms
  have "v = w" by linarith
  with less show False by simp
qed

lemma quantum_pos [simp]: "0 < quantum x"
  by (simp add: quantum_def)

lemma quantum_nonneg [simp]: "0 \<le> quantum x"
  using quantum_pos [of x] by linarith

lemma quantum_neq_zero [simp]: "quantum x \<noteq> 0"
  using quantum_pos [of x] by linarith

lemma rd_zero [simp]: "rd 0 = 0"
  by (simp add: rd_def)

lemma rd_quantum_error: "\<bar>rd x - x\<bar> \<le> quantum x / 2"
proof (cases "x = 0")
  case True
  then show ?thesis using quantum_pos [of 0] by simp
next
  case False
  define q where "q = quantum x"
  have q: "0 < q" by (simp add: q_def)
  have "rd x - x = (real_of_int (round_half_even (x / q)) - x / q) * q"
    using False q by (simp add: rd_def q_def field_simps)
  then have "\<bar>rd x - x\<bar> = \<bar>real_of_int (round_half_even (x / q)) - x / q\<bar> * q"
    using q by (simp add: abs_mult)
  also have "\<dots> \<le> 1 / 2 * q"
    using round_half_even_near [of "x / q"] q by (intro mult_right_mono) simp_all
  finally show ?thesis by (simp add: q_def)
qed

lemma quantum_normal:
  assumes "pow2 (- 1022) \<le> \<bar>x\<bar>"
  shows "quantum x \<le> \<bar>x\<bar> * pow2 (- 52)"
proof -
  have "0 < \<bar>x\<bar>" using assms pow2_pos [of "- 1022"] by linarith
  then have nz: "x \<noteq> 0" by simp
  have "pow2 (- 1022) < pow2 (expo x + 1)" using assms expo_bounds(2) [OF nz] by linarith
  then have "- 1022 \<le> expo x" by (simp add: pow2_less_iff)
  then have "quantum x = pow2 (expo x + (- 52))" by (simp add: quantum_def max_def)
  also have "\<dots> = pow2 (expo x) * pow2 (- 52)" by (rule pow2_add)
  also have "\<dots> \<le> \<bar>x\<bar> * pow2 (- 52)"
    using expo_bounds(1) [OF nz] by (intro mult_right_mono) simp_all
  finally show ?thesis .
qed

lemma pow2_half: "pow2 (e - 1) = pow2 e / 2"
proof -
  have "pow2 e = pow2 (e - 1) * pow2 1"
    using pow2_add [of "e - 1" 1] by (simp add: algebra_simps)
  then show ?thesis by (simp add: pow2_def)
qed

lemma rd_relative_error:
  assumes "pow2 (- 1022) \<le> \<bar>x\<bar>"
  shows "\<bar>rd x - x\<bar> \<le> \<bar>x\<bar> * pow2 (- 53)"
proof -
  have "\<bar>rd x - x\<bar> \<le> quantum x / 2" by (rule rd_quantum_error)
  also have "\<dots> \<le> \<bar>x\<bar> * pow2 (- 52) / 2"
    using quantum_normal [OF assms] by simp
  also have "\<dots> = \<bar>x\<bar> * pow2 (- 53)"
    using pow2_half [of "- 52"] by simp
  finally show ?thesis .
qed

lemma rd_error: "\<bar>rd x - x\<bar> \<le> \<bar>x\<bar> * pow2 (- 53) + pow2 (- 1075)"
proof (cases "pow2 (- 1022) \<le> \<bar>x\<bar>")
  case True
  from rd_relative_error [OF this] pow2_pos [of "- 1075"] show ?thesis by linarith
next
  case False
  have "expo x < - 1022 \<or> x = 0"
  proof (cases "x = 0")
    case nz: False
    from expo_bounds(1) [OF nz] False have "pow2 (expo x) < pow2 (- 1022)" by linarith
    then show ?thesis by (simp add: pow2_less_iff)
  qed simp
  then have "quantum x = pow2 (- 1074) \<or> x = 0" by (auto simp: quantum_def max_def)
  then have "\<bar>rd x - x\<bar> \<le> pow2 (- 1074) / 2"
    using rd_quantum_error [of x] by auto
  also have "\<dots> = pow2 (- 1075)" using pow2_half [of "- 1074"] by simp
  finally have "\<bar>rd x - x\<bar> \<le> pow2 (- 1075)" .
  moreover have "0 \<le> \<bar>x\<bar> * pow2 (- 53)" by simp
  ultimately show ?thesis by linarith
qed

lemma rd_nonneg: "0 \<le> x \<Longrightarrow> 0 \<le> rd x"
proof (cases "x = 0")
  case False
  assume "0 \<le> x"
  then have "0 \<le> x / quantum x" by (simp add: divide_nonneg_pos)
  from round_half_even_mono [OF this] have "0 \<le> round_half_even (x / quantum x)"
    by (simp add: round_half_even_def)
  then show ?thesis using False by (simp add: rd_def)
qed simp

lemma rd_minus: "rd (- x) = - rd x"
proof -
  have q: "quantum (- x) = quantum x" by (simp add: quantum_def expo_def)
  have "round_half_even (- v) = - round_half_even v" for v
  proof -
    have "real_of_int \<lfloor>v\<rfloor> \<le> v" "v < real_of_int \<lfloor>v\<rfloor> + 1" by linarith+
    show ?thesis
    proof (cases "v = real_of_int \<lfloor>v\<rfloor>")
      case True
      then have "round_half_even (- real_of_int \<lfloor>v\<rfloor>) = - round_half_even (real_of_int \<lfloor>v\<rfloor>)"
        by (metis of_int_minus round_half_even_of_int)
      with True show ?thesis by simp
    next
      case False
      with \<open>real_of_int \<lfloor>v\<rfloor> \<le> v\<close> \<open>v < real_of_int \<lfloor>v\<rfloor> + 1\<close>
      have "real_of_int (- \<lfloor>v\<rfloor> - 1) \<le> - v" "- v < real_of_int (- \<lfloor>v\<rfloor> - 1) + 1"
        by (simp, linarith)+
      then have fl: "\<lfloor>- v\<rfloor> = - \<lfloor>v\<rfloor> - 1" by (rule floor_unique)
      show ?thesis
        using False
        by (auto simp: round_half_even_def Let_def fl)
    qed
  qed
  then show ?thesis by (simp add: rd_def q)
qed

lemma rd_double: "is_double f \<Longrightarrow> rd f = f"
proof -
  assume "is_double f"
  then have "real_of_int \<lfloor>f / quantum f\<rfloor> = f / quantum f" by (simp add: is_double_def)
  then have "real_of_int (round_half_even (f / quantum f)) = f / quantum f"
    by (metis round_half_even_of_int)
  then show ?thesis by (simp add: rd_def)
qed

lemma expo_mono:
  assumes "0 < x" "x \<le> y"
  shows "expo x \<le> expo y"
proof -
  have "pow2 (expo x) \<le> \<bar>x\<bar>" using assms by (intro expo_bounds) simp
  moreover have "\<bar>y\<bar> < pow2 (expo y + 1)" using assms by (intro expo_bounds) simp
  ultimately have "pow2 (expo x) < pow2 (expo y + 1)" using assms by linarith
  then show ?thesis by (simp add: pow2_less_iff)
qed

lemma rd_ge_multiple:
  assumes "0 < x" "real_of_int n * quantum x \<le> x"
  shows "real_of_int n * quantum x \<le> rd x"
proof -
  have "real_of_int n \<le> x / quantum x" using assms(2) by (simp add: pos_le_divide_eq)
  from round_half_even_mono [OF this] have "n \<le> round_half_even (x / quantum x)" by simp
  then have "real_of_int n \<le> real_of_int (round_half_even (x / quantum x))"
    by (simp only: of_int_le_iff)
  then have "real_of_int n * quantum x
             \<le> real_of_int (round_half_even (x / quantum x)) * quantum x"
    by (intro mult_right_mono) simp_all
  then show ?thesis using assms(1) by (simp add: rd_def)
qed

lemma rd_le_multiple:
  assumes "0 < x" "x \<le> real_of_int n * quantum x"
  shows "rd x \<le> real_of_int n * quantum x"
proof -
  have "x / quantum x \<le> real_of_int n" using assms(2) by (simp add: pos_divide_le_eq)
  from round_half_even_mono [OF this] have "round_half_even (x / quantum x) \<le> n" by simp
  then have "real_of_int (round_half_even (x / quantum x)) \<le> real_of_int n"
    by (simp only: of_int_le_iff)
  then have "real_of_int (round_half_even (x / quantum x)) * quantum x
             \<le> real_of_int n * quantum x"
    by (intro mult_right_mono) simp_all
  then show ?thesis using assms(1) by (simp add: rd_def)
qed

lemma pow2_shift:
  assumes "e' = e + k" "0 \<le> k"
  shows "pow2 e' = real_of_int (2 ^ nat k) * pow2 e"
  using pow2_add [of e k] assms by (simp add: pow2_def)

lemma rd_mono_nonneg:
  assumes "0 \<le> x" "x \<le> y"
  shows "rd x \<le> rd y"
proof (cases "x = 0")
  case True
  then show ?thesis using rd_nonneg [of y] assms by simp
next
  case False
  with assms have x: "0 < x" and y: "0 < y" by simp_all
  define ex where "ex = max (expo x) (- 1022)"
  define ey where "ey = max (expo y) (- 1022)"
  have qx: "quantum x = pow2 (ex - 52)" and qy: "quantum y = pow2 (ey - 52)"
    by (simp_all add: quantum_def ex_def ey_def)
  have le: "ex \<le> ey" using expo_mono [OF x assms(2)] by (simp add: ex_def ey_def)
  show ?thesis
  proof (cases "ex = ey")
    case True
    then have q: "quantum x = quantum y" by (simp add: qx qy)
    have "x / quantum y \<le> y / quantum y" using assms(2) by (simp add: divide_right_mono)
    from round_half_even_mono [OF this]
    have "real_of_int (round_half_even (x / quantum y)) * quantum y
          \<le> real_of_int (round_half_even (y / quantum y)) * quantum y"
      by (intro mult_right_mono) simp_all
    then show ?thesis using x y by (simp add: rd_def q)
  next
    case False
    with le have lt: "ex + 1 \<le> ey" by simp
    have "expo y = ey" using lt by (simp add: ey_def ex_def max_def split: if_splits)
    then have low: "pow2 ey \<le> y" using expo_bounds(1) [of y] y by simp
    have "x < pow2 (expo x + 1)" using expo_bounds(2) [of x] x by simp
    also have "\<dots> \<le> pow2 (ex + 1)" by (rule pow2_mono) (simp add: ex_def)
    finally have up: "x \<le> pow2 (ex + 1)" by simp
    have px: "pow2 (ex + 1) = real_of_int (2 ^ nat 53) * quantum x"
      unfolding qx by (rule pow2_shift) simp_all
    have py: "pow2 ey = real_of_int (2 ^ nat 52) * quantum y"
      unfolding qy by (rule pow2_shift) simp_all
    have rx: "rd x \<le> pow2 (ex + 1)"
      unfolding px by (rule rd_le_multiple [OF x]) (use up px in simp)
    have ry: "pow2 ey \<le> rd y"
      unfolding py by (rule rd_ge_multiple [OF y]) (use low py in simp)
    have "pow2 (ex + 1) \<le> pow2 ey" using lt by (rule pow2_mono)
    with rx ry show ?thesis by linarith
  qed
qed

lemma rd_eval:
  assumes "pow2 e \<le> \<bar>x\<bar>" "\<bar>x\<bar> < pow2 (e + 1)" "- 1022 \<le> e"
  shows "rd x = real_of_int (round_half_even (x / pow2 (e - 52))) * pow2 (e - 52)"
proof -
  have "expo x = e" using assms(1,2) by (rule expo_unique)
  moreover have "0 < \<bar>x\<bar>" using assms(1) pow2_pos [of e] by linarith
  ultimately show ?thesis using assms(3) by (simp add: rd_def quantum_def max_def)
qed

lemma rd_pow2: "- 1022 \<le> e \<Longrightarrow> rd (pow2 e) = pow2 e"
proof -
  assume e: "- 1022 \<le> e"
  have lo: "pow2 e \<le> \<bar>pow2 e\<bar>" by simp
  have hi: "\<bar>pow2 e\<bar> < pow2 (e + 1)" by (simp add: pow2_less_iff)
  have "pow2 e = real_of_int (2 ^ nat 52) * pow2 (e - 52)"
    by (rule pow2_shift) simp_all
  then have "pow2 e / pow2 (e - 52) = real_of_int (2 ^ nat 52)" by (simp add: field_simps)
  then have "real_of_int (round_half_even (pow2 e / pow2 (e - 52))) * pow2 (e - 52)
             = real_of_int (2 ^ nat 52) * pow2 (e - 52)"
    by (simp only: round_half_even_of_int)
  also have "\<dots> = pow2 e" by (rule pow2_shift [symmetric]) simp_all
  finally show ?thesis using rd_eval [OF lo hi e] by simp
qed

lemma rd_bounded:
  assumes "0 \<le> v" "v \<le> pow2 e" "- 1022 \<le> e"
  shows "rd v \<le> pow2 e"
  using rd_mono_nonneg [OF assms(1,2)] rd_pow2 [OF assms(3)] by simp

lemma MAX_VALUE_large: "pow2 1000 \<le> MAX_VALUE"
  by (simp add: MAX_VALUE_def pow2_def)

lemma MAX_VALUE_pos: "0 < MAX_VALUE"
  using MAX_VALUE_large pow2_pos [of 1000] by linarith

lemma to_number_nonneg:
  assumes "0 \<le> x" "rd x \<le> MAX_VALUE"
  shows "to_number False x = Finite (rd x)"
  using assms rd_nonneg [OF assms(1)] MAX_VALUE_pos
  by (auto simp: to_number_def Let_def)

lemma to_number_small:
  assumes "0 \<le> x" "x \<le> pow2 1000"
  shows "to_number False x = Finite (rd x)"
proof (rule to_number_nonneg [OF assms(1)])
  have "rd x \<le> pow2 1000" using assms by (rule rd_bounded) simp
  then show "rd x \<le> MAX_VALUE" using MAX_VALUE_large by linarith
qed

lemma rd_of_int:
  assumes "\<bar>n\<bar> < 2 ^ 53"
  shows "rd (real_of_int n) = real_of_int n"
proof (cases "n = 0")
  case False
  define x where "x = real_of_int n"
  have x: "x \<noteq> 0" "1 \<le> \<bar>x\<bar>" using False by (simp_all add: x_def)
  have "\<bar>x\<bar> < pow2 53" using assms by (simp add: x_def pow2_def) 
  with expo_bounds(1) [OF x(1)] have "pow2 (expo x) < pow2 53" by linarith
  then have up: "expo x \<le> 52" by (simp add: pow2_less_iff)
  have "pow2 0 < pow2 (expo x + 1)" using x(2) expo_bounds(2) [OF x(1)] by (simp add: pow2_def)
  then have lo: "0 \<le> expo x" by (simp add: pow2_less_iff)
  define k where "k = 52 - expo x"
  have k: "0 \<le> k" using up by (simp add: k_def)
  have q: "quantum x = pow2 (expo x - 52)" using lo by (simp add: quantum_def max_def)
  have "pow2 0 = real_of_int (2 ^ nat k) * pow2 (expo x - 52)"
    by (rule pow2_shift) (use k in \<open>simp_all add: k_def\<close>)
  then have inv: "1 / quantum x = real_of_int (2 ^ nat k)" by (simp add: q pow2_def field_simps)
  have "x / quantum x = x * (1 / quantum x)" by simp
  also have "\<dots> = real_of_int (n * 2 ^ nat k)" unfolding inv by (simp add: x_def)
  finally have "x / quantum x = real_of_int (n * 2 ^ nat k)" .
  then have "real_of_int (round_half_even (x / quantum x)) = x / quantum x"
    by (simp only: round_half_even_of_int)
  then show ?thesis using x(1) by (simp add: rd_def x_def)
qed simp

lemma lit_of_int: "\<bar>n\<bar> < 2 ^ 53 \<Longrightarrow> lit (real_of_int n) = Finite (real_of_int n)"
proof -
  assume n: "\<bar>n\<bar> < 2 ^ 53"
  have r: "rd (real_of_int n) = real_of_int n" using n by (rule rd_of_int)
  have "\<bar>real_of_int n\<bar> \<le> pow2 53" using n by (simp add: pow2_def)
  also have "\<dots> \<le> pow2 1000" by (rule pow2_mono) simp
  also have "\<dots> \<le> MAX_VALUE" by (rule MAX_VALUE_large)
  finally have "\<bar>real_of_int n\<bar> \<le> MAX_VALUE" .
  then show ?thesis by (auto simp: lit_def to_number_def r Let_def)
qed

lemma lit_numeral [simp]:
  "lit 0 = Finite 0" "lit 1 = Finite 1" "lit 3 = Finite 3" "lit 5 = Finite 5"
  "lit 10 = Finite 10" "lit 14 = Finite 14" "lit 100 = Finite 100"
  using lit_of_int [of 0] lit_of_int [of 1] lit_of_int [of 3] lit_of_int [of 5]
    lit_of_int [of 10] lit_of_int [of 14] lit_of_int [of 100]
  by simp_all


lemma rd_error_small: "\<bar>rd v - v\<bar> \<le> \<bar>v\<bar> / 2 ^ 53 + 1 / 2 ^ 60"
proof -
  have le: "pow2 (- 1075) \<le> pow2 (- 60)" by (rule pow2_mono) simp
  have "\<bar>rd v - v\<bar> \<le> \<bar>v\<bar> * pow2 (- 53) + pow2 (- 1075)" by (rule rd_error)
  also have "\<dots> \<le> \<bar>v\<bar> * pow2 (- 53) + pow2 (- 60)" using le by linarith
  also have "\<dots> = \<bar>v\<bar> / 2 ^ 53 + 1 / 2 ^ 60" by (simp add: pow2_def)
  finally show ?thesis .
qed

lemma scaled_error:
  fixes r ra rb :: real
  assumes "0 \<le> r" "1 / 2 \<le> ra" "ra \<le> 4" "1 / 2 \<le> rb" "rb \<le> 4"
  shows "\<bar>rd (rd (rd (r / ra) * rb) * 100) - 100 * (r * rb / ra)\<bar> \<le> (r * rb / ra + 1) / 2 ^ 44"
    and "0 \<le> rd (rd (rd (r / ra) * rb) * 100)"
proof -
  define a where "a = r / ra"
  define T where "T = r * rb / ra"
  define v1 where "v1 = rd a"
  define P where "P = v1 * rb"
  define v2 where "v2 = rd P"
  define Q where "Q = v2 * 100"
  define v3 where "v3 = rd Q"
  have a0: "0 \<le> a" using assms by (simp add: a_def)
  have T0: "0 \<le> T" using assms by (simp add: T_def)
  have Ta: "T = a * rb" by (simp add: T_def a_def)
  have e1: "\<bar>v1 - a\<bar> \<le> a / 2 ^ 53 + 1 / 2 ^ 60"
    using rd_error_small [of a] a0 by (simp add: v1_def)
  have v10: "0 \<le> v1" unfolding v1_def using a0 by (rule rd_nonneg)
  have "P - T = rb * (v1 - a)" by (simp add: P_def Ta algebra_simps)
  then have "\<bar>P - T\<bar> = rb * \<bar>v1 - a\<bar>" using assms by (simp add: abs_mult)
  also have "\<dots> \<le> rb * (a / 2 ^ 53 + 1 / 2 ^ 60)"
    using e1 assms by (intro mult_left_mono) simp_all
  also have "\<dots> = T / 2 ^ 53 + rb * (1 / 2 ^ 60)" by (simp add: Ta algebra_simps)
  also have "\<dots> \<le> T / 2 ^ 53 + 4 * (1 / 2 ^ 60)" using assms by simp
  finally have eP: "\<bar>P - T\<bar> \<le> T / 2 ^ 53 + 4 / 2 ^ 60" by simp
  have P0: "0 \<le> P" using v10 assms by (simp add: P_def)
  have e2: "\<bar>v2 - P\<bar> \<le> P / 2 ^ 53 + 1 / 2 ^ 60"
    using rd_error_small [of P] P0 by (simp add: v2_def)
  have v20: "0 \<le> v2" unfolding v2_def using P0 by (rule rd_nonneg)
  have "P \<le> T + (T / 2 ^ 53 + 4 / 2 ^ 60)" using eP by linarith
  then have "P / 2 ^ 53 \<le> (T + (T / 2 ^ 53 + 4 / 2 ^ 60)) / 2 ^ 53"
    by (rule divide_right_mono) simp
  also have "\<dots> \<le> 2 * T / 2 ^ 53 + 1 / 2 ^ 60" using T0 by (simp add: field_simps)
  finally have "\<bar>v2 - P\<bar> \<le> 2 * T / 2 ^ 53 + 2 / 2 ^ 60" using e2 by linarith
  with eP have eV2: "\<bar>v2 - T\<bar> \<le> 3 * T / 2 ^ 53 + 6 / 2 ^ 60" by linarith
  have Q0: "0 \<le> Q" using v20 by (simp add: Q_def)
  have eQ: "\<bar>Q - 100 * T\<bar> \<le> 300 * T / 2 ^ 53 + 600 / 2 ^ 60"
    using eV2 unfolding Q_def by linarith
  have e3: "\<bar>v3 - Q\<bar> \<le> Q / 2 ^ 53 + 1 / 2 ^ 60"
    using rd_error_small [of Q] Q0 by (simp add: v3_def)
  have "Q \<le> 100 * T + (300 * T / 2 ^ 53 + 600 / 2 ^ 60)" using eQ by linarith
  then have "Q / 2 ^ 53 \<le> (100 * T + (300 * T / 2 ^ 53 + 600 / 2 ^ 60)) / 2 ^ 53"
    by (rule divide_right_mono) simp
  also have "\<dots> \<le> 101 * T / 2 ^ 53 + 1 / 2 ^ 60" using T0 by (simp add: field_simps)
  finally have "\<bar>v3 - Q\<bar> \<le> 101 * T / 2 ^ 53 + 2 / 2 ^ 60" using e3 by linarith
  with eQ have "\<bar>v3 - 100 * T\<bar> \<le> 401 * T / 2 ^ 53 + 602 / 2 ^ 60" by linarith
  also have "\<dots> \<le> (T + 1) / 2 ^ 44" using T0 by (simp add: field_simps)
  finally have "\<bar>v3 - 100 * T\<bar> \<le> (T + 1) / 2 ^ 44" .
  then show "\<bar>rd (rd (rd (r / ra) * rb) * 100) - 100 * (r * rb / ra)\<bar> \<le> (r * rb / ra + 1) / 2 ^ 44"
    by (simp add: v3_def Q_def v2_def P_def v1_def a_def T_def)
  have "0 \<le> v3" unfolding v3_def using Q0 by (rule rd_nonneg)
  then show "0 \<le> rd (rd (rd (r / ra) * rb) * 100)"
    by (simp add: v3_def Q_def v2_def P_def v1_def a_def)
qed

lemma conv_error:
  fixes r ra rb :: real
  assumes "0 \<le> r" "1 / 2 \<le> ra" "ra \<le> 4" "1 / 2 \<le> rb" "rb \<le> 4"
  shows "\<bar>rd (real_of_int \<lfloor>rd (rd (rd (r / ra) * rb) * 100) + 1 / 2\<rfloor> / 100) - r * rb / ra\<bar>
         \<le> 1 / 200 + (r * rb / ra + 1) / 2 ^ 50"
    and "0 \<le> rd (real_of_int \<lfloor>rd (rd (rd (r / ra) * rb) * 100) + 1 / 2\<rfloor> / 100)"
proof -
  define T where "T = r * rb / ra"
  define v3 where "v3 = rd (rd (rd (r / ra) * rb) * 100)"
  define n where "n = real_of_int \<lfloor>v3 + 1 / 2\<rfloor>"
  define y where "y = rd (n / 100)"
  have T0: "0 \<le> T" using assms by (simp add: T_def)
  have e3: "\<bar>v3 - 100 * T\<bar> \<le> (T + 1) / 2 ^ 44" and v30: "0 \<le> v3"
    unfolding v3_def T_def by (rule scaled_error [OF assms])+
  have n1: "n \<le> v3 + 1 / 2" "v3 - 1 / 2 < n" unfolding n_def by linarith+
  have n0: "0 \<le> n" using v30 by (simp add: n_def)
  have ey: "\<bar>y - n / 100\<bar> \<le> (n / 100) / 2 ^ 53 + 1 / 2 ^ 60"
    using rd_error_small [of "n / 100"] n0 by (simp add: y_def)
  define E where "E = (T + 1) / 2 ^ 44"
  have near: "\<bar>n - 100 * T\<bar> \<le> 1 / 2 + E" using e3 n1 unfolding E_def by linarith
  then have hundredth: "\<bar>n / 100 - T\<bar> \<le> 1 / 200 + E / 100" by linarith
  have "E / 100 \<le> T + 1 / 2" using T0 by (simp add: E_def field_simps)
  with hundredth have "n / 100 \<le> 2 * T + 1" by linarith
  then have "(n / 100) / 2 ^ 53 \<le> (2 * T + 1) / 2 ^ 53" by (rule divide_right_mono) simp
  with ey have "\<bar>y - n / 100\<bar> \<le> (2 * T + 1) / 2 ^ 53 + 1 / 2 ^ 60" by linarith
  with hundredth have "\<bar>y - T\<bar> \<le> 1 / 200 + (E / 100 + (2 * T + 1) / 2 ^ 53 + 1 / 2 ^ 60)"
    by linarith
  moreover have "E / 100 + (2 * T + 1) / 2 ^ 53 + 1 / 2 ^ 60 \<le> (T + 1) / 2 ^ 50"
    using T0 by (simp add: E_def field_simps)
  ultimately have "\<bar>y - T\<bar> \<le> 1 / 200 + (T + 1) / 2 ^ 50" by linarith
  then show "\<bar>rd (real_of_int \<lfloor>rd (rd (rd (r / ra) * rb) * 100) + 1 / 2\<rfloor> / 100) - r * rb / ra\<bar>
         \<le> 1 / 200 + (r * rb / ra + 1) / 2 ^ 50"
    by (simp add: y_def n_def v3_def T_def)
  have "0 \<le> y" unfolding y_def using n0 by (intro rd_nonneg) simp
  then show "0 \<le> rd (real_of_int \<lfloor>rd (rd (rd (r / ra) * rb) * 100) + 1 / 2\<rfloor> / 100)"
    by (simp add: y_def n_def v3_def)
qed



lemma small_le_pow2: "x \<le> 2 ^ 80 \<Longrightarrow> x \<le> pow2 1000"
proof -
  assume "x \<le> 2 ^ 80"
  then have "x \<le> pow2 80" by (simp add: pow2_def)
  also have "\<dots> \<le> pow2 1000" by (rule pow2_mono) simp
  finally show ?thesis .
qed

lemma to_number_bounded:
  assumes "0 \<le> x" "x \<le> pow2 e" "- 1022 \<le> e" "e \<le> 1000"
  shows "to_number False x = Finite (rd x)" and "0 \<le> rd x" and "rd x \<le> pow2 e"
proof -
  have "pow2 e \<le> pow2 1000" using assms(4) by (rule pow2_mono)
  with assms(2) have "x \<le> pow2 1000" by linarith
  with assms(1) show "to_number False x = Finite (rd x)" by (rule to_number_small)
  show "0 \<le> rd x" using assms(1) by (rule rd_nonneg)
  show "rd x \<le> pow2 e" using assms(1,2,3) by (rule rd_bounded)
qed

lemma lit_finite: "0 \<le> q \<Longrightarrow> q \<le> 2 ^ 80 \<Longrightarrow> lit q = Finite (rd q)"
  unfolding lit_def by (rule to_number_small) (simp_all add: small_le_pow2)

lemma js_div_finite:
  assumes "0 \<le> a" "0 < b" "a / b \<le> pow2 e" "- 1022 \<le> e" "e \<le> 1000"
  shows "js_div (Finite a) (Finite b) = Finite (rd (a / b))"
proof -
  have "to_number False (a / b) = Finite (rd (a / b))"
    using assms by (intro to_number_bounded(1) [where e = e]) simp_all
  then show ?thesis using assms(1,2) by (simp add: js_div_def)
qed

lemma js_mul_finite:
  assumes "0 \<le> a" "0 \<le> b" "a * b \<le> pow2 e" "- 1022 \<le> e" "e \<le> 1000"
  shows "js_mul (Finite a) (Finite b) = Finite (rd (a * b))"
proof -
  have "to_number False (a * b) = Finite (rd (a * b))"
    using assms by (intro to_number_bounded(1) [where e = e]) simp_all
  then show ?thesis using assms(1,2) by (simp add: js_mul_def)
qed

lemma js_add_finite:
  assumes "0 \<le> a" "0 \<le> b" "a + b \<le> pow2 e" "- 1022 \<le> e" "e \<le> 1000"
  shows "js_add (Finite a) (Finite b) = Finite (rd (a + b))"
proof -
  have "to_number False (a + b) = Finite (rd (a + b))"
    using assms by (intro to_number_bounded(1) [where e = e]) simp_all
  then show ?thesis using assms(1,2) by (simp add: js_add_def)
qed

section \<open>Properties of currency conversion\<close>

lemma rd_close:
  assumes "0 \<le> q" "q \<le> 4"
  shows "\<bar>rd q - q\<bar> \<le> 1 / 2 ^ 50"
proof -
  have "\<bar>rd q - q\<bar> \<le> \<bar>q\<bar> / 2 ^ 53 + 1 / 2 ^ 60" by (rule rd_error_small)
  moreover have "\<bar>q\<bar> / 2 ^ 53 \<le> 4 / 2 ^ 53" using assms by (intro divide_right_mono) simp_all
  ultimately show ?thesis by simp
qed

lemma lit_close:
  assumes "0 \<le> q" "q \<le> 4"
  shows "lit q = Finite (value_of (lit q))" and "\<bar>value_of (lit q) - q\<bar> \<le> 1 / 2 ^ 50"
proof -
  have "lit q = Finite (rd q)" using assms by (intro lit_finite) simp_all
  then show "lit q = Finite (value_of (lit q))" "\<bar>value_of (lit q) - q\<bar> \<le> 1 / 2 ^ 50"
    using rd_close [OF assms] by simp_all
qed

lemma EXCHANGE_RATES_finite: "EXCHANGE_RATES c = Finite (value_of (EXCHANGE_RATES c))"
  using lit_close(1) [of "373 / 100"] lit_close(1) [of "92 / 100"] lit_close(1) [of "79 / 100"]
  by (cases c) simp_all

lemma EXCHANGE_RATES_near:
  "value_of (EXCHANGE_RATES USD) = 1"
  "\<bar>value_of (EXCHANGE_RATES ILS) - 373 / 100\<bar> \<le> 1 / 2 ^ 50"
  "\<bar>value_of (EXCHANGE_RATES EUR) - 92 / 100\<bar> \<le> 1 / 2 ^ 50"
  "\<bar>value_of (EXCHANGE_RATES GBP) - 79 / 100\<bar> \<le> 1 / 2 ^ 50"
  using lit_close(2) [of "373 / 100"] lit_close(2) [of "92 / 100"] lit_close(2) [of "79 / 100"]
  by simp_all

lemma near_bounds:
  fixes x q :: real
  assumes "\<bar>x - q\<bar> \<le> 1 / 2 ^ 50" "lo + 1 / 1000 \<le> q" "q + 1 / 1000 \<le> hi"
  shows "lo \<le> x" and "x \<le> hi"
proof -
  have "(1 :: real) / 2 ^ 50 \<le> 1 / 1000" by simp
  with assms show "lo \<le> x" and "x \<le> hi" by linarith+
qed

lemma EXCHANGE_RATES_bounds:
  shows "1 / 2 \<le> value_of (EXCHANGE_RATES c)" and "value_of (EXCHANGE_RATES c) \<le> 4"
proof -
  have "1 / 2 \<le> value_of (EXCHANGE_RATES c) \<and> value_of (EXCHANGE_RATES c) \<le> 4"
  proof (cases c)
    case ILS
    show ?thesis unfolding ILS
      using near_bounds [OF EXCHANGE_RATES_near(2), of "1 / 2" 4] by simp
  next
    case USD
    show ?thesis unfolding USD using EXCHANGE_RATES_near(1) by simp
  next
    case EUR
    show ?thesis unfolding EUR
      using near_bounds [OF EXCHANGE_RATES_near(3), of "1 / 2" 4] by simp
  next
    case GBP
    show ?thesis unfolding GBP
      using near_bounds [OF EXCHANGE_RATES_near(4), of "1 / 2" 4] by simp
  qed
  then show "1 / 2 \<le> value_of (EXCHANGE_RATES c)" and "value_of (EXCHANGE_RATES c) \<le> 4"
    by simp_all
qed

lemma convert_value:
  assumes "0 \<le> r" "r \<le> 2 ^ 60" "A \<noteq> B"
  shows "convertCurrency (Finite r) A B
         = Finite (rd (real_of_int \<lfloor>rd (rd (rd (r / value_of (EXCHANGE_RATES A))
                      * value_of (EXCHANGE_RATES B)) * 100) + 1 / 2\<rfloor> / 100))"
proof -
  define ra where "ra = value_of (EXCHANGE_RATES A)"
  define rb where "rb = value_of (EXCHANGE_RATES B)"
  have A: "EXCHANGE_RATES A = Finite ra" unfolding ra_def by (rule EXCHANGE_RATES_finite)
  have B: "EXCHANGE_RATES B = Finite rb" unfolding rb_def by (rule EXCHANGE_RATES_finite)
  have ra: "1 / 2 \<le> ra" "ra \<le> 4" unfolding ra_def by (rule EXCHANGE_RATES_bounds)+
  have rb: "1 / 2 \<le> rb" "rb \<le> 4" unfolding rb_def by (rule EXCHANGE_RATES_bounds)+
  define v1 where "v1 = rd (r / ra)"
  define v2 where "v2 = rd (v1 * rb)"
  define v3 where "v3 = rd (v2 * 100)"
  define n where "n = \<lfloor>v3 + 1 / 2\<rfloor>"
  have "r / ra \<le> r / (1 / 2)" using assms(1) ra by (intro divide_left_mono) simp_all
  then have q1: "0 \<le> r / ra" "r / ra \<le> pow2 61" using assms ra by (simp_all add: pow2_def)
  have v1: "0 \<le> v1" "v1 \<le> pow2 61"
    unfolding v1_def using q1 by (rule to_number_bounded(2,3); simp)+
  have d1: "js_div (Finite r) (Finite ra) = Finite v1"
    unfolding v1_def using assms(1) ra q1(2) by (intro js_div_finite [where e = 61]) simp_all
  have "v1 * rb \<le> pow2 61 * 4" using v1 rb by (intro mult_mono) simp_all
  then have q2: "0 \<le> v1 * rb" "v1 * rb \<le> pow2 63" using v1 rb by (simp_all add: pow2_def)
  have v2: "0 \<le> v2" "v2 \<le> pow2 63"
    unfolding v2_def using q2 by (rule to_number_bounded(2,3); simp)+
  have d2: "js_mul (Finite v1) (Finite rb) = Finite v2"
    unfolding v2_def using v1(1) rb q2(2) by (intro js_mul_finite [where e = 63]) simp_all
  have q3: "0 \<le> v2 * 100" "v2 * 100 \<le> pow2 70" using v2 by (simp_all add: pow2_def)
  have v3: "0 \<le> v3" "v3 \<le> pow2 70"
    unfolding v3_def using q3 by (rule to_number_bounded(2,3); simp)+
  have d3: "js_mul (Finite v2) (Finite 100) = Finite v3"
    unfolding v3_def using v2(1) q3(2) by (intro js_mul_finite [where e = 70]) simp_all
  have "0 \<le> v3 + 1 / 2" using v3(1) by simp
  then have n0: "0 \<le> n" unfolding n_def by (simp only: zero_le_floor)
  have "real_of_int n \<le> v3 + 1 / 2" unfolding n_def by (rule of_int_floor_le)
  also have "\<dots> \<le> pow2 70 + 1 / 2" using v3(2) by simp
  also have "\<dots> \<le> pow2 71" by (simp add: pow2_def)
  finally have n: "0 \<le> real_of_int n" "real_of_int n \<le> pow2 71" using n0 by simp_all
  have d4: "Math_round (Finite v3) = Finite (real_of_int n)"
    using v3(1) by (simp add: n_def signed_zero_def)
  have d5: "js_div (Finite (real_of_int n)) (Finite 100) = Finite (rd (real_of_int n / 100))"
    using n by (intro js_div_finite [where e = 71]) simp_all
  show ?thesis
    using assms(3)
    by (simp add: convertCurrency_def Let_def A B d1 d2 d3 d4 d5
        ra_def [symmetric] rb_def [symmetric] v1_def [symmetric] v2_def [symmetric]
        v3_def [symmetric] n_def [symmetric] del: Math_round.simps)
qed

lemma convert_near:
  assumes "0 \<le> r" "r \<le> 2 ^ 60" "A \<noteq> B"
  shows "\<exists>y. convertCurrency (Finite r) A B = Finite y \<and> 0 \<le> y
           \<and> \<bar>y - r * value_of (EXCHANGE_RATES B) / value_of (EXCHANGE_RATES A)\<bar>
               \<le> 1 / 200 + (r * value_of (EXCHANGE_RATES B) / value_of (EXCHANGE_RATES A) + 1) / 2 ^ 50"
  using convert_value [OF assms]
    conv_error [OF assms(1) EXCHANGE_RATES_bounds [of A] EXCHANGE_RATES_bounds [of B]]
  by blast



lemma EXCHANGE_RATES_intervals:
  "3729 / 1000 \<le> value_of (EXCHANGE_RATES ILS)" "value_of (EXCHANGE_RATES ILS) \<le> 3731 / 1000"
  "919 / 1000 \<le> value_of (EXCHANGE_RATES EUR)" "value_of (EXCHANGE_RATES EUR) \<le> 921 / 1000"
  "789 / 1000 \<le> value_of (EXCHANGE_RATES GBP)" "value_of (EXCHANGE_RATES GBP) \<le> 791 / 1000"
  using near_bounds [OF EXCHANGE_RATES_near(2), of "3729 / 1000" "3731 / 1000"]
    near_bounds [OF EXCHANGE_RATES_near(3), of "919 / 1000" "921 / 1000"]
    near_bounds [OF EXCHANGE_RATES_near(4), of "789 / 1000" "791 / 1000"]
  by simp_all

lemma rate_ratio_all:
  "value_of (EXCHANGE_RATES A) \<le> 479 / 100 * value_of (EXCHANGE_RATES B)"
  using EXCHANGE_RATES_intervals EXCHANGE_RATES_near(1)
  by (cases A; cases B; hypsubst; linarith)

lemma rate_ratio_up:
  assumes "A \<noteq> B" "value_of (EXCHANGE_RATES A) \<le> value_of (EXCHANGE_RATES B)"
  shows "value_of (EXCHANGE_RATES A) \<le> 95 / 100 * value_of (EXCHANGE_RATES B)"
  using assms EXCHANGE_RATES_intervals EXCHANGE_RATES_near(1)
  by (cases A; cases B; hypsubst; (blast | linarith))

lemma convert_cents:
  fixes n :: int
  assumes "0 \<le> r" "r \<le> 2 ^ 60" "A \<noteq> B" "0 \<le> n" "n \<le> 1000"
    and "real_of_int n - 49 / 100
           \<le> 100 * (r * value_of (EXCHANGE_RATES B) / value_of (EXCHANGE_RATES A))"
    and "100 * (r * value_of (EXCHANGE_RATES B) / value_of (EXCHANGE_RATES A))
           \<le> real_of_int n + 49 / 100"
  shows "convertCurrency (Finite r) A B = Finite (rd (real_of_int n / 100))"
proof -
  define T where "T = r * value_of (EXCHANGE_RATES B) / value_of (EXCHANGE_RATES A)"
  define v3 where "v3 = rd (rd (rd (r / value_of (EXCHANGE_RATES A))
                      * value_of (EXCHANGE_RATES B)) * 100)"
  have e: "\<bar>v3 - 100 * T\<bar> \<le> (T + 1) / 2 ^ 44"
    unfolding v3_def T_def
    by (rule scaled_error(1) [OF assms(1) EXCHANGE_RATES_bounds EXCHANGE_RATES_bounds])
  have T: "real_of_int n - 49 / 100 \<le> 100 * T" "100 * T \<le> real_of_int n + 49 / 100"
    using assms(6,7) by (simp_all only: T_def)
  have "T \<le> 11" using T(2) assms(5) by linarith
  then have "(T + 1) / 2 ^ 44 \<le> 12 / 2 ^ 44" by (intro divide_right_mono) simp_all
  also have "\<dots> \<le> 1 / 1000" by simp
  finally have "\<bar>v3 - 100 * T\<bar> \<le> 1 / 1000" using e by linarith
  with T have "real_of_int n \<le> v3 + 1 / 2" "v3 + 1 / 2 < real_of_int n + 1" by linarith+
  then have "\<lfloor>v3 + 1 / 2\<rfloor> = n" by (intro floor_unique)
  then show ?thesis
    using convert_value [OF assms(1,2,3)] by (simp only: v3_def)
qed

lemma roundtrip_bound:
  assumes "0 \<le> x" "x \<le> 10 ^ 15" "A \<noteq> B"
  shows "\<exists>z. convertCurrency (convertCurrency (Finite x) A B) B A = Finite z
           \<and> \<bar>z - x\<bar> \<le> 1 / 200 * (1 + value_of (EXCHANGE_RATES A) / value_of (EXCHANGE_RATES B))
                          + (x + 3) / 2 ^ 48"
proof -
  define ra where "ra = value_of (EXCHANGE_RATES A)"
  define rb where "rb = value_of (EXCHANGE_RATES B)"
  have ra: "1 / 2 \<le> ra" "ra \<le> 4" unfolding ra_def by (rule EXCHANGE_RATES_bounds)+
  have rb: "1 / 2 \<le> rb" "rb \<le> 4" unfolding rb_def by (rule EXCHANGE_RATES_bounds)+
  define q where "q = ra / rb"
  define T where "T = x * rb / ra"
  have q: "0 < q" "q \<le> 8"
  proof -
    show "0 < q" using ra rb by (simp add: q_def)
    have "ra / rb \<le> 4 / rb" using ra rb by (intro divide_right_mono) simp_all
    also have "\<dots> \<le> 4 / (1 / 2)" using rb by (intro divide_left_mono) simp_all
    finally show "q \<le> 8" by (simp add: q_def)
  qed
  have Tq: "T * q = x" using ra rb by (simp add: T_def q_def)
  have T0: "0 \<le> T" using assms(1) ra rb by (simp add: T_def)
  have "x * rb \<le> 10 ^ 15 * 4" using assms(1,2) rb by (intro mult_mono) simp_all
  then have "T \<le> (10 ^ 15 * 4) / ra" unfolding T_def using ra by (intro divide_right_mono) simp_all
  also have "\<dots> \<le> (10 ^ 15 * 4) / (1 / 2)" using ra by (intro divide_left_mono) simp_all
  finally have T1: "T \<le> 8 * 10 ^ 15" by simp
  have "x \<le> 2 ^ 60" using assms(2) by simp
  from convert_near [OF assms(1) this assms(3)] obtain y
    where y: "convertCurrency (Finite x) A B = Finite y" "0 \<le> y"
      "\<bar>y - T\<bar> \<le> 1 / 200 + (T + 1) / 2 ^ 50"
    unfolding T_def ra_def rb_def by blast
  have "(T + 1) / 2 ^ 50 \<le> (8 * 10 ^ 15 + 1) / 2 ^ 50" using T1 by (intro divide_right_mono) simp_all
  also have "\<dots> \<le> 8" by simp
  finally have "y \<le> T + 9" using y(3) by linarith
  with T1 have "y \<le> 2 ^ 60" by simp
  from convert_near [OF y(2) this assms(3) [symmetric]] obtain z
    where z: "convertCurrency (Finite y) B A = Finite z"
      "\<bar>z - y * q\<bar> \<le> 1 / 200 + (y * q + 1) / 2 ^ 50"
    unfolding q_def ra_def rb_def by auto
  define E where "E = (T + 1) / 2 ^ 50"
  have "\<bar>(y - T) * q\<bar> = \<bar>y - T\<bar> * q" using q(1) by (simp add: abs_mult)
  also have "\<dots> \<le> (1 / 200 + E) * q" using y(3) q(1) unfolding E_def by (intro mult_right_mono) simp_all
  finally have "\<bar>y * q - T * q\<bar> \<le> (1 / 200 + E) * q" by (simp add: left_diff_distrib)
  then have yq: "\<bar>y * q - x\<bar> \<le> q / 200 + E * q" by (simp add: Tq distrib_right)
  have "E * q = (x + q) / 2 ^ 50" unfolding E_def using Tq by (simp add: distrib_right)
  with yq have yq': "\<bar>y * q - x\<bar> \<le> q / 200 + (x + q) / 2 ^ 50" by simp
  have "(x + q) / 2 ^ 50 \<le> (x + 8) / 2 ^ 50" using q by (intro divide_right_mono) simp_all
  with yq' have yq2: "\<bar>y * q - x\<bar> \<le> q / 200 + (x + 8) / 2 ^ 50" by linarith
  have "(x + 8) / 2 ^ 50 \<le> x + 1 / 2" using assms(1) by (simp add: field_simps)
  with yq2 q(2) have "y * q \<le> 2 * x + 1" by linarith
  then have "(y * q + 1) / 2 ^ 50 \<le> (2 * x + 2) / 2 ^ 50" by (intro divide_right_mono) simp_all
  with z(2) have "\<bar>z - y * q\<bar> \<le> 1 / 200 + (2 * x + 2) / 2 ^ 50" by linarith
  with yq2 have "\<bar>z - x\<bar> \<le> 1 / 200 + q / 200 + ((x + 8) / 2 ^ 50 + (2 * x + 2) / 2 ^ 50)"
    by linarith
  moreover have "(x + 8) / 2 ^ 50 + (2 * x + 2) / 2 ^ 50 \<le> (x + 3) / 2 ^ 48"
    using assms(1) by (simp add: field_simps)
  ultimately have "\<bar>z - x\<bar> \<le> 1 / 200 * (1 + q) + (x + 3) / 2 ^ 48" by (simp add: field_simps)
  then show ?thesis using y(1) z(1) by (simp add: q_def ra_def rb_def)
qed

text \<open>
  C9 as stated fails.  Two hundredths of a shekel are one cent, and one cent is four
  hundredths of a shekel: the round trip of 0.02 ILS through USD returns 0.04, which is off
  by more than 0.01.
\<close>

theorem C9_roundtrip_counterexample:
  "convertCurrency (convertCurrency (lit (2 / 100)) ILS USD) USD ILS = lit (4 / 100)
   \<and> 1 / 100 < value_of (lit (4 / 100)) - value_of (lit (2 / 100))"
proof -
  define i where "i = value_of (EXCHANGE_RATES ILS)"
  define u where "u = value_of (EXCHANGE_RATES USD)"
  have i: "3729 / 1000 \<le> i" "i \<le> 3731 / 1000"
    unfolding i_def by (rule EXCHANGE_RATES_intervals)+
  have u: "u = 1" unfolding u_def by (rule EXCHANGE_RATES_near)
  have small: "(1 :: real) / 2 ^ 50 \<le> 1 / 1000000" by simp
  define x where "x = rd (2 / 100)"
  define c where "c = rd (1 / 100)"
  define z where "z = rd (4 / 100)"
  have x: "\<bar>x - 2 / 100\<bar> \<le> 1 / 1000000"
    using rd_close [of "2 / 100"] small unfolding x_def by linarith
  have c: "\<bar>c - 1 / 100\<bar> \<le> 1 / 1000000"
    using rd_close [of "1 / 100"] small unfolding c_def by linarith
  have z: "\<bar>z - 4 / 100\<bar> \<le> 1 / 1000000"
    using rd_close [of "4 / 100"] small unfolding z_def by linarith
  have lx: "lit (2 / 100) = Finite x" unfolding x_def by (rule lit_finite) simp_all
  have lz: "lit (4 / 100) = Finite z" unfolding z_def by (rule lit_finite) simp_all
  have big: "(1 :: real) \<le> 2 ^ 60" by simp
  have x0: "0 \<le> x" "x \<le> 2 ^ 60" using x big by linarith+
  have c0: "0 \<le> c" "c \<le> 2 ^ 60" using c big by linarith+
  have "51 / 100 * i \<le> 100 * x" "100 * x \<le> 149 / 100 * i" using x i by linarith+
  then have "51 / 100 \<le> 100 * x / i" "100 * x / i \<le> 149 / 100"
    using i by (simp_all add: pos_le_divide_eq pos_divide_le_eq)
  then have "real_of_int 1 - 49 / 100 \<le> 100 * (x * u / i)"
    "100 * (x * u / i) \<le> real_of_int 1 + 49 / 100"
    by (simp_all add: u)
  then have away: "convertCurrency (Finite x) ILS USD = Finite c"
    unfolding i_def u_def c_def
    using convert_cents [OF x0, of ILS USD 1] by simp
  have ci: "99 / 10000 \<le> c" "c \<le> 101 / 10000" using c by linarith+
  have "99 / 10000 * (3729 / 1000) \<le> c * i" using ci i by (intro mult_mono) simp_all
  moreover have "c * i \<le> 101 / 10000 * (3731 / 1000)" using ci i by (intro mult_mono) simp_all
  ultimately have "351 / 100 \<le> 100 * (c * i)" "100 * (c * i) \<le> 449 / 100" by simp_all
  then have "real_of_int 4 - 49 / 100 \<le> 100 * (c * i / u)"
    "100 * (c * i / u) \<le> real_of_int 4 + 49 / 100"
    by (simp_all add: u)
  then have home: "convertCurrency (Finite c) USD ILS = Finite z"
    unfolding i_def u_def z_def
    using convert_cents [OF c0, of USD ILS 4] by simp
  have "1 / 100 < z - x" using z x by linarith
  then show ?thesis unfolding lx lz away home by simp
qed

text \<open>
  C9, amended.  For every pair of supported currencies (A, B) and every positive amount x up
  to \<open>10^15\<close>, converting x from A to B and the result back to A yields a finite number z
  with \<open>|z - x| \<le> 0.005 * (1 + rate A / rate B) + (x + 3) / 2^48\<close>: half a cent of
  rounding in each direction, the first one scaled by the rate, and the rounding of the
  floating-point operations.  For amounts up to \<open>10^9\<close> the result is within 0.03 of x
  for every pair of the table, and within 0.01 of x whenever the rate of A is at most the
  rate of B.
\<close>

theorem C9_roundtrip_amended:
  assumes "0 < x" "x \<le> 10 ^ 15"
  shows "\<exists>z. convertCurrency (convertCurrency (Finite x) A B) B A = Finite z
           \<and> \<bar>z - x\<bar>
               \<le> 1 / 200 * (1 + value_of (EXCHANGE_RATES A) / value_of (EXCHANGE_RATES B))
                  + (x + 3) / 2 ^ 48
           \<and> (x \<le> 10 ^ 9 \<longrightarrow> \<bar>z - x\<bar> \<le> 3 / 100)
           \<and> (x \<le> 10 ^ 9 \<and> js_le (EXCHANGE_RATES A) (EXCHANGE_RATES B)
                \<longrightarrow> \<bar>z - x\<bar> \<le> 1 / 100)"
proof (cases "A = B")
  case True
  have "0 \<le> 1 / 200 * (1 + value_of (EXCHANGE_RATES A) / value_of (EXCHANGE_RATES B))
              + (x + 3) / 2 ^ 48"
    using assms(1) EXCHANGE_RATES_bounds(1) [of A] EXCHANGE_RATES_bounds(1) [of B] by simp
  then show ?thesis using True by (simp add: convertCurrency_def)
next
  case False
  define ra where "ra = value_of (EXCHANGE_RATES A)"
  define rb where "rb = value_of (EXCHANGE_RATES B)"
  have rb: "0 < rb" using EXCHANGE_RATES_bounds(1) [of B] by (simp add: rb_def)
  have x0: "0 \<le> x" using assms(1) by simp
  define q where "q = ra / rb"
  define t where "t = (x + 3) / 2 ^ 48"
  from roundtrip_bound [OF x0 assms(2) False] obtain z
    where z: "convertCurrency (convertCurrency (Finite x) A B) B A = Finite z"
      and zq: "\<bar>z - x\<bar> \<le> 1 / 200 * (1 + q) + t"
    unfolding q_def t_def ra_def rb_def by blast
  have eq: "1 / 200 * (1 + q) = 1 / 200 + q / 200" by (simp add: distrib_left)
  have zb: "\<bar>z - x\<bar> \<le> 1 / 200 + q / 200 + t" using zq by (simp only: eq)
  have tail: "t \<le> 1 / 100000" if "x \<le> 10 ^ 9"
  proof -
    have "(x + 3) / 2 ^ 48 \<le> (10 ^ 9 + 3) / 2 ^ 48" using that by (intro divide_right_mono) simp_all
    also have "\<dots> \<le> 1 / 100000" by simp
    finally show ?thesis by (simp only: t_def)
  qed
  have "ra \<le> 479 / 100 * rb" unfolding ra_def rb_def by (rule rate_ratio_all)
  then have "q \<le> 479 / 100" using rb by (simp add: q_def pos_divide_le_eq)
  then have every: "\<bar>z - x\<bar> \<le> 3 / 100" if "x \<le> 10 ^ 9"
    using zb tail [OF that] by linarith
  have up: "\<bar>z - x\<bar> \<le> 1 / 100"
    if "x \<le> 10 ^ 9" "js_le (EXCHANGE_RATES A) (EXCHANGE_RATES B)"
  proof -
    have "js_le (Finite ra) (Finite rb)"
      using that(2) EXCHANGE_RATES_finite [of A] EXCHANGE_RATES_finite [of B]
      by (simp add: ra_def rb_def)
    then have "ra \<le> rb" by (simp add: js_le_def)
    then have "ra \<le> 95 / 100 * rb" unfolding ra_def rb_def by (rule rate_ratio_up [OF False])
    then have "q \<le> 95 / 100" using rb by (simp add: q_def pos_divide_le_eq)
    then show ?thesis using zb tail [OF that(1)] by linarith
  qed
  show ?thesis using z zq every up unfolding q_def t_def ra_def rb_def by blast
qed

theorem C9_roundtrip_amended_witness:
  "(0 :: real) < 5 \<and> (5 :: real) \<le> 10 ^ 9
   \<and> js_le (EXCHANGE_RATES USD) (EXCHANGE_RATES ILS)
   \<and> \<bar>value_of (convertCurrency (convertCurrency (Finite 5) USD ILS) ILS USD) - 5\<bar> \<le> 1 / 100"
proof -
  have "js_le (Finite (value_of (EXCHANGE_RATES USD))) (Finite (value_of (EXCHANGE_RATES ILS)))"
    using EXCHANGE_RATES_intervals(1) EXCHANGE_RATES_near(1)
    by (simp add: js_le_def del: EXCHANGE_RATES.simps)
  then have le: "js_le (EXCHANGE_RATES USD) (EXCHANGE_RATES ILS)"
    by (simp only: EXCHANGE_RATES_finite [symmetric])
  from C9_roundtrip_amended [of 5 USD ILS] le show ?thesis by auto
qed



section \<open>Properties of the operations on numbers\<close>

lemma to_number_cases:
  assumes "0 \<le> a"
  shows "to_number False a = PosInfinity \<or> (to_number False a = Finite (rd a) \<and> 0 \<le> rd a)"
  using assms rd_nonneg [OF assms] MAX_VALUE_pos by (auto simp: to_number_def Let_def)

lemma nonnegative_to_number: "0 \<le> a \<Longrightarrow> nonnegative (to_number False a)"
  using to_number_cases [of a] by auto

lemma to_number_mono:
  assumes "0 \<le> a" "a \<le> b"
  shows "js_le (to_number False a) (to_number False b)"
proof -
  have "rd a \<le> rd b" using assms by (rule rd_mono_nonneg)
  moreover have "0 \<le> rd a" using assms(1) by (rule rd_nonneg)
  ultimately show ?thesis
    using assms MAX_VALUE_pos by (auto simp: to_number_def Let_def js_le_def)
qed

lemma to_number_double:
  assumes "is_double x" "0 \<le> x"
  shows "to_number False x = Finite x"
  using assms rd_double [OF assms(1)] MAX_VALUE_pos
  by (auto simp: to_number_def Let_def is_double_def)

lemma nonnegative_cases:
  assumes "nonnegative a"
  obtains x where "a = Finite x" "0 \<le> x" | "a = PosInfinity"
  using assms by (cases a) simp_all

lemma nonnegative_js_le: "js_le (Finite 0) a \<Longrightarrow> a \<noteq> NegZero \<Longrightarrow> nonnegative a"
  by (cases a) (simp_all add: js_le_def)

lemma js_le_refl: "\<not> is_NaN a \<Longrightarrow> js_le a a"
  by (cases a) (simp_all add: js_le_def)

lemma js_add_nonnegative:
  assumes "nonnegative a" "nonnegative b"
  shows "nonnegative (js_add a b)"
  using assms
  by (elim nonnegative_cases) (simp_all add: js_add_def nonnegative_to_number)

lemma js_add_mono_right:
  assumes "nonnegative a" "nonnegative b" "nonnegative c" "js_le b c"
  shows "js_le (js_add a b) (js_add a c)"
proof -
  from assms(1) show ?thesis
  proof (cases rule: nonnegative_cases)
    case (1 x)
    from assms(2) show ?thesis
    proof (cases rule: nonnegative_cases)
      case b: (1 y)
      from assms(3) show ?thesis
      proof (cases rule: nonnegative_cases)
        case c: (1 z)
        have "y \<le> z" using assms(4) by (simp add: b c js_le_def)
        then have "js_le (to_number False (x + y)) (to_number False (x + z))"
          using 1 b by (intro to_number_mono) simp_all
        then show ?thesis using 1 b c by (simp add: js_add_def)
      next
        case 2
        have "nonnegative (to_number False (x + y))"
          using 1 b by (intro nonnegative_to_number) simp
        then have "js_le (to_number False (x + y)) PosInfinity"
          by (elim nonnegative_cases) (simp_all add: js_le_def)
        then show ?thesis using 1 b 2 by (simp add: js_add_def)
      qed
    next
      case 2
      with assms(3,4) have "c = PosInfinity"
        by (elim nonnegative_cases) (simp_all add: js_le_def)
      with 2 1 show ?thesis by (simp add: js_add_def js_le_def)
    qed
  next
    case 2
    with assms(2,3) show ?thesis
      by (elim nonnegative_cases) (simp_all add: js_add_def js_le_def)
  qed
qed

lemma js_add_ge_left:
  assumes "is_number b" "nonnegative b" "nonnegative w" "nonnegative c" "js_le b w"
  shows "js_le b (js_add w c)"
proof -
  from assms(3) show ?thesis
  proof (cases rule: nonnegative_cases)
    case (1 y)
    from assms(4) show ?thesis
    proof (cases rule: nonnegative_cases)
      case c: (1 z)
      from assms(2) show ?thesis
      proof (cases rule: nonnegative_cases)
        case b: (1 x)
        have "x \<le> y" using assms(5) by (simp add: b 1 js_le_def)
        then have "js_le (to_number False x) (to_number False (y + z))"
          using b c by (intro to_number_mono) simp_all
        moreover have "to_number False x = Finite x"
          using assms(1) b by (intro to_number_double) simp_all
        ultimately show ?thesis using 1 b c by (simp add: js_add_def)
      next
        case 2
        with assms(5) 1 show ?thesis by (simp add: js_le_def)
      qed
    next
      case 2
      with 1 assms(2) show ?thesis
        by (elim nonnegative_cases) (simp_all add: js_add_def js_le_def)
    qed
  next
    case 2
    with assms(2,4) show ?thesis
      by (elim nonnegative_cases) (simp_all add: js_add_def js_le_def)
  qed
qed

lemma js_mul_nonnegative:
  assumes "nonnegative a" "0 < t"
  shows "nonnegative (js_mul a (Finite t))"
  using assms
  by (elim nonnegative_cases)
     (simp_all add: js_mul_def nonnegative_to_number signed_infinity_def)

lemma lit_positive:
  assumes "1 / 100 \<le> q" "q \<le> 4"
  shows "\<exists>t. lit q = Finite t \<and> 0 < t"
proof -
  have "(1 :: real) / 2 ^ 50 \<le> 1 / 1000" by simp
  moreover have "\<bar>value_of (lit q) - q\<bar> \<le> 1 / 2 ^ 50" using assms by (intro lit_close) simp_all
  ultimately have "0 < value_of (lit q)" using assms(1) by linarith
  moreover have "lit q = Finite (value_of (lit q))" using assms by (intro lit_close) simp_all
  ultimately show ?thesis by blast
qed

lemma js_mul_NegZero: "0 < t \<Longrightarrow> js_mul NegZero (Finite t) = NegZero"
  using MAX_VALUE_pos by (simp add: js_mul_def to_number_def)

lemma js_add_NegZero: "js_add NegZero NegZero = NegZero" "js_add NegZero (Finite 0) = Finite 0"
  using MAX_VALUE_pos by (simp_all add: js_add_def to_number_def)

lemma is_double_fixed:
  assumes "rd x = x" "\<bar>x\<bar> \<le> MAX_VALUE"
  shows "is_double x"
proof (cases "x = 0")
  case False
  have "real_of_int (round_half_even (x / quantum x)) * quantum x = x"
    using assms(1) False by (simp add: rd_def)
  then have "x / quantum x = real_of_int (round_half_even (x / quantum x))"
    by (simp add: field_simps)
  then have "real_of_int \<lfloor>x / quantum x\<rfloor> = x / quantum x"
    by (metis floor_of_int)
  with assms(2) show ?thesis by (simp add: is_double_def)
qed (simp add: is_double_def MAX_VALUE_def)

lemma is_double_of_int:
  assumes "\<bar>n\<bar> < 2 ^ 53"
  shows "is_double (real_of_int n)"
proof (rule is_double_fixed)
  show "rd (real_of_int n) = real_of_int n" using assms by (rule rd_of_int)
  have "\<bar>real_of_int n\<bar> \<le> pow2 53" using assms by (simp add: pow2_def)
  also have "\<dots> \<le> pow2 1000" by (rule pow2_mono) simp
  also have "\<dots> \<le> MAX_VALUE" by (rule MAX_VALUE_large)
  finally show "\<bar>real_of_int n\<bar> \<le> MAX_VALUE" .
qed



section \<open>Properties of the landed-cost calculation\<close>

lemma calculateTotalCost_precomputed:
  "has_total_landed_cost p \<Longrightarrow> calculateTotalCost p userCountry includeAllFees = p"
  by (simp add: calculateTotalCost_def)

lemma landed_total_estimate:
  "\<not> has_total_landed_cost p \<Longrightarrow>
   landed_total (calculateTotalCost p userCountry includeAllFees) =
     Some (js_add (js_add (amount (base (pricing p)))
                     (js_mul (amount (base (pricing p))) (lit (1 / 10))))
             (if includeAllFees then js_mul (amount (base (pricing p))) (lit (17 / 100))
              else lit 0))"
  by (simp add: calculateTotalCost_def landed_total_def Let_def)

lemma estimate_monotone:
  assumes "is_number b" "js_le (lit 0) b"
  shows "js_le (js_add (js_add b (js_mul b (lit (1 / 10)))) (lit 0))
               (js_add (js_add b (js_mul b (lit (1 / 10)))) (js_mul b (lit (17 / 100))))"
    and "js_le b (js_add (js_add b (js_mul b (lit (1 / 10)))) (lit 0))"
proof -
  obtain t where t: "lit (1 / 10) = Finite t" "0 < t"
    using lit_positive [of "1 / 10"] by auto
  obtain t' where t': "lit (17 / 100) = Finite t'" "0 < t'"
    using lit_positive [of "17 / 100"] by auto
  have both: "js_le (js_add (js_add b (js_mul b (lit (1 / 10)))) (lit 0))
               (js_add (js_add b (js_mul b (lit (1 / 10)))) (js_mul b (lit (17 / 100))))
     \<and> js_le b (js_add (js_add b (js_mul b (lit (1 / 10)))) (lit 0))"
  proof (cases "b = NegZero")
    case True
    then show ?thesis
      using t t' by (simp add: js_mul_NegZero js_add_NegZero js_le_def)
  next
    case False
    with assms(2) have b: "nonnegative b" by (intro nonnegative_js_le) simp_all
    have s: "nonnegative (js_mul b (lit (1 / 10)))"
      unfolding t(1) using b t(2) by (rule js_mul_nonnegative)
    have d: "nonnegative (js_mul b (lit (17 / 100)))"
      unfolding t'(1) using b t'(2) by (rule js_mul_nonnegative)
    have z: "nonnegative (lit 0)" by simp
    have w: "nonnegative (js_add b (js_mul b (lit (1 / 10))))"
      using b s by (rule js_add_nonnegative)
    have "js_le (lit 0) (js_mul b (lit (17 / 100)))"
      using d by (elim nonnegative_cases) (simp_all add: js_le_def)
    with w z d have first: "js_le (js_add (js_add b (js_mul b (lit (1 / 10)))) (lit 0))
               (js_add (js_add b (js_mul b (lit (1 / 10)))) (js_mul b (lit (17 / 100))))"
      by (rule js_add_mono_right)
    have "js_le b b" using b by (elim nonnegative_cases) (simp_all add: js_le_def)
    with assms(1) b b s have "js_le b (js_add b (js_mul b (lit (1 / 10))))"
      by (rule js_add_ge_left)
    with assms(1) b w z have "js_le b (js_add (js_add b (js_mul b (lit (1 / 10)))) (lit 0))"
      by (rule js_add_ge_left)
    with first show ?thesis by simp
  qed
  from both show "js_le (js_add (js_add b (js_mul b (lit (1 / 10)))) (lit 0))
               (js_add (js_add b (js_mul b (lit (1 / 10)))) (js_mul b (lit (17 / 100))))"
    and "js_le b (js_add (js_add b (js_mul b (lit (1 / 10)))) (lit 0))"
    by simp_all
qed

text \<open>
  C4 on the code.  A listing whose precomputed total landed cost is 0 (a free item shipped
  free of charge) is not returned unchanged: the condition reads the total as a truth value,
  zero counts as absent, and the breakdown is replaced by the estimate (14 days, all risk
  flags set).  A precomputed total other than zero is returned as it is
  (\<open>calculateTotalCost_precomputed\<close>).
\<close>

theorem C4_zero_total_recomputed:
  "landed_total (with_breakdown (plain_listing ''g1'' ''grp'' GLOBAL (lit 0))
                   (upstream_breakdown (lit 0) (lit 0)))
     = Some (lit 0)
   \<and> calculateTotalCost
       (with_breakdown (plain_listing ''g1'' ''grp'' GLOBAL (lit 0))
          (upstream_breakdown (lit 0) (lit 0))) IL True
     \<noteq> with_breakdown (plain_listing ''g1'' ''grp'' GLOBAL (lit 0))
          (upstream_breakdown (lit 0) (lit 0))
   \<and> map_option risks (international (pricing (calculateTotalCost
       (with_breakdown (plain_listing ''g1'' ''grp'' GLOBAL (lit 0))
          (upstream_breakdown (lit 0) (lit 0))) IL True)))
     = Some \<lparr>customs_delay = True, warranty_void = True, return_difficult = True\<rparr>"
  by (simp add: calculateTotalCost_def has_total_landed_cost_def landed_total_def truthy_def
      with_breakdown_def upstream_breakdown_def plain_listing_def Let_def)

text \<open>
  C8 as stated fails.  A listing with base amount 100 that carries a precomputed total landed
  cost of 50 is returned as it is, with and without fees: the computed cost is below the base
  amount.
\<close>

theorem C8_monotone_counterexample:
  "js_le (lit 0) (amount (base (pricing (with_breakdown (plain_listing ''g1'' ''grp'' GLOBAL (lit 100))
                                   (upstream_breakdown (lit 0) (lit 50))))))
   \<and> \<not> landed_cost_monotone
         (with_breakdown (plain_listing ''g1'' ''grp'' GLOBAL (lit 100))
            (upstream_breakdown (lit 0) (lit 50))) IL"
proof -
  have l: "lit 50 = Finite 50" using lit_of_int [of 50] by simp
  show ?thesis
    by (simp add: landed_cost_monotone_def calculateTotalCost_def has_total_landed_cost_def
      landed_total_def with_breakdown_def upstream_breakdown_def plain_listing_def l
      truthy_def js_le_def)
qed

text \<open>
  C8, amended.  For every listing whose base amount is a number that is not negative and
  whose precomputed total landed cost, where it carries one that counts as present (neither
  zero nor NaN), is at least the base amount, and for every destination country: the landed
  cost computed with fees is at least the landed cost computed without fees, which is at
  least the base amount.
\<close>

theorem C8_monotone_amended:
  assumes "is_number (amount (base (pricing p)))"
    and "js_le (lit 0) (amount (base (pricing p)))"
    and "\<forall>i. international (pricing p) = Some i \<and> truthy (total_landed_cost i)
            \<longrightarrow> js_le (amount (base (pricing p))) (total_landed_cost i)"
  shows "landed_cost_monotone p userCountry"
proof (cases "has_total_landed_cost p")
  case True
  then obtain i where i: "international (pricing p) = Some i" "truthy (total_landed_cost i)"
    by (auto simp: has_total_landed_cost_def split: option.splits)
  with assms(3) have "js_le (amount (base (pricing p))) (total_landed_cost i)" by blast
  moreover have "js_le (total_landed_cost i) (total_landed_cost i)"
    using i(2) by (intro js_le_refl) (simp add: truthy_def)
  ultimately show ?thesis using True i
    by (simp add: landed_cost_monotone_def calculateTotalCost_precomputed landed_total_def)
next
  case False
  with estimate_monotone [OF assms(1,2)] show ?thesis
    by (simp add: landed_cost_monotone_def landed_total_estimate)
qed

theorem C8_monotone_amended_witness:
  "landed_cost_monotone (plain_listing ''g1'' ''grp'' GLOBAL (lit 100)) IL
   \<and> landed_cost_monotone
       (with_breakdown (plain_listing ''g1'' ''grp'' GLOBAL (lit 100))
          (upstream_breakdown (lit 10) (lit 110))) IL"
proof -
  have d: "is_double 100" using is_double_of_int [of 100] by simp
  have l: "lit 110 = Finite 110" using lit_of_int [of 110] by simp
  have "landed_cost_monotone (plain_listing ''g1'' ''grp'' GLOBAL (lit 100)) IL"
    by (rule C8_monotone_amended) (simp_all add: plain_listing_def d js_le_def)
  moreover have "landed_cost_monotone
       (with_breakdown (plain_listing ''g1'' ''grp'' GLOBAL (lit 100))
          (upstream_breakdown (lit 10) (lit 110))) IL"
    by (rule C8_monotone_amended)
       (simp_all add: plain_listing_def with_breakdown_def upstream_breakdown_def d l js_le_def)
  ultimately show ?thesis by simp
qed



lemma rd_at:
  assumes "pow2 e \<le> x" "x < pow2 (e + 1)" "- 1022 \<le> e"
    and "round_half_even (x / pow2 (e - 52)) = n"
  shows "rd x = real_of_int n * pow2 (e - 52)"
proof -
  have "0 < x" using assms(1) pow2_pos [of e] by linarith
  then have "pow2 e \<le> \<bar>x\<bar>" "\<bar>x\<bar> < pow2 (e + 1)" using assms(1,2) by simp_all
  from rd_eval [OF this assms(3)] assms(4) show ?thesis by simp
qed

lemma rd_tenth: "rd (1 / 10) = 7205759403792794 / 2 ^ 56"
  using rd_at [of "- 4" "1 / 10" 7205759403792794]
  by (simp add: pow2_def round_half_even_def Let_def)

lemma rd_seventeen_hundredths: "rd (17 / 100) = 6124895493223875 / 2 ^ 55"
  using rd_at [of "- 3" "17 / 100" 6124895493223875]
  by (simp add: pow2_def round_half_even_def Let_def)

lemma rd_hundred_tenths: "rd (100 * rd (1 / 10)) = 10"
  unfolding rd_tenth
  using rd_at [of 3 "100 * (7205759403792794 / 2 ^ 56)" 5629499534213120]
  by (simp add: pow2_def round_half_even_def Let_def)

lemma rd_hundred_seventeen: "rd (100 * rd (17 / 100)) = 17"
  unfolding rd_seventeen_hundredths
  using rd_at [of 4 "100 * (6124895493223875 / 2 ^ 55)" 4785074604081152]
  by (simp add: pow2_def round_half_even_def Let_def)

lemma estimate_of_100:
  "js_mul (Finite 100) (lit (1 / 10)) = Finite 10"
  "js_mul (Finite 100) (lit (17 / 100)) = Finite 17"
  "js_add (js_add (Finite 100) (Finite 10)) (Finite 17) = Finite 127"
proof -
  have t: "lit (1 / 10) = Finite (rd (1 / 10))" by (rule lit_finite) simp_all
  have t': "lit (17 / 100) = Finite (rd (17 / 100))" by (rule lit_finite) simp_all
  have q: "0 \<le> rd (1 / 10)" "100 * rd (1 / 10) \<le> pow2 10"
    by (simp_all add: rd_tenth pow2_def)
  have q': "0 \<le> rd (17 / 100)" "100 * rd (17 / 100) \<le> pow2 10"
    by (simp_all add: rd_seventeen_hundredths pow2_def)
  have "js_mul (Finite 100) (Finite (rd (1 / 10))) = Finite (rd (100 * rd (1 / 10)))"
    using q by (intro js_mul_finite [where e = 10]) simp_all
  then show "js_mul (Finite 100) (lit (1 / 10)) = Finite 10"
    unfolding t rd_hundred_tenths by simp
  have "js_mul (Finite 100) (Finite (rd (17 / 100))) = Finite (rd (100 * rd (17 / 100)))"
    using q' by (intro js_mul_finite [where e = 10]) simp_all
  then show "js_mul (Finite 100) (lit (17 / 100)) = Finite 17"
    unfolding t' rd_hundred_seventeen by simp
  have "js_add (Finite 100) (Finite 10) = Finite 110"
    using js_add_finite [of 100 10 10] rd_of_int [of 110] by (simp add: pow2_def)
  moreover have "js_add (Finite 110) (Finite 17) = Finite 127"
    using js_add_finite [of 110 17 10] rd_of_int [of 127] by (simp add: pow2_def)
  ultimately show "js_add (js_add (Finite 100) (Finite 10)) (Finite 17) = Finite 127" by simp
qed

lemma relative_rounding:
  assumes "pow2 (- 1000) \<le> v" "v \<le> pow2 1000"
  shows "to_number False v = Finite (rd v)" and "\<bar>rd v - v\<bar> \<le> v / 2 ^ 53"
proof -
  have v: "0 < v" using assms(1) pow2_pos [of "- 1000"] by linarith
  then show "to_number False v = Finite (rd v)" using assms(2) by (intro to_number_small) simp_all
  have "pow2 (- 1022) \<le> pow2 (- 1000)" by (rule pow2_mono) simp
  with assms(1) v have "pow2 (- 1022) \<le> \<bar>v\<bar>" by simp
  from rd_relative_error [OF this] v show "\<bar>rd v - v\<bar> \<le> v / 2 ^ 53"
    by (simp add: pow2_def)
qed

lemma pow2_window:
  assumes "pow2 a \<le> x" "x \<le> pow2 b" "pow2 c \<le> y" "y \<le> pow2 d"
  shows "pow2 (a + c) \<le> x * y" and "x * y \<le> pow2 (b + d)"
proof -
  have x: "0 < x" using assms(1) pow2_pos [of a] by linarith
  have y: "0 < y" using assms(3) pow2_pos [of c] by linarith
  have "pow2 a * pow2 c \<le> x * y" using assms(1,3) x y by (intro mult_mono) simp_all
  then show "pow2 (a + c) \<le> x * y" by (simp add: pow2_add)
  have "x * y \<le> pow2 b * pow2 d" using assms(2,4) x y by (intro mult_mono) simp_all
  then show "x * y \<le> pow2 (b + d)" by (simp add: pow2_add)
qed

lemma mul_lit_near:
  assumes "pow2 (- 950) \<le> x" "x \<le> pow2 950" "1 / 100 \<le> q" "q \<le> 1"
  shows "\<exists>s. js_mul (Finite x) (lit q) = Finite s \<and> \<bar>s - x * q\<bar> \<le> x * q / 2 ^ 51
           \<and> x * q / 2 \<le> s \<and> s \<le> 2 * (x * q)"
proof -
  define t where "t = rd q"
  define P where "P = x * q"
  define R where "R = x * t"
  define s where "s = rd R"
  have x: "0 < x" using assms(1) pow2_pos [of "- 950"] by linarith
  have q: "0 < q" using assms(3) by simp
  have P: "0 < P" using x q by (simp add: P_def)
  have lt: "lit q = Finite t" unfolding t_def using assms(3,4) by (intro lit_finite) simp_all
  have "pow2 (- 1000) \<le> pow2 (- 7)" by (rule pow2_mono) simp
  also have "\<dots> \<le> q" using assms(3) by (simp add: pow2_def)
  finally have "pow2 (- 1000) \<le> q" .
  moreover have "q \<le> pow2 1000" using assms(4) by (intro small_le_pow2) simp
  ultimately have tq: "\<bar>t - q\<bar> \<le> q / 2 ^ 53" unfolding t_def by (rule relative_rounding)
  have "q / 2 ^ 53 \<le> q / 2" using q by (simp add: field_simps)
  with tq have t: "q / 2 \<le> t" "t \<le> 2 * q" using q by linarith+
  have t8: "pow2 (- 8) \<le> t" "t \<le> pow2 1" using t assms(3,4) by (simp_all add: pow2_def)
  have window: "pow2 (- 950 + - 8) \<le> x * t" "x * t \<le> pow2 (950 + 1)"
    using assms(1,2) t8 by (rule pow2_window)+
  have "pow2 (- 1000) \<le> pow2 (- 950 + - 8)" by (rule pow2_mono) simp
  with window(1) have lo: "pow2 (- 1000) \<le> R" unfolding R_def by linarith
  have "pow2 (950 + 1) \<le> pow2 1000" by (rule pow2_mono) simp
  with window(2) have hi: "R \<le> pow2 1000" unfolding R_def by linarith
  have fin: "to_number False R = Finite s" and sR: "\<bar>s - R\<bar> \<le> R / 2 ^ 53"
    unfolding s_def using lo hi by (rule relative_rounding)+
  have mul: "js_mul (Finite x) (lit q) = Finite s"
    using fin x t q by (simp add: lt js_mul_def R_def)
  have "\<bar>R - P\<bar> = x * \<bar>t - q\<bar>"
    using x by (simp add: R_def P_def abs_mult flip: right_diff_distrib)
  also have "\<dots> \<le> x * (q / 2 ^ 53)" using tq x by (intro mult_left_mono) simp_all
  finally have RP: "\<bar>R - P\<bar> \<le> P / 2 ^ 53" by (simp add: P_def)
  have "P / 2 ^ 53 \<le> P / 2" using P by (simp add: field_simps)
  with RP have R2: "R \<le> 2 * P" using P by linarith
  then have "R / 2 ^ 53 \<le> 2 * P / 2 ^ 53" by (intro divide_right_mono) simp_all
  with sR RP have "\<bar>s - P\<bar> \<le> 3 * P / 2 ^ 53" by linarith
  moreover have "3 * P / 2 ^ 53 \<le> P / 2 ^ 51" using P by (simp add: field_simps)
  ultimately have near: "\<bar>s - P\<bar> \<le> P / 2 ^ 51" by linarith
  have "P / 2 ^ 51 \<le> P / 2" using P by (simp add: field_simps)
  with near have "P / 2 \<le> s" "s \<le> 2 * P" using P by linarith+
  with mul near show ?thesis unfolding P_def by blast
qed

lemma add_near:
  assumes "0 \<le> a" "0 \<le> b" "pow2 (- 1000) \<le> a + b" "a + b \<le> pow2 1000"
  shows "\<exists>w. js_add (Finite a) (Finite b) = Finite w \<and> \<bar>w - (a + b)\<bar> \<le> (a + b) / 2 ^ 53"
proof -
  have "to_number False (a + b) = Finite (rd (a + b))"
    and "\<bar>rd (a + b) - (a + b)\<bar> \<le> (a + b) / 2 ^ 53"
    using assms(3,4) by (rule relative_rounding)+
  then show ?thesis using assms(1,2) by (simp add: js_add_def)
qed

lemma estimate_near:
  assumes "pow2 (- 900) \<le> x" "x \<le> pow2 900"
  shows "\<exists>s d m v T.
           js_mul (Finite x) (lit (1 / 10)) = Finite s
         \<and> (if f then js_mul (Finite x) (lit (17 / 100)) else lit 0) = Finite d
         \<and> js_mul (Finite d) (lit (3 / 10)) = Finite m
         \<and> js_mul (Finite d) (lit (7 / 10)) = Finite v
         \<and> js_add (js_add (Finite x) (Finite s)) (Finite d) = Finite T
         \<and> \<bar>s - x * (10 / 100)\<bar> \<le> x / 2 ^ 50
         \<and> \<bar>d - (if f then x * (17 / 100) else 0)\<bar> \<le> x / 2 ^ 50
         \<and> \<bar>m - d * (30 / 100)\<bar> \<le> x / 2 ^ 50
         \<and> \<bar>v - d * (70 / 100)\<bar> \<le> x / 2 ^ 50
         \<and> \<bar>T - (x + s + d)\<bar> \<le> x / 2 ^ 50"
proof -
  have x: "0 < x" using assms(1) pow2_pos [of "- 900"] by linarith
  have "pow2 (- 950) \<le> pow2 (- 900)" by (rule pow2_mono) simp
  with assms(1) have lo: "pow2 (- 950) \<le> x" by linarith
  have "pow2 900 \<le> pow2 950" by (rule pow2_mono) simp
  with assms(2) have hi: "x \<le> pow2 950" by linarith
  have scale: "c * x / 2 ^ 51 \<le> x / 2 ^ 50" if "c \<le> 2" for c
  proof -
    have "c * x \<le> 2 * x" using that x by (intro mult_right_mono) simp_all
    then have "c * x / 2 ^ 51 \<le> 2 * x / 2 ^ 51" by (intro divide_right_mono) simp_all
    then show ?thesis by simp
  qed
  from mul_lit_near [OF lo hi, of "1 / 10"] obtain s
    where s: "js_mul (Finite x) (lit (1 / 10)) = Finite s"
      and "\<bar>s - x * (1 / 10)\<bar> \<le> x * (1 / 10) / 2 ^ 51"
      and "x * (1 / 10) / 2 \<le> s" and "s \<le> 2 * (x * (1 / 10))"
    by auto
  then have s1: "\<bar>s - x / 10\<bar> \<le> (1 / 10) * x / 2 ^ 51" and s2: "x / 20 \<le> s" "s \<le> x / 5"
    by simp_all
  have s3: "\<bar>s - x / 10\<bar> \<le> x / 2 ^ 50" using s1 scale [of "1 / 10"] by simp
  have pool: "\<exists>d m v. (if f then js_mul (Finite x) (lit (17 / 100)) else lit 0) = Finite d
         \<and> js_mul (Finite d) (lit (3 / 10)) = Finite m
         \<and> js_mul (Finite d) (lit (7 / 10)) = Finite v
         \<and> 0 \<le> d \<and> d \<le> x
         \<and> \<bar>d - (if f then x * (17 / 100) else 0)\<bar> \<le> x / 2 ^ 50
         \<and> \<bar>m - d * (30 / 100)\<bar> \<le> x / 2 ^ 50
         \<and> \<bar>v - d * (70 / 100)\<bar> \<le> x / 2 ^ 50"
  proof (cases f)
    case True
    from mul_lit_near [OF lo hi, of "17 / 100"] obtain d
      where d: "js_mul (Finite x) (lit (17 / 100)) = Finite d"
        and "\<bar>d - x * (17 / 100)\<bar> \<le> x * (17 / 100) / 2 ^ 51"
        and "x * (17 / 100) / 2 \<le> d" and "d \<le> 2 * (x * (17 / 100))"
      by auto
    then have d1: "\<bar>d - x * (17 / 100)\<bar> \<le> (17 / 100) * x / 2 ^ 51"
      and d2: "x * (17 / 200) \<le> d" "d \<le> x * (34 / 100)"
      by simp_all
    have d3: "\<bar>d - x * (17 / 100)\<bar> \<le> x / 2 ^ 50" using d1 scale [of "17 / 100"] by simp
    have dx: "0 < d" "d \<le> x" using d2 x by linarith+
    have "pow2 (- 900 + - 4) \<le> x * (17 / 200)"
      using assms(1) by (intro pow2_window(1) [where b = 900 and d = 0])
        (simp_all add: assms(2), simp_all add: pow2_def)
    moreover have "pow2 (- 950) \<le> pow2 (- 900 + - 4)" by (rule pow2_mono) simp
    ultimately have dlo: "pow2 (- 950) \<le> d" using d2(1) by linarith
    have dhi: "d \<le> pow2 950" using dx(2) hi by linarith
    from mul_lit_near [OF dlo dhi, of "3 / 10"] obtain m
      where m: "js_mul (Finite d) (lit (3 / 10)) = Finite m"
        and "\<bar>m - d * (3 / 10)\<bar> \<le> d * (3 / 10) / 2 ^ 51"
      by auto
    then have m1: "\<bar>m - d * (3 / 10)\<bar> \<le> (3 / 10) * d / 2 ^ 51" by simp
    from mul_lit_near [OF dlo dhi, of "7 / 10"] obtain v
      where v: "js_mul (Finite d) (lit (7 / 10)) = Finite v"
        and "\<bar>v - d * (7 / 10)\<bar> \<le> d * (7 / 10) / 2 ^ 51"
      by auto
    then have v1: "\<bar>v - d * (7 / 10)\<bar> \<le> (7 / 10) * d / 2 ^ 51" by simp
    have dscale: "c * d / 2 ^ 51 \<le> x / 2 ^ 50" if "0 \<le> c" "c \<le> 2" for c
    proof -
      have "c * d \<le> c * x" using that dx by (intro mult_left_mono) simp_all
      then have "c * d / 2 ^ 51 \<le> c * x / 2 ^ 51" by (intro divide_right_mono) simp_all
      with scale [OF that(2)] show ?thesis by linarith
    qed
    have m2: "\<bar>m - d * (3 / 10)\<bar> \<le> x / 2 ^ 50" using m1 dscale [of "3 / 10"] by simp
    have v2: "\<bar>v - d * (7 / 10)\<bar> \<le> x / 2 ^ 50" using v1 dscale [of "7 / 10"] by simp
    show ?thesis using True d m v dx d3 m2 v2 by auto
  next
    case False
    have z: "js_mul (Finite 0) (lit q) = Finite 0" if "1 / 100 \<le> q" "q \<le> 4" for q
    proof -
      from lit_positive [OF that] obtain t where t: "lit q = Finite t" "0 < t" by blast
      have "js_mul (Finite 0) (Finite t) = Finite (rd (0 * t))"
        using t(2) by (intro js_mul_finite [where e = 0]) simp_all
      then show ?thesis by (simp add: t(1))
    qed
    show ?thesis using False x z [of "3 / 10"] z [of "7 / 10"] by simp
  qed
  then obtain d m v
    where d: "(if f then js_mul (Finite x) (lit (17 / 100)) else lit 0) = Finite d"
      and m: "js_mul (Finite d) (lit (3 / 10)) = Finite m"
      and v: "js_mul (Finite d) (lit (7 / 10)) = Finite v"
      and dx: "0 \<le> d" "d \<le> x"
      and near: "\<bar>d - (if f then x * (17 / 100) else 0)\<bar> \<le> x / 2 ^ 50"
         "\<bar>m - d * (30 / 100)\<bar> \<le> x / 2 ^ 50" "\<bar>v - d * (70 / 100)\<bar> \<le> x / 2 ^ 50"
    by blast
  have two: "pow2 900 + pow2 900 = pow2 901" using pow2_add [of 900 1] by (simp add: pow2_def)
  have up: "pow2 901 \<le> pow2 1000" "pow2 (- 1000) \<le> pow2 (- 900)" by (rule pow2_mono; simp)+
  have "pow2 (- 1000) \<le> x + s" "x + s \<le> pow2 1000"
    using assms s2 x two up by linarith+
  from add_near [OF _ _ this] obtain w
    where w: "js_add (Finite x) (Finite s) = Finite w"
      and w1: "\<bar>w - (x + s)\<bar> \<le> (x + s) / 2 ^ 53"
    using x s2 by auto
  have "(x + s) / 2 ^ 53 \<le> 2 * x / 2 ^ 53" using s2 x by (intro divide_right_mono) simp_all
  with w1 have w2: "\<bar>w - (x + s)\<bar> \<le> 2 * x / 2 ^ 53" by linarith
  have "2 * x / 2 ^ 53 \<le> x / 20" using x by (simp add: field_simps)
  with w2 s2 have w3: "x \<le> w" "w \<le> 2 * x" using x by linarith+
  have four: "pow2 900 * 4 = pow2 902" using pow2_add [of 900 2] by (simp add: pow2_def)
  have "pow2 902 \<le> pow2 1000" by (rule pow2_mono) simp
  then have "pow2 (- 1000) \<le> w + d" "w + d \<le> pow2 1000"
    using assms w3 dx x four up by linarith+
  from add_near [OF _ _ this] obtain T
    where T: "js_add (Finite w) (Finite d) = Finite T"
      and T1: "\<bar>T - (w + d)\<bar> \<le> (w + d) / 2 ^ 53"
    using x w3 dx by auto
  have "(w + d) / 2 ^ 53 \<le> 3 * x / 2 ^ 53" using w3 dx by (intro divide_right_mono) simp_all
  with T1 w2 have "\<bar>T - (x + s + d)\<bar> \<le> 5 * x / 2 ^ 53" by linarith
  moreover have "5 * x / 2 ^ 53 \<le> x / 2 ^ 50" using x by (simp add: field_simps)
  ultimately have T2: "\<bar>T - (x + s + d)\<bar> \<le> x / 2 ^ 50" by linarith
  have s4: "\<bar>s - x * (10 / 100)\<bar> \<le> x / 2 ^ 50" using s3 by simp
  show ?thesis using s d m v w T s4 near T2 by auto
qed

text \<open>
  C3.  For a listing with no precomputed total landed cost (it carries no international
  breakdown), the calculation attaches a breakdown in which, every product and sum being
  the floating-point one: the shipping cost is the base price times 0.1; import duty and VAT
  are 0.3 and 0.7 times a pool, which is the base price times 0.17 when fees are included and
  0 otherwise; the total landed cost is base plus shipping plus pool, which is exactly 127
  for a base price of 100 with fees; the standard delivery takes 14 days; and the three risk
  flags are set.  For a base price x between \<open>2^-900\<close> and \<open>2^900\<close> all these amounts are
  finite, and each is within \<open>x / 2^50\<close> of the exact value: of 10% of x, of 17% of x (or 0),
  of 30% and 70% of the pool, and of the sum of base, shipping and pool.
\<close>

theorem C3_estimated_breakdown:
  assumes "international (pricing p) = None"
  shows "\<exists>i pool.
           international (pricing (calculateTotalCost p userCountry includeAllFees)) = Some i
         \<and> pool = (if includeAllFees then js_mul (amount (base (pricing p))) (lit (17 / 100))
                     else lit 0)
         \<and> cost (shipping i) = js_mul (amount (base (pricing p))) (lit (10 / 100))
         \<and> import_duty (fees i) = js_mul pool (lit (30 / 100))
         \<and> vat (fees i) = js_mul pool (lit (70 / 100))
         \<and> total_landed_cost i = js_add (js_add (amount (base (pricing p))) (cost (shipping i))) pool
         \<and> (amount (base (pricing p)) = lit 100 \<and> includeAllFees
                \<longrightarrow> total_landed_cost i = lit 127)
         \<and> standard (estimated_days (shipping i)) = lit 14
         \<and> customs_delay (risks i) \<and> warranty_void (risks i) \<and> return_difficult (risks i)
         \<and> (\<forall>x. amount (base (pricing p)) = Finite x \<and> pow2 (- 900) \<le> x \<and> x \<le> pow2 900
                \<longrightarrow> (\<exists>s d m v T.
                       cost (shipping i) = Finite s \<and> pool = Finite d
                     \<and> import_duty (fees i) = Finite m \<and> vat (fees i) = Finite v
                     \<and> total_landed_cost i = Finite T
                     \<and> \<bar>s - x * (10 / 100)\<bar> \<le> x / 2 ^ 50
                     \<and> \<bar>d - (if includeAllFees then x * (17 / 100) else 0)\<bar> \<le> x / 2 ^ 50
                     \<and> \<bar>m - d * (30 / 100)\<bar> \<le> x / 2 ^ 50
                     \<and> \<bar>v - d * (70 / 100)\<bar> \<le> x / 2 ^ 50
                     \<and> \<bar>T - (x + s + d)\<bar> \<le> x / 2 ^ 50))"
proof -
  define b where "b = amount (base (pricing p))"
  define pool where "pool = (if includeAllFees then js_mul b (lit (17 / 100)) else lit 0)"
  define i where "i =
     \<lparr>shipping =
        \<lparr>shipping_available = True,
         cost = js_mul b (lit (1 / 10)),
         express_cost = None,
         free_threshold = None,
         estimated_days = \<lparr>standard = lit 14, express = None\<rparr>\<rparr>,
      fees =
        \<lparr>import_duty = js_mul pool (lit (3 / 10)),
         vat = js_mul pool (lit (7 / 10)),
         handling = lit 0,
         customs_clearance = lit 0\<rparr>,
      total_landed_cost = js_add (js_add b (js_mul b (lit (1 / 10)))) pool,
      risks = \<lparr>customs_delay = True, warranty_void = True, return_difficult = True\<rparr>\<rparr>"
  from assms have no: "\<not> has_total_landed_cost p"
    by (simp add: has_total_landed_cost_def)
  have attached: "international (pricing (calculateTotalCost p userCountry includeAllFees)) = Some i"
    using no by (simp add: calculateTotalCost_def Let_def i_def pool_def b_def)
  have fields: "cost (shipping i) = js_mul b (lit (10 / 100))"
    "import_duty (fees i) = js_mul pool (lit (30 / 100))"
    "vat (fees i) = js_mul pool (lit (70 / 100))"
    "total_landed_cost i = js_add (js_add b (cost (shipping i))) pool"
    "standard (estimated_days (shipping i)) = lit 14"
    "customs_delay (risks i)" "warranty_void (risks i)" "return_difficult (risks i)"
    by (simp_all add: i_def)
  have exact: "total_landed_cost i = lit 127" if "b = lit 100" "includeAllFees"
  proof -
    have "lit 127 = Finite 127" using lit_of_int [of 127] by simp
    then show ?thesis using that by (simp add: i_def pool_def estimate_of_100)
  qed
  have near: "\<exists>s d m v T.
                       cost (shipping i) = Finite s \<and> pool = Finite d
                     \<and> import_duty (fees i) = Finite m \<and> vat (fees i) = Finite v
                     \<and> total_landed_cost i = Finite T
                     \<and> \<bar>s - x * (10 / 100)\<bar> \<le> x / 2 ^ 50
                     \<and> \<bar>d - (if includeAllFees then x * (17 / 100) else 0)\<bar> \<le> x / 2 ^ 50
                     \<and> \<bar>m - d * (30 / 100)\<bar> \<le> x / 2 ^ 50
                     \<and> \<bar>v - d * (70 / 100)\<bar> \<le> x / 2 ^ 50
                     \<and> \<bar>T - (x + s + d)\<bar> \<le> x / 2 ^ 50"
    if "b = Finite x" "pow2 (- 900) \<le> x" "x \<le> pow2 900" for x
  proof -
    from estimate_near [OF that(2,3), of includeAllFees] obtain s d m v T
      where eqs: "js_mul (Finite x) (lit (1 / 10)) = Finite s"
        "(if includeAllFees then js_mul (Finite x) (lit (17 / 100)) else lit 0) = Finite d"
        "js_mul (Finite d) (lit (3 / 10)) = Finite m"
        "js_mul (Finite d) (lit (7 / 10)) = Finite v"
        "js_add (js_add (Finite x) (Finite s)) (Finite d) = Finite T"
        and bounds: "\<bar>s - x * (10 / 100)\<bar> \<le> x / 2 ^ 50"
        "\<bar>d - (if includeAllFees then x * (17 / 100) else 0)\<bar> \<le> x / 2 ^ 50"
        "\<bar>m - d * (30 / 100)\<bar> \<le> x / 2 ^ 50"
        "\<bar>v - d * (70 / 100)\<bar> \<le> x / 2 ^ 50"
        "\<bar>T - (x + s + d)\<bar> \<le> x / 2 ^ 50"
      by blast
    have p: "pool = Finite d" using eqs(2) that(1) by (simp add: pool_def split: if_splits)
    have "cost (shipping i) = Finite s" "pool = Finite d"
      "import_duty (fees i) = Finite m" "vat (fees i) = Finite v" "total_landed_cost i = Finite T"
      using eqs(1,3,4,5) that(1) by (simp_all add: i_def p)
    with bounds show ?thesis by blast
  qed
  show ?thesis
    using attached fields exact near unfolding b_def [symmetric] pool_def [symmetric]
    by blast
qed

theorem C3_estimated_breakdown_witness:
  "international (pricing (plain_listing ''g1'' ''grp'' GLOBAL (lit 100))) = None
   \<and> (\<exists>i. international
              (pricing (calculateTotalCost (plain_listing ''g1'' ''grp'' GLOBAL (lit 100)) IL True))
            = Some i
          \<and> cost (shipping i) = js_mul (lit 100) (lit (10 / 100))
          \<and> total_landed_cost i = lit 127
          \<and> \<bar>value_of (cost (shipping i)) - 10\<bar> \<le> 100 / 2 ^ 50
          \<and> \<bar>value_of (import_duty (fees i)) + value_of (vat (fees i)) - 17\<bar> \<le> 400 / 2 ^ 50)"
proof -
  define L where "L = plain_listing ''g1'' ''grp'' GLOBAL (lit 100)"
  have none: "international (pricing L) = None"
    by (simp add: L_def plain_listing_def)
  have price: "amount (base (pricing L)) = lit 100" "amount (base (pricing L)) = Finite 100"
    by (simp_all add: L_def plain_listing_def)
  have range: "pow2 (- 900) \<le> 100" "100 \<le> pow2 900"
  proof -
    have "pow2 (- 900) \<le> pow2 0" by (rule pow2_mono) simp
    then show "pow2 (- 900) \<le> 100" by (simp add: pow2_def)
    have "pow2 7 \<le> pow2 900" by (rule pow2_mono) simp
    then show "100 \<le> pow2 900" by (simp add: pow2_def)
  qed
  from C3_estimated_breakdown [OF none, of IL True]
  obtain i pool where est:
    "international (pricing (calculateTotalCost L IL True)) = Some i"
    "cost (shipping i) = js_mul (amount (base (pricing L))) (lit (10 / 100))"
    "amount (base (pricing L)) = lit 100 \<and> True \<longrightarrow> total_landed_cost i = lit 127"
    "\<forall>x. amount (base (pricing L)) = Finite x \<and> pow2 (- 900) \<le> x \<and> x \<le> pow2 900
                \<longrightarrow> (\<exists>s d m v T.
                       cost (shipping i) = Finite s \<and> pool = Finite d
                     \<and> import_duty (fees i) = Finite m \<and> vat (fees i) = Finite v
                     \<and> total_landed_cost i = Finite T
                     \<and> \<bar>s - x * (10 / 100)\<bar> \<le> x / 2 ^ 50
                     \<and> \<bar>d - (if True then x * (17 / 100) else 0)\<bar> \<le> x / 2 ^ 50
                     \<and> \<bar>m - d * (30 / 100)\<bar> \<le> x / 2 ^ 50
                     \<and> \<bar>v - d * (70 / 100)\<bar> \<le> x / 2 ^ 50
                     \<and> \<bar>T - (x + s + d)\<bar> \<le> x / 2 ^ 50)"
    by blast
  from est(4) price(2) range obtain s d m v
    where vals: "cost (shipping i) = Finite s" "import_duty (fees i) = Finite m"
      "vat (fees i) = Finite v"
      and b: "\<bar>s - 100 * (10 / 100)\<bar> \<le> 100 / 2 ^ 50"
        "\<bar>d - 100 * (17 / 100)\<bar> \<le> 100 / 2 ^ 50"
        "\<bar>m - d * (30 / 100)\<bar> \<le> 100 / 2 ^ 50"
        "\<bar>v - d * (70 / 100)\<bar> \<le> 100 / 2 ^ 50"
    by fastforce
  have "\<bar>s - 10\<bar> \<le> 100 / 2 ^ 50" using b(1) by simp
  moreover have "\<bar>d - 17\<bar> \<le> 100 / 2 ^ 50" using b(2) by simp
  then have "\<bar>m + v - 17\<bar> \<le> 400 / 2 ^ 50" using b(3,4) by linarith
  ultimately have "\<bar>value_of (cost (shipping i)) - 10\<bar> \<le> 100 / 2 ^ 50"
    "\<bar>value_of (import_duty (fees i)) + value_of (vat (fees i)) - 17\<bar> \<le> 400 / 2 ^ 50"
    by (simp_all add: vals)
  moreover have "total_landed_cost i = lit 127" using est(3) price(1) by simp
  moreover have "cost (shipping i) = js_mul (lit 100) (lit (10 / 100))"
    using est(2) price(1) by simp
  ultimately show ?thesis using est(1) none unfolding L_def by blast
qed



section \<open>Properties of the cache key\<close>

lemma sort_same_up_to_order:
  "same_up_to_order a b \<Longrightarrow>
   (case a of None \<Rightarrow> [] | Some xs \<Rightarrow> if xs \<noteq> [] then [tag @ join (sort xs) '',''] else []) =
   (case b of None \<Rightarrow> [] | Some xs \<Rightarrow> if xs \<noteq> [] then [tag @ join (sort xs) '',''] else [])"
proof (cases a; cases b)
  fix xs ys
  assume a: "a = Some xs" and b: "b = Some ys" and same: "same_up_to_order a b"
  from same a b have m: "mset xs = mset ys" by (simp add: same_up_to_order_def)
  have "sort xs = sort ys"
    by (rule properties_for_sort) (simp_all add: m)
  moreover have "xs = [] \<longleftrightarrow> ys = []"
    using m by (metis mset_zero_iff)
  ultimately show ?thesis using a b by simp
qed (simp_all add: same_up_to_order_def)

lemma filter_keyParts_permuted:
  assumes "permuted_filters (Some f) (Some g)"
  shows "filter_keyParts fmt f = filter_keyParts fmt g"
proof -
  from assms have g: "g = f\<lparr>shops := shops g, categories := categories g, brands := brands g\<rparr>"
    and s: "same_up_to_order (shops f) (shops g)"
    and c: "same_up_to_order (categories f) (categories g)"
    and b: "same_up_to_order (brands f) (brands g)"
    by (simp_all add: permuted_filters_def)
  have scalars: "min_price g = min_price f" "max_price g = max_price f"
    "in_stock g = in_stock f" "min_rating g = min_rating f"
    by (subst g, simp)+
  show ?thesis
    unfolding filter_keyParts_def scalars
      sort_same_up_to_order [OF s, of "''shops:''"]
      sort_same_up_to_order [OF c, of "''categories:''"]
      sort_same_up_to_order [OF b, of "''brands:''"]
    by (rule refl)
qed

lemma filters_keyParts_permuted:
  assumes "permuted_filters a b"
  shows "(case a of None \<Rightarrow> [] | Some f \<Rightarrow> filter_keyParts fmt f) =
         (case b of None \<Rightarrow> [] | Some f \<Rightarrow> filter_keyParts fmt f)"
proof (cases a; cases b)
  fix f g assume "a = Some f" "b = Some g"
  with assms show ?thesis by (simp add: filter_keyParts_permuted)
qed (use assms in \<open>simp_all add: permuted_filters_def\<close>)

lemma keyParts_permuted:
  "permuted_request r r' \<Longrightarrow> keyParts fmt r = keyParts fmt r'"
proof (induction r r' rule: permuted_request.induct)
  case (1 r r')
  then have eq: "r' = r\<lparr>filters := filters r'\<rparr>" and p: "permuted_filters (filters r) (filters r')"
    by simp_all
  have "common_keyParts fmt r' = common_keyParts fmt r" "country r' = country r"
    by (subst eq, simp add: common_keyParts_def)+
  with filters_keyParts_permuted [OF p, of fmt] show ?case by simp
next
  case (2 r r')
  then have eq: "r' = r\<lparr>filters := filters r'\<rparr>" and p: "permuted_filters (filters r) (filters r')"
    by simp_all
  have "common_keyParts fmt r' = common_keyParts fmt r" "user_country r' = user_country r"
    by (subst eq, simp add: common_keyParts_def)+
  with filters_keyParts_permuted [OF p, of fmt] show ?case by simp
qed simp_all

text \<open>
  C5.  For a search request of either kind and a second request that differs from it only in
  the order of the values of its shops, categories and brands filters, the cache key builder
  yields the same key, for the local and the global namespace alike.
\<close>

theorem C5_key_order_independent:
  "permuted_request r r' \<Longrightarrow>
   buildSearchCacheKey fmt kind r = buildSearchCacheKey fmt kind r'"
  by (simp add: buildSearchCacheKey_def keyParts_permuted [of r r' fmt])

theorem C5_key_order_independent_witness:
  "permuted_request
     (OfLocal (local_request ''Headphones''
        (Some (list_filters (Some [''ksp.co.il'', ''bug.co.il'']) None (Some [''Sony'', ''Bose''])))
        None))
     (OfLocal (local_request ''Headphones''
        (Some (list_filters (Some [''bug.co.il'', ''ksp.co.il'']) None (Some [''Bose'', ''Sony''])))
        None))
   \<and> buildSearchCacheKey integer_format KindLocal
       (OfLocal (local_request ''Headphones''
          (Some (list_filters (Some [''ksp.co.il'', ''bug.co.il'']) None (Some [''Sony'', ''Bose''])))
          None))
     = buildSearchCacheKey integer_format KindLocal
       (OfLocal (local_request ''Headphones''
          (Some (list_filters (Some [''bug.co.il'', ''ksp.co.il'']) None (Some [''Bose'', ''Sony''])))
          None))"
proof -
  have p: "permuted_request
     (OfLocal (local_request ''Headphones''
        (Some (list_filters (Some [''ksp.co.il'', ''bug.co.il'']) None (Some [''Sony'', ''Bose''])))
        None))
     (OfLocal (local_request ''Headphones''
        (Some (list_filters (Some [''bug.co.il'', ''ksp.co.il'']) None (Some [''Bose'', ''Sony''])))
        None))"
    by (simp add: local_request_def list_filters_def no_filters_def permuted_filters_def
        same_up_to_order_def)
  from p C5_key_order_independent [OF p, of integer_format KindLocal] show ?thesis by simp
qed




section \<open>Properties of smart-deal detection\<close>

lemma js_sub_finite:
  assumes "0 \<le> b" "b < a" "a - b \<le> pow2 e" "- 1022 \<le> e" "e \<le> 1000"
  shows "js_sub (Finite a) (Finite b) = Finite (rd (a - b))"
proof -
  have "to_number False (a - b) = Finite (rd (a - b))"
    using assms by (intro to_number_bounded(1) [where e = e]) simp_all
  with assms(1,2) show ?thesis by (cases "b = 0") (auto simp: js_sub_def js_add_def)
qed

lemma rd_numeral [simp]: "rd 5 = 5" "rd 15 = 15"
  using rd_of_int [of 5] rd_of_int [of 15] by simp_all

lemma rd_twentieth: "rd (5 / 100) = 7205759403792794 / 2 ^ 57"
  using rd_at [of "- 5" "5 / 100" 7205759403792794]
  by (simp add: pow2_def round_half_even_def Let_def)

lemma rd_fifteen_hundredths: "rd (15 / 100) = 5404319552844595 / 2 ^ 55"
  using rd_at [of "- 3" "15 / 100" 5404319552844595]
  by (simp add: pow2_def round_half_even_def Let_def)

lemma rd_twentieth_hundred: "rd (rd (5 / 100) * 100) = 5"
  unfolding rd_twentieth
  using rd_at [of 2 "7205759403792794 / 2 ^ 57 * 100" 5629499534213120]
  by (simp add: pow2_def round_half_even_def Let_def)

lemma rd_fifteen_hundredths_hundred: "rd (rd (15 / 100) * 100) = 15"
  unfolding rd_fifteen_hundredths
  using rd_at [of 3 "5404319552844595 / 2 ^ 55 * 100" 8444249301319680]
  by (simp add: pow2_def round_half_even_def Let_def)

lemma lit_prices [simp]: "lit 85 = Finite 85" "lit 95 = Finite 95" "lit 70 = Finite 70" "lit 90 = Finite 90"
  using lit_of_int [of 85] lit_of_int [of 95] lit_of_int [of 70] lit_of_int [of 90] by simp_all

lemma savings_percent_100_85:
  "js_mul (js_div (js_sub (Finite 100) (Finite 85)) (Finite 100)) (Finite 100) = Finite 15"
proof -
  have s: "js_sub (Finite 100) (Finite 85) = Finite 15"
    using js_sub_finite [of 85 100 10] by (simp add: pow2_def)
  have d: "js_div (Finite 15) (Finite 100) = Finite (rd (15 / 100))"
    by (rule js_div_finite [where e = 0]) (simp_all add: pow2_def)
  have q: "0 \<le> rd (15 / 100)" "rd (15 / 100) * 100 \<le> pow2 10"
    unfolding rd_fifteen_hundredths by (simp_all add: pow2_def)
  have "js_mul (Finite (rd (15 / 100))) (Finite 100) = Finite (rd (rd (15 / 100) * 100))"
    using q by (intro js_mul_finite [where e = 10]) simp_all
  then show ?thesis unfolding s d rd_fifteen_hundredths_hundred .
qed

lemma savings_percent_100_95:
  "js_mul (js_div (js_sub (Finite 100) (Finite 95)) (Finite 100)) (Finite 100) = Finite 5"
proof -
  have s: "js_sub (Finite 100) (Finite 95) = Finite 5"
    using js_sub_finite [of 95 100 10] by (simp add: pow2_def)
  have d: "js_div (Finite 5) (Finite 100) = Finite (rd (5 / 100))"
    by (rule js_div_finite [where e = 0]) (simp_all add: pow2_def)
  have q: "0 \<le> rd (5 / 100)" "rd (5 / 100) * 100 \<le> pow2 10"
    unfolding rd_twentieth by (simp_all add: pow2_def)
  have "js_mul (Finite (rd (5 / 100))) (Finite 100) = Finite (rd (rd (5 / 100) * 100))"
    using q by (intro js_mul_finite [where e = 10]) simp_all
  then show ?thesis unfolding s d rd_twentieth_hundred .
qed

section \<open>Properties of the mock searches\<close>

lemma set_js_slice: "set (js_slice xs i j) \<subseteq> set xs"
proof -
  have "set (take n (drop m xs)) \<subseteq> set xs" for n m
    using set_take_subset [of n "drop m xs"] set_drop_subset [of m xs] by blast
  then show ?thesis by (simp add: js_slice_def Let_def)
qed

lemma set_insert_by: "set (insert_by cmp x xs) = insert x (set xs)"
  by (induction xs) auto

lemma set_sort_with: "set (sort_with cmp xs) = set xs"
  unfolding sort_with_def by (induction xs) (simp_all add: set_insert_by)

text \<open>
  C10.  Every listing in the results of the mock provider's global search is a listing of
  the store whose \<open>ships_to\<close> contains the user's country, whatever the query, the filters
  and the page.
\<close>

theorem C10_global_results_ship_to_user:
  "\<forall>p \<in> set (results (MockDataService_searchGlobal allProducts elapsed queryText userCountry
                         fs pageNo perPage)).
     p \<in> set allProducts \<and> userCountry \<in> set (ships_to (shop_info p))"
proof
  fix p
  assume "p \<in> set (results (MockDataService_searchGlobal allProducts elapsed queryText
                              userCountry fs pageNo perPage))"
  then obtain cmp i j where "p \<in> set (js_slice (sort_with cmp (filter (\<lambda>p.
             if shop_type (shop_info p) \<noteq> GLOBAL then False
             else if userCountry \<notin> set (ships_to (shop_info p)) then False
             else if \<not> matchesQuery (toLowerCase queryText) p then False
             else passes_filters fs p) allProducts)) i j)"
    by (simp add: MockDataService_searchGlobal_def Let_def)
  then have "p \<in> set (filter (\<lambda>p.
             if shop_type (shop_info p) \<noteq> GLOBAL then False
             else if userCountry \<notin> set (ships_to (shop_info p)) then False
             else if \<not> matchesQuery (toLowerCase queryText) p then False
             else passes_filters fs p) allProducts)"
    using set_js_slice set_sort_with by fast
  then show "p \<in> set allProducts \<and> userCountry \<in> set (ships_to (shop_info p))"
    by (auto split: if_splits)
qed

lemma headphones_match:
  "matchesQuery (toLowerCase ''headphones'') (plain_listing ident grp kind price)"
  by (simp add: matchesQuery_def plain_listing_def toLowerCase_def lower_char_def
      capital_letters_def small_letters_def)

lemma headphones_match_us_only:
  "matchesQuery (toLowerCase ''headphones'') (us_only_listing ident grp price)"
  by (simp add: matchesQuery_def us_only_listing_def plain_listing_def toLowerCase_def
      lower_char_def capital_letters_def small_letters_def)

theorem C10_global_results_ship_to_user_witness:
  "results (MockDataService_searchGlobal
      [us_only_listing ''g2'' ''grp'' (lit 70), plain_listing ''g1'' ''grp'' GLOBAL (lit 85)]
      (lit 0) ''headphones'' ''IL'' None 1 10)
     = [plain_listing ''g1'' ''grp'' GLOBAL (lit 85)]
   \<and> ''IL'' \<in> set (ships_to (shop_info (plain_listing ''g1'' ''grp'' GLOBAL (lit 85))))"
proof -
  have shown: "results (MockDataService_searchGlobal
      [us_only_listing ''g2'' ''grp'' (lit 70), plain_listing ''g1'' ''grp'' GLOBAL (lit 85)]
      (lit 0) ''headphones'' ''IL'' None 1 10)
     = [plain_listing ''g1'' ''grp'' GLOBAL (lit 85)]"
    by (simp add: MockDataService_searchGlobal_def Let_def headphones_match
        headphones_match_us_only passes_filters_def js_slice_def sort_with_def)
       (simp add: us_only_listing_def plain_listing_def)
  then have "plain_listing ''g1'' ''grp'' GLOBAL (lit 85) \<in> set (results (MockDataService_searchGlobal
      [us_only_listing ''g2'' ''grp'' (lit 70), plain_listing ''g1'' ''grp'' GLOBAL (lit 85)]
      (lit 0) ''headphones'' ''IL'' None 1 10))"
    by simp
  with C10_global_results_ship_to_user
    [of "[us_only_listing ''g2'' ''grp'' (lit 70), plain_listing ''g1'' ''grp'' GLOBAL (lit 85)]"
        "lit 0" "''headphones''" "''IL''" None 1 10]
  have "''IL'' \<in> set (ships_to (shop_info (plain_listing ''g1'' ''grp'' GLOBAL (lit 85))))"
    by blast
  with shown show ?thesis by simp
qed

section \<open>Properties of the search service\<close>

text \<open>
  On the index path a local search carries a smart deal only when the request asks for the
  international check and the index returned a hit.
\<close>

lemma searchLocal_index_path_gated:
  assumes "\<not> useMockData service"
    and "smartDeal (searchLocal fmt service elapsed request) \<noteq> None"
  shows "check_international request = Some True
         \<and> products (searchLocal fmt service elapsed request) \<noteq> []"
  using assms
  by (auto simp: searchLocal_def Let_def fallbackSearchLocal_def default_to_def first_of_def
      split: option.splits list.splits if_splits bool.splits)

text \<open>
  C6 on the code.  In mock mode \<open>searchLocal\<close> hands the request to the mock data service
  without the \<open>check_international\<close> flag, and the mock data service always runs
  \<open>findSmartDeal\<close>: a request with \<open>check_international = false\<close> is answered with an
  available smart deal.  The index path tests the flag (\<open>searchLocal_index_path_gated\<close>).
\<close>

theorem C6_mock_search_ignores_flag:
  "check_international (local_request ''headphones'' None (Some False)) = Some False
   \<and> map_option available (smartDeal (searchLocal integer_format
        (new_SearchService True
           [plain_listing ''l1'' ''grp'' LOCAL (lit 100), plain_listing ''g1'' ''grp'' GLOBAL (lit 85)]
           failing_index)
        (lit 0) (local_request ''headphones'' None (Some False))))
     = Some True"
proof -
  define L where "L = plain_listing ''l1'' ''grp'' LOCAL (lit 100)"
  define G where "G = plain_listing ''g1'' ''grp'' GLOBAL (lit 85)"
  have kinds: "shop_type (shop_info L) = LOCAL" "shop_type (shop_info G) = GLOBAL"
    "shop_country (shop_info L) = ''IL''"
    by (simp_all add: L_def G_def plain_listing_def)
  have m: "matchesQuery (toLowerCase ''headphones'') L"
    unfolding L_def by (rule headphones_match)
  have page: "results (MockDataService_searchLocal integer_format [L, G] (lit 0) ''headphones'' ''IL''
                 (Some no_filters) 1 20) = [L]"
    by (simp add: MockDataService_searchLocal_def Let_def kinds m passes_filters_def
        no_filters_def present_def has_length_def js_slice_def sort_with_def)
  have alts: "globalAlternatives [L, G] L = [G]"
    by (simp add: globalAlternatives_def L_def G_def plain_listing_def)
  have lp: "localPrice L = Finite 100"
    by (simp add: localPrice_def or_number_def L_def plain_listing_def)
  have gp: "landed_or_base G = Finite 85"
    by (simp add: landed_or_base_def or_number_def G_def plain_listing_def)
  have deal: "map_option available (findSmartDeal integer_format [L, G] ''headphones'' (Some L))
                = Some True"
    by (simp add: findSmartDeal_def alts cheapestGlobal_def lp gp Let_def
        savings_percent_100_85 js_lt_def)
  have "smart_deal (MockDataService_searchLocal integer_format [L, G] (lit 0) ''headphones'' ''IL''
                 (Some no_filters) 1 20)
        = findSmartDeal integer_format [L, G] ''headphones'' (Some L)"
    using page by (simp add: MockDataService_searchLocal_def Let_def first_of_def)
  with deal have "map_option available (smartDeal (searchLocal integer_format
        (new_SearchService True [L, G] failing_index) (lit 0)
        (local_request ''headphones'' None (Some False)))) = Some True"
    by (simp add: searchLocal_def new_SearchService_def local_request_def default_to_def Let_def)
  then show ?thesis by (simp add: L_def G_def local_request_def)
qed

text \<open>
  The index path of the global search does not read the category and brand filters: the
  request answered is the same with and without them.
\<close>

lemma buildGlobalFilters_ignores_lists:
  "buildGlobalFilters fmt (f\<lparr>categories := cs, brands := bs\<rparr>) minSellerRating
     = buildGlobalFilters fmt f minSellerRating"
  by (simp add: buildGlobalFilters_def)

lemma searchGlobal_index_path_ignores_lists:
  assumes "\<not> useMockData service"
  shows "searchGlobal fmt service elapsed (request\<lparr>filters := Some (f\<lparr>categories := cs, brands := bs\<rparr>)\<rparr>)
       = searchGlobal fmt service elapsed (request\<lparr>filters := Some f\<rparr>)"
  using assms
  by (simp add: searchGlobal_def Let_def default_to_def buildGlobalFilters_ignores_lists
      fallbackSearchGlobal_def split: option.splits)

text \<open>
  C7 on the code.  A global search in mock mode with the category allow-list \<open>phones\<close>
  returns a listing of category \<open>audio\<close>: the filter block of the mock data service has no
  test for categories.  On the index path \<open>buildGlobalFilters\<close> writes no clause for
  categories or brands, where \<open>buildLocalFilters\<close> writes both.
\<close>

theorem C7_global_search_ignores_categories:
  "map category (products (searchGlobal integer_format
      (new_SearchService True [plain_listing ''g1'' ''grp'' GLOBAL (lit 85)] failing_index) (lit 0)
      (global_request ''headphones'' (Some (list_filters None (Some [''phones'']) None)))))
     = [Some ''audio'']
   \<and> buildGlobalFilters integer_format
       (list_filters None (Some [''phones'']) (Some [''Apple''])) None
     = [''shop_info.type = '' @ quoted ''global'']
   \<and> buildLocalFilters integer_format
       (list_filters None (Some [''phones'']) (Some [''Apple''])) IL
     = [''shop_info.type = '' @ quoted ''local'',
        ''shop_info.country = '' @ quoted ''IL'',
        ''(category = '' @ quoted ''phones'' @ '')'',
        ''(brand = '' @ quoted ''Apple'' @ '')'']"
proof -
  define G where "G = plain_listing ''g1'' ''grp'' GLOBAL (lit 85)"
  have facts: "shop_type (shop_info G) = GLOBAL" "''IL'' \<in> set (ships_to (shop_info G))"
    "category G = Some ''audio''"
    by (simp_all add: G_def plain_listing_def)
  have m: "matchesQuery (toLowerCase ''headphones'') G"
    unfolding G_def by (rule headphones_match)
  have pass: "passes_filters (Some (list_filters None (Some [''phones'']) None)) G"
    by (simp add: passes_filters_def list_filters_def no_filters_def present_def has_length_def)
  have "results (MockDataService_searchGlobal [G] (lit 0) ''headphones'' ''IL''
           (Some (list_filters None (Some [''phones'']) None)) 1 20) = [G]"
    by (simp add: MockDataService_searchGlobal_def Let_def facts m pass js_slice_def sort_with_def)
  then have mock: "map category (products (searchGlobal integer_format
      (new_SearchService True [G] failing_index) (lit 0)
      (global_request ''headphones'' (Some (list_filters None (Some [''phones'']) None)))))
     = [Some ''audio'']"
    by (simp add: searchGlobal_def new_SearchService_def global_request_def default_to_def
        Let_def facts)
  have glob: "buildGlobalFilters integer_format
       (list_filters None (Some [''phones'']) (Some [''Apple''])) None
     = [''shop_info.type = '' @ quoted ''global'']"
    by (simp add: buildGlobalFilters_def list_filters_def no_filters_def)
  have loc: "buildLocalFilters integer_format
       (list_filters None (Some [''phones'']) (Some [''Apple''])) IL
     = [''shop_info.type = '' @ quoted ''local'',
        ''shop_info.country = '' @ quoted ''IL'',
        ''(category = '' @ quoted ''phones'' @ '')'',
        ''(brand = '' @ quoted ''Apple'' @ '')'']"
    by (simp add: buildLocalFilters_def list_filters_def no_filters_def any_of_def)
  from mock glob loc show ?thesis unfolding G_def by blast
qed



section \<open>Properties of the local search route\<close>

lemma searchLocal_primary_fails:
  assumes "primary_fails fmt service request"
  shows "searchLocal fmt service elapsed request = fallbackSearchLocal request"
  using assms
  by (auto simp: primary_fails_def searchLocal_def Let_def split: option.splits bool.splits)

text \<open>
  C1 as stated fails.  With an index whose query fails and an empty cache, the handler
  answers the request for \<open>headphones\<close> with the fallback result and calls the cache
  store's set operation.
\<close>

theorem C1_fallback_cached_counterexample:
  "primary_fails integer_format (new_SearchService False [] failing_index)
     (local_request ''headphones'' None None)
   \<and> list_ex is_set (cache_calls (localSearchHandler integer_format
        (new_SearchService False [] failing_index) (lit 300) (lit 5) (lit 0) empty_redis
        (local_request ''headphones'' None None)))"
  by (simp add: primary_fails_def new_SearchService_def failing_index_def localSearchHandler_def
      localSearchSchema_parse_def local_request_def CacheService_get_def empty_redis_def Let_def)

text \<open>
  C1, amended.  For every local search request that passes validation and misses the cache,
  and whose primary search-index query fails, the handler sends the fallback result (no
  listings, a total of zero, no smart deal) and invokes the cache store's set operation
  exactly once, after the lookup, with that response under the request's cache key; with a
  working store the response is then the cached value of the key.
\<close>

theorem C1_fallback_cached_amended:
  assumes "localSearchSchema_parse body = Some validatedBody"
    and "CacheService_get redis (buildSearchCacheKey fmt KindLocal (OfLocal validatedBody)) = None"
    and "primary_fails fmt searchService
           (validatedBody\<lparr>filters := map_option filters_after_key (filters validatedBody)\<rparr>)"
  shows "\<exists>response.
           reply (localSearchHandler fmt searchService cacheTTL elapsed mockElapsed redis body)
             = Sent response
         \<and> results response = []
         \<and> total_results (pagination response) = 0
         \<and> smart_deal response = None
         \<and> cache_calls (localSearchHandler fmt searchService cacheTTL elapsed mockElapsed redis body)
             = [CacheGet (buildSearchCacheKey fmt KindLocal (OfLocal validatedBody)),
                CacheSet (buildSearchCacheKey fmt KindLocal (OfLocal validatedBody))
                  response cacheTTL]
         \<and> (ready redis \<longrightarrow>
              CacheService_get
                (redis_after (localSearchHandler fmt searchService cacheTTL elapsed mockElapsed
                   redis body))
                (buildSearchCacheKey fmt KindLocal (OfLocal validatedBody))
              = Some response)"
proof -
  define searchRequest
    where "searchRequest =
      validatedBody\<lparr>filters := map_option filters_after_key (filters validatedBody)\<rparr>"
  define cacheKey where "cacheKey = buildSearchCacheKey fmt KindLocal (OfLocal validatedBody)"
  define response where "response =
     \<lparr>results = [],
      pagination = buildPagination (or_int (page searchRequest) 1)
                     (or_int (per_page searchRequest) 20) 0,
      response_query = query validatedBody,
      response_filters = default_to no_filters (filters searchRequest),
      took_ms = elapsed,
      smart_deal = None\<rparr>"
  have fallback: "searchLocal fmt searchService mockElapsed searchRequest
                   = fallbackSearchLocal searchRequest"
    unfolding searchRequest_def by (rule searchLocal_primary_fails) (rule assms(3))
  have miss: "CacheService_get redis cacheKey = None"
    unfolding cacheKey_def by (rule assms(2))
  have out: "localSearchHandler fmt searchService cacheTTL elapsed mockElapsed redis body
      = \<lparr>reply = Sent response,
         redis_after = CacheService_set redis cacheTTL cacheKey response (Some cacheTTL),
         cache_calls = [CacheGet cacheKey, CacheSet cacheKey response cacheTTL]\<rparr>"
    by (simp add: localSearchHandler_def assms(1) Let_def cacheKey_def [symmetric] miss
        searchRequest_def [symmetric] fallback fallbackSearchLocal_def response_def)
  have empty: "results response = []" "smart_deal response = None"
    "total_results (pagination response) = 0"
    by (simp_all add: response_def buildPagination_def Let_def)
  have stored: "CacheService_get (CacheService_set redis cacheTTL cacheKey response (Some cacheTTL))
                  cacheKey = Some response" if "ready redis"
    using that by (simp add: CacheService_get_def CacheService_set_def)
  from out empty stored show ?thesis
    unfolding cacheKey_def [symmetric] by simp
qed

theorem C1_fallback_cached_amended_witness:
  "localSearchSchema_parse (local_request ''headphones'' None None)
     = Some ((local_request ''headphones'' None None)
          \<lparr>sort_by := Some RELEVANCE, page := Some 1, per_page := Some 20,
           check_international := Some False\<rparr>)
   \<and> (\<exists>response.
        reply (localSearchHandler integer_format (new_SearchService False [] failing_index)
                 (lit 300) (lit 5) (lit 0) empty_redis (local_request ''headphones'' None None))
          = Sent response
      \<and> results response = []
      \<and> list_ex is_set (cache_calls (localSearchHandler integer_format
           (new_SearchService False [] failing_index) (lit 300) (lit 5) (lit 0) empty_redis
           (local_request ''headphones'' None None))))"
proof -
  define v where "v = (local_request ''headphones'' None None)
          \<lparr>sort_by := Some RELEVANCE, page := Some 1, per_page := Some 20,
           check_international := Some False\<rparr>"
  have parse: "localSearchSchema_parse (local_request ''headphones'' None None) = Some v"
    by (simp add: localSearchSchema_parse_def local_request_def default_to_def v_def)
  have miss: "CacheService_get empty_redis
                (buildSearchCacheKey integer_format KindLocal (OfLocal v)) = None"
    by (simp add: CacheService_get_def empty_redis_def)
  have fails: "primary_fails integer_format (new_SearchService False [] failing_index)
                 (v\<lparr>filters := map_option filters_after_key (filters v)\<rparr>)"
    by (simp add: primary_fails_def new_SearchService_def failing_index_def)
  from C1_fallback_cached_amended [OF parse miss fails, of "lit 300" "lit 5" "lit 0"]
  obtain response where
    "reply (localSearchHandler integer_format (new_SearchService False [] failing_index)
              (lit 300) (lit 5) (lit 0) empty_redis (local_request ''headphones'' None None)) = Sent response"
    "results response = []"
    "cache_calls (localSearchHandler integer_format (new_SearchService False [] failing_index)
              (lit 300) (lit 5) (lit 0) empty_redis (local_request ''headphones'' None None))
       = [CacheGet (buildSearchCacheKey integer_format KindLocal (OfLocal v)),
          CacheSet (buildSearchCacheKey integer_format KindLocal (OfLocal v)) response (lit 300)]"
    by blast
  then have "\<exists>response.
        reply (localSearchHandler integer_format (new_SearchService False [] failing_index)
                 (lit 300) (lit 5) (lit 0) empty_redis (local_request ''headphones'' None None))
          = Sent response
      \<and> results response = []
      \<and> list_ex is_set (cache_calls (localSearchHandler integer_format
           (new_SearchService False [] failing_index) (lit 300) (lit 5) (lit 0) empty_redis
           (local_request ''headphones'' None None)))"
    by simp
  with parse show ?thesis unfolding v_def by blast
qed



end
